(* ===== verification/BB_Prelude.thy ===== *)
theory BB_Prelude
  imports Main "HOL-Library.Word"
begin

text \<open>
  Shared vocabulary of the development: the machine integers and strings of the Rust
  sources, results and errors (\<open>Result\<close>, panics), the effects the daemon has on the
  outside world (standard output and error, the SIEM file, signals), a small
  error-and-output monad in which the fallible routines are written, slicing with its
  bounds check, and the generic lemmas and theorem collections the components share.
\<close>

unbundle bit_operations_syntax

named_theorems io_simps "equations of the error-and-output monad"
named_theorems slice_simps "slices and fixed offsets"
named_theorems str_simps "string literals"

section \<open>Machine integers and strings\<close>

type_synonym u8 = "8 word"
type_synonym u32 = "32 word"
type_synonym u64 = "64 word"

text \<open>
  A Rust \<open>char\<close> is a Unicode scalar value, represented by its code point; a \<open>String\<close>
  or \<open>&str\<close> is a list of them. Literals of the sources are ASCII unless written as
  code points; \<open>str\<close> embeds them.
\<close>

type_synonym rchar = nat
type_synonym rstr = "rchar list"

definition str :: "string \<Rightarrow> rstr" where
  "str s = map of_char s"

lemma str_eq_iff [simp, str_simps]: "str a = str b \<longleftrightarrow> a = b"
  by (simp add: str_def inj_of_char)

lemma str_Nil [simp]: "str [] = []"
  by (simp add: str_def)

lemma str_Cons: "str (c # cs) = of_char c # str cs"
  by (simp add: str_def)

lemma str_append [simp]: "str (a @ b) = str a @ str b"
  by (simp add: str_def)

lemma str_eq_Nil_iff [simp]: "str s = [] \<longleftrightarrow> s = []"
  by (simp add: str_def)

lemma length_str [simp]: "length (str s) = length s"
  by (simp add: str_def)

text \<open>A string between apostrophes, as the messages print names; and a final newline.\<close>

definition quoted :: "rstr \<Rightarrow> rstr" where
  "quoted s = 39 # s @ [39]"

definition newline :: rstr where
  "newline = [10]"

text \<open>Unicode scalar values: every code point that is not a surrogate.\<close>

definition is_scalar :: "rchar \<Rightarrow> bool" where
  "is_scalar c \<longleftrightarrow> c < 0xD800 \<or> (0xE000 \<le> c \<and> c < 0x110000)"

subsection \<open>Display of numbers\<close>

fun show_nat :: "nat \<Rightarrow> rstr" where
  "show_nat n = (if n < 10 then [48 + n] else show_nat (n div 10) @ [48 + n mod 10])"

declare show_nat.simps [simp del]

definition show_u32 :: "u32 \<Rightarrow> rstr" where
  "show_u32 w = show_nat (unat w)"

definition show_bool :: "bool \<Rightarrow> rstr" where
  "show_bool b = (if b then str ''true'' else str ''false'')"

lemma show_nat_digits: "c \<in> set (show_nat n) \<Longrightarrow> 48 \<le> c \<and> c \<le> 57"
proof (induction n rule: show_nat.induct)
  case (1 n)
  show ?case
  proof (cases "n < 10")
    case True
    with "1.prems" show ?thesis by (auto simp: show_nat.simps [of n])
  next
    case False
    with 1 show ?thesis by (auto simp: show_nat.simps [of n])
  qed
qed

lemma show_nat_nonempty [simp]: "show_nat n \<noteq> []"
  by (subst show_nat.simps) simp

section \<open>Results, effects and the monad of the fallible routines\<close>

text \<open>
  \<open>Fail\<close> is an \<open>Err\<close> value with its message; \<open>Panic\<close> is an unwinding panic (a slice
  out of range, a failed \<open>unwrap\<close>).
\<close>

datatype error = Fail rstr | Panic

type_synonym 'a result = "error + 'a"

text \<open>
  What the daemon does to the outside: a line on standard output or standard error
  (\<open>println!\<close>, \<open>eprintln!\<close>), a line appended to an open file (the SIEM log, named by its
  path), \<open>SIGKILL\<close> to a process.
\<close>

datatype effect =
    Stdout rstr
  | Stderr rstr
  | FileLine rstr rstr
  | Kill u32

type_synonym 'a io = "effect list \<times> 'a result"

definition ret :: "'a \<Rightarrow> 'a io" where
  "ret a = ([], Inr a)"

definition fail :: "rstr \<Rightarrow> 'a io" where
  "fail msg = ([], Inl (Fail msg))"

definition tell :: "effect list \<Rightarrow> unit io" where
  "tell es = (es, Inr ())"

definition lift_result :: "'a result \<Rightarrow> 'a io" where
  "lift_result r = ([], r)"

definition bind_io :: "'a io \<Rightarrow> ('a \<Rightarrow> 'b io) \<Rightarrow> 'b io" where
  "bind_io m f =
     (case snd m of
        Inl e \<Rightarrow> (fst m, Inl e)
      | Inr a \<Rightarrow> (fst m @ fst (f a), snd (f a)))"

lemma bind_io_simps [simp, io_simps]:
  "bind_io (es, Inl e) f = (es, Inl e)"
  "bind_io (es, Inr a) f = (es @ fst (f a), snd (f a))"
  by (simp_all add: bind_io_def)

lemma ret_bind [simp]: "bind_io (ret a) f = f a"
  by (simp add: ret_def bind_io_def)

lemma bind_ret [simp]: "bind_io m ret = m"
  by (cases m) (auto simp: bind_io_def ret_def split: sum.splits)

lemma bind_assoc: "bind_io (bind_io m f) g = bind_io m (\<lambda>a. bind_io (f a) g)"
  by (simp add: bind_io_def split: sum.splits)

lemmas io_defs = ret_def fail_def tell_def lift_result_def

section \<open>Slices and machine words as bytes\<close>

text \<open>Rust's \<open>&xs[a..b]\<close>: a panic when the bounds are not within the slice.\<close>

definition slice_range :: "nat \<Rightarrow> nat \<Rightarrow> 'a list \<Rightarrow> 'a list result" where
  "slice_range a b xs = (if a \<le> b \<and> b \<le> length xs then Inr (take (b - a) (drop a xs)) else Inl Panic)"

lemma slice_range_ok [simp, slice_simps]:
  "a \<le> b \<Longrightarrow> b \<le> length xs \<Longrightarrow> slice_range a b xs = Inr (take (b - a) (drop a xs))"
  by (simp add: slice_range_def)

text \<open>
  The daemon reads integers in the byte order of the host (\<open>from_ne_bytes\<close>), which the
  kernel program used when it wrote them; the order is a parameter.
\<close>

datatype endian = Little | Big

definition u32_to_le_bytes :: "u32 \<Rightarrow> u8 list" where
  "u32_to_le_bytes w =
     [ucast w, ucast (drop_bit 8 w), ucast (drop_bit 16 w), ucast (drop_bit 24 w)]"

fun u32_from_le_bytes :: "u8 list \<Rightarrow> u32" where
  "u32_from_le_bytes [a, b, c, d] =
     ucast a OR push_bit 8 (ucast b) OR push_bit 16 (ucast c) OR push_bit 24 (ucast d)"
| "u32_from_le_bytes _ = 0"

definition u32_to_ne_bytes :: "endian \<Rightarrow> u32 \<Rightarrow> u8 list" where
  "u32_to_ne_bytes en w =
     (case en of Little \<Rightarrow> u32_to_le_bytes w | Big \<Rightarrow> rev (u32_to_le_bytes w))"

definition u32_from_ne_bytes :: "endian \<Rightarrow> u8 list \<Rightarrow> u32" where
  "u32_from_ne_bytes en bs =
     (case en of Little \<Rightarrow> u32_from_le_bytes bs | Big \<Rightarrow> u32_from_le_bytes (rev bs))"

lemma length_u32_to_le_bytes [simp]: "length (u32_to_le_bytes w) = 4"
  by (simp add: u32_to_le_bytes_def)

lemma length_u32_to_ne_bytes [simp, slice_simps]: "length (u32_to_ne_bytes en w) = 4"
  by (cases en) (simp_all add: u32_to_ne_bytes_def)

lemma u32_from_to_le_bytes [simp]: "u32_from_le_bytes (u32_to_le_bytes w) = w"
proof (rule bit_word_eqI)
  fix n
  assume "n < LENGTH(32)"
  then show "bit (u32_from_le_bytes (u32_to_le_bytes w)) n = bit w n"
    by (simp add: u32_to_le_bytes_def bit_simps cong: conj_cong) arith
qed

lemma u32_from_to_ne_bytes [simp]: "u32_from_ne_bytes en (u32_to_ne_bytes en w) = w"
  by (cases en) (simp_all add: u32_to_ne_bytes_def u32_from_ne_bytes_def)

definition u64_to_le_bytes :: "u64 \<Rightarrow> u8 list" where
  "u64_to_le_bytes w = map (\<lambda>i. ucast (drop_bit (8 * i) w)) [0..<8]"

definition u64_to_ne_bytes :: "endian \<Rightarrow> u64 \<Rightarrow> u8 list" where
  "u64_to_ne_bytes en w =
     (case en of Little \<Rightarrow> u64_to_le_bytes w | Big \<Rightarrow> rev (u64_to_le_bytes w))"

lemma length_u64_to_ne_bytes [simp]: "length (u64_to_ne_bytes en w) = 8"
  by (cases en) (simp_all add: u64_to_ne_bytes_def u64_to_le_bytes_def)

lemma u64_to_le_bytes_inj: "u64_to_le_bytes v = u64_to_le_bytes w \<Longrightarrow> v = w"
proof (rule bit_word_eqI)
  fix n
  assume eq: "u64_to_le_bytes v = u64_to_le_bytes w" and n: "n < LENGTH(64)"
  let ?i = "n div 8"
  from n have i: "?i < 8" by simp
  have byte: "u64_to_le_bytes x ! ?i = ucast (drop_bit (8 * ?i) x)" for x
    using i by (simp add: u64_to_le_bytes_def)
  have "bit (ucast (drop_bit (8 * ?i) v) :: u8) (n mod 8) =
        bit (ucast (drop_bit (8 * ?i) w) :: u8) (n mod 8)"
    using byte [of v] byte [of w] eq by simp
  then show "bit v n = bit w n"
    by (simp add: bit_simps mult_div_mod_eq)
qed

lemma u64_to_ne_bytes_inj [simp]:
  "u64_to_ne_bytes en v = u64_to_ne_bytes en w \<longleftrightarrow> v = w"
  by (cases en) (auto simp: u64_to_ne_bytes_def dest: u64_to_le_bytes_inj)

lemma u32_to_ne_bytes_inj [simp]:
  "u32_to_ne_bytes en v = u32_to_ne_bytes en w \<longleftrightarrow> v = w"
  by (metis u32_from_to_ne_bytes)

section \<open>Standard-library string functions\<close>

text \<open>\<open>Iterator::position\<close>: the index of the first element with the property.\<close>

fun position :: "('a \<Rightarrow> bool) \<Rightarrow> 'a list \<Rightarrow> nat option" where
  "position P [] = None"
| "position P (x # xs) = (if P x then Some 0 else map_option Suc (position P xs))"

lemma position_takeWhile:
  "(case position P xs of Some i \<Rightarrow> i | None \<Rightarrow> length xs) = length (takeWhile (\<lambda>x. \<not> P x) xs)"
  by (induction xs) (auto split: option.splits)

lemma take_position:
  "take (case position P xs of Some i \<Rightarrow> i | None \<Rightarrow> length xs) xs = takeWhile (\<lambda>x. \<not> P x) xs"
  by (simp only: position_takeWhile takeWhile_eq_take [symmetric])

text \<open>\<open>char::is_whitespace\<close>: the Unicode property White\_Space.\<close>

definition is_whitespace :: "rchar \<Rightarrow> bool" where
  "is_whitespace c \<longleftrightarrow>
     (9 \<le> c \<and> c \<le> 13) \<or> c = 32 \<or> c = 0x85 \<or> c = 0xA0 \<or> c = 0x1680 \<or>
     (0x2000 \<le> c \<and> c \<le> 0x200A) \<or> c = 0x2028 \<or> c = 0x2029 \<or> c = 0x202F \<or>
     c = 0x205F \<or> c = 0x3000"

definition trim_start_by :: "(rchar \<Rightarrow> bool) \<Rightarrow> rstr \<Rightarrow> rstr" where
  "trim_start_by P s = dropWhile P s"

definition trim_end_by :: "(rchar \<Rightarrow> bool) \<Rightarrow> rstr \<Rightarrow> rstr" where
  "trim_end_by P s = rev (dropWhile P (rev s))"

definition trim_by :: "(rchar \<Rightarrow> bool) \<Rightarrow> rstr \<Rightarrow> rstr" where
  "trim_by P s = trim_end_by P (trim_start_by P s)"

text \<open>\<open>str::split\<close> with a character predicate: always at least one piece.\<close>

fun split_on :: "(rchar \<Rightarrow> bool) \<Rightarrow> rstr \<Rightarrow> rstr list" where
  "split_on P [] = [[]]"
| "split_on P (c # cs) =
     (if P c then [] # split_on P cs
      else (case split_on P cs of [] \<Rightarrow> [[c]] | w # ws \<Rightarrow> (c # w) # ws))"

definition split_whitespace :: "rstr \<Rightarrow> rstr list" where
  "split_whitespace s = filter (\<lambda>w. w \<noteq> []) (split_on is_whitespace s)"

lemma split_on_nonempty [simp]: "split_on P s \<noteq> []"
  by (cases s) (auto split: list.splits)

lemma split_on_no_sep: "\<forall>c \<in> set s. \<not> P c \<Longrightarrow> split_on P s = [s]"
  by (induction s) auto

lemma split_on_sep_append:
  "\<forall>c \<in> set s. \<not> P c \<Longrightarrow> P x \<Longrightarrow> split_on P (s @ x # t) = s # split_on P t"
  by (induction s) (auto split: list.splits)

lemma split_on_pieces: "w \<in> set (split_on P s) \<Longrightarrow> c \<in> set w \<Longrightarrow> \<not> P c \<and> c \<in> set s"
proof (induction s arbitrary: w)
  case Nil
  then show ?case by simp
next
  case (Cons x xs)
  then show ?case
    by (cases "split_on P xs") (fastforce split: if_splits)+
qed

lemma split_whitespace_pieces:
  "w \<in> set (split_whitespace s) \<Longrightarrow> w \<noteq> [] \<and> (\<forall>c \<in> set w. \<not> is_whitespace c)"
  by (auto simp: split_whitespace_def dest: split_on_pieces)

lemma trim_by_no_sep: "\<forall>c \<in> set s. \<not> P c \<Longrightarrow> trim_by P s = s"
proof -
  assume no: "\<forall>c \<in> set s. \<not> P c"
  have drop: "dropWhile P t = t" if "\<forall>c \<in> set t. \<not> P c" for t :: rstr
    using that by (cases t) auto
  from no show ?thesis
    by (simp add: trim_by_def trim_end_by_def trim_start_by_def drop)
qed

lemma trim_end_by_append:
  "trim_end_by P (xs @ ys) =
     (if trim_end_by P ys = [] then trim_end_by P xs else xs @ trim_end_by P ys)"
  by (simp add: trim_end_by_def dropWhile_append)

lemma trim_end_by_no_sep: "\<forall>c \<in> set s. \<not> P c \<Longrightarrow> trim_end_by P s = s"
  using trim_by_no_sep [of s P] by (cases s) (auto simp: trim_by_def trim_start_by_def)

lemma trim_end_by_prefix: "\<exists>t. s = trim_end_by P s @ t"
  using takeWhile_dropWhile_id [of P "rev s"]
  by (metis rev_append rev_rev_ident trim_end_by_def)

text \<open>\<open>str::starts_with\<close> and \<open>str::contains\<close>.\<close>

definition starts_with :: "rstr \<Rightarrow> rstr \<Rightarrow> bool" where
  "starts_with prefix s \<longleftrightarrow> take (length prefix) s = prefix"

lemma starts_with_append [simp]: "starts_with p (p @ s)"
  by (simp add: starts_with_def)

fun contains_str :: "rstr \<Rightarrow> rstr \<Rightarrow> bool" where
  "contains_str needle [] = (needle = [])"
| "contains_str needle (c # cs) =
     (take (length needle) (c # cs) = needle \<or> contains_str needle cs)"

end
