(* ===== verification/BB_Utf8.thy ===== *)
theory BB_Utf8
  imports BB_Prelude
begin

text \<open>
  UTF-8 as the Rust standard library reads it: \<open>utf8_lossy\<close> is
  \<open>String::from_utf8_lossy\<close> (each maximal invalid sequence becomes U+FFFD, found by the
  byte classes of \<open>core::str::lossy\<close>), \<open>utf8_encode\<close> is \<open>str::as_bytes\<close>. The lemmas show
  the round trip on scalar values, that ASCII bytes are their own characters, and that
  the decoder never produces more characters than it reads bytes.
\<close>

section \<open>Decoding\<close>

definition is_cont :: "nat \<Rightarrow> bool" where
  "is_cont b \<longleftrightarrow> 0x80 \<le> b \<and> b \<le> 0xBF"

definition second_of_3 :: "nat \<Rightarrow> nat \<Rightarrow> bool" where
  "second_of_3 b c \<longleftrightarrow>
     (b = 0xE0 \<and> 0xA0 \<le> c \<and> c \<le> 0xBF) \<or>
     (0xE1 \<le> b \<and> b \<le> 0xEC \<and> is_cont c) \<or>
     (b = 0xED \<and> 0x80 \<le> c \<and> c \<le> 0x9F) \<or>
     (0xEE \<le> b \<and> b \<le> 0xEF \<and> is_cont c)"

definition second_of_4 :: "nat \<Rightarrow> nat \<Rightarrow> bool" where
  "second_of_4 b c \<longleftrightarrow>
     (b = 0xF0 \<and> 0x90 \<le> c \<and> c \<le> 0xBF) \<or>
     (0xF1 \<le> b \<and> b \<le> 0xF3 \<and> is_cont c) \<or>
     (b = 0xF4 \<and> 0x80 \<le> c \<and> c \<le> 0x8F)"

definition replacement_char :: rchar where
  "replacement_char = 0xFFFD"

text \<open>One character from a first byte and the bytes after it: the character and the rest.\<close>

definition utf8_step :: "nat \<Rightarrow> nat list \<Rightarrow> rchar \<times> nat list" where
  "utf8_step b rest =
    (if b < 0x80 then (b, rest)
     else if 0xC2 \<le> b \<and> b \<le> 0xDF then
       (case rest of
          [] \<Rightarrow> (replacement_char, [])
        | c # r \<Rightarrow>
            if is_cont c then ((b - 0xC0) * 64 + (c - 0x80), r) else (replacement_char, rest))
     else if 0xE0 \<le> b \<and> b \<le> 0xEF then
       (case rest of
          [] \<Rightarrow> (replacement_char, [])
        | c # r \<Rightarrow>
            if \<not> second_of_3 b c then (replacement_char, rest)
            else (case r of
                    [] \<Rightarrow> (replacement_char, [])
                  | d # r' \<Rightarrow>
                      if is_cont d
                      then ((b - 0xE0) * 4096 + (c - 0x80) * 64 + (d - 0x80), r')
                      else (replacement_char, r)))
     else if 0xF0 \<le> b \<and> b \<le> 0xF4 then
       (case rest of
          [] \<Rightarrow> (replacement_char, [])
        | c # r \<Rightarrow>
            if \<not> second_of_4 b c then (replacement_char, rest)
            else (case r of
                    [] \<Rightarrow> (replacement_char, [])
                  | d # r' \<Rightarrow>
                      if \<not> is_cont d then (replacement_char, r)
                      else (case r' of
                              [] \<Rightarrow> (replacement_char, [])
                            | e # r'' \<Rightarrow>
                                if is_cont e
                                then ((b - 0xF0) * 262144 + (c - 0x80) * 4096
                                        + (d - 0x80) * 64 + (e - 0x80), r'')
                                else (replacement_char, r'))))
     else (replacement_char, rest))"

lemma utf8_step_shrinks: "length (snd (utf8_step b rest)) \<le> length rest"
  by (auto simp: utf8_step_def split: list.splits)

function utf8_lossy_nat :: "nat list \<Rightarrow> rstr" where
  "utf8_lossy_nat [] = []"
| "utf8_lossy_nat (b # rest) =
     fst (utf8_step b rest) # utf8_lossy_nat (snd (utf8_step b rest))"
  by pat_completeness auto
termination
  by (relation "measure length") (auto simp: less_Suc_eq_le utf8_step_shrinks)

definition utf8_lossy :: "u8 list \<Rightarrow> rstr" where
  "utf8_lossy bs = utf8_lossy_nat (map unat bs)"

lemma length_utf8_lossy_nat: "length (utf8_lossy_nat bs) \<le> length bs"
proof (induction bs rule: utf8_lossy_nat.induct)
  case 1
  then show ?case by simp
next
  case (2 b rest)
  then show ?case
    using utf8_step_shrinks [of b rest] by simp
qed

lemma length_utf8_lossy: "length (utf8_lossy bs) \<le> length bs"
  using length_utf8_lossy_nat [of "map unat bs"] by (simp add: utf8_lossy_def)

lemma utf8_lossy_Nil [simp]: "utf8_lossy [] = []"
  by (simp add: utf8_lossy_def)

lemma utf8_lossy_ascii: "\<forall>b \<in> set bs. unat b < 0x80 \<Longrightarrow> utf8_lossy bs = map unat bs"
  by (induction bs) (auto simp: utf8_lossy_def utf8_step_def)

section \<open>Encoding and the round trip\<close>

definition utf8_encode_char :: "rchar \<Rightarrow> nat list" where
  "utf8_encode_char c =
    (if c < 0x80 then [c]
     else if c < 0x800 then [0xC0 + c div 64, 0x80 + c mod 64]
     else if c < 0x10000 then [0xE0 + c div 4096, 0x80 + c div 64 mod 64, 0x80 + c mod 64]
     else [0xF0 + c div 262144, 0x80 + c div 4096 mod 64, 0x80 + c div 64 mod 64, 0x80 + c mod 64])"

definition utf8_encode :: "rstr \<Rightarrow> u8 list" where
  "utf8_encode s = map of_nat (concat (map utf8_encode_char s))"

lemma utf8_encode_char_bytes:
  "is_scalar c \<Longrightarrow> b \<in> set (utf8_encode_char c) \<Longrightarrow> b < 256"
  by (auto simp: utf8_encode_char_def is_scalar_def split: if_splits)

lemma utf8_step_encode:
  assumes "is_scalar c"
  shows "\<exists>b bs. utf8_encode_char c = b # bs \<and> utf8_step b (bs @ rest) = (c, rest)"
proof -
  consider "c < 0x80" | "0x80 \<le> c" "c < 0x800" | "0x800 \<le> c" "c < 0x10000" | "0x10000 \<le> c"
    by linarith
  then show ?thesis
  proof cases
    case 1
    then show ?thesis by (simp add: utf8_encode_char_def utf8_step_def)
  next
    case 2
    define h l where "h = c div 64" and "l = c mod 64"
    have c: "c = h * 64 + l" and bnd: "l < 64"
      unfolding h_def l_def by simp_all
    have "2 \<le> h" "h < 32" using 2 c bnd by linarith+
    moreover have "utf8_encode_char c = [192 + h, 128 + l]"
      using 2 by (simp add: utf8_encode_char_def h_def l_def)
    ultimately show ?thesis
      using bnd c by (simp add: utf8_step_def is_cont_def)
  next
    case 3
    define h m l where "h = c div 4096" and "m = c div 64 mod 64" and "l = c mod 64"
    have "c div 4096 = c div 64 div 64" by (simp flip: div_mult2_eq)
    then have c: "c = h * 4096 + m * 64 + l"
      unfolding h_def m_def l_def
      using div_mult_mod_eq [of c 64] div_mult_mod_eq [of "c div 64" 64] by linarith
    have bnd: "m < 64" "l < 64"
      unfolding m_def l_def by simp_all
    have "h < 16" using 3 c by linarith
    moreover have "h = 0 \<Longrightarrow> 32 \<le> m" using 3 c bnd by linarith
    moreover have "h = 13 \<Longrightarrow> m < 32" using 3 assms c bnd by (auto simp: is_scalar_def)
    ultimately have "second_of_3 (224 + h) (128 + m)"
      using bnd by (auto simp: second_of_3_def is_cont_def)
    moreover have "utf8_encode_char c = [224 + h, 128 + m, 128 + l]"
      using 3 by (simp add: utf8_encode_char_def h_def m_def l_def)
    ultimately show ?thesis
      using \<open>h < 16\<close> bnd c by (simp add: utf8_step_def is_cont_def)
  next
    case 4
    define h k m l where "h = c div 262144" and "k = c div 4096 mod 64"
      and "m = c div 64 mod 64" and "l = c mod 64"
    have "c div 4096 = c div 64 div 64" and "c div 262144 = c div 4096 div 64"
      by (simp_all flip: div_mult2_eq)
    then have c: "c = h * 262144 + k * 4096 + m * 64 + l"
      unfolding h_def k_def m_def l_def
      using div_mult_mod_eq [of c 64] div_mult_mod_eq [of "c div 64" 64]
        div_mult_mod_eq [of "c div 4096" 64] by linarith
    have bnd: "k < 64" "m < 64" "l < 64"
      unfolding k_def m_def l_def by simp_all
    have lt: "c < 0x110000" using 4 assms by (auto simp: is_scalar_def)
    then have "h < 5" using c by linarith
    moreover have "16 \<le> k \<or> 1 \<le> h" using 4 c bnd by linarith
    moreover have "k < 16 \<or> h \<le> 3" using lt c bnd by linarith
    ultimately have "second_of_4 (240 + h) (128 + k)"
      using bnd by (auto simp: second_of_4_def is_cont_def)
    moreover have "utf8_encode_char c = [240 + h, 128 + k, 128 + m, 128 + l]"
      using 4 by (simp add: utf8_encode_char_def h_def k_def m_def l_def)
    ultimately show ?thesis
      using \<open>h < 5\<close> bnd c by (simp add: utf8_step_def is_cont_def)
  qed
qed

lemma utf8_lossy_nat_encode:
  "\<forall>c \<in> set s. is_scalar c \<Longrightarrow> utf8_lossy_nat (concat (map utf8_encode_char s)) = s"
proof (induction s)
  case Nil
  then show ?case by simp
next
  case (Cons c s)
  then obtain b bs where enc: "utf8_encode_char c = b # bs"
    and step: "utf8_step b (bs @ concat (map utf8_encode_char s)) = (c, concat (map utf8_encode_char s))"
    using utf8_step_encode [of c "concat (map utf8_encode_char s)"] by auto
  from Cons show ?case by (simp add: enc step)
qed

lemma utf8_lossy_encode: "\<forall>c \<in> set s. is_scalar c \<Longrightarrow> utf8_lossy (utf8_encode s) = s"
proof -
  assume scalars: "\<forall>c \<in> set s. is_scalar c"
  have "map unat (map (of_nat :: nat \<Rightarrow> u8) bs) = bs" if "\<forall>b \<in> set bs. b < 256" for bs
    using that by (induction bs) (simp_all add: unat_of_nat)
  moreover have "\<forall>b \<in> set (concat (map utf8_encode_char s)). b < 256"
    using scalars by (auto dest: utf8_encode_char_bytes)
  ultimately have "map unat (utf8_encode s) = concat (map utf8_encode_char s)"
    by (simp only: utf8_encode_def)
  then show ?thesis
    using utf8_lossy_nat_encode [OF scalars] by (simp add: utf8_lossy_def)
qed

lemma utf8_encode_append [simp]: "utf8_encode (a @ b) = utf8_encode a @ utf8_encode b"
  by (simp add: utf8_encode_def)

lemma utf8_encode_ascii: "\<forall>c \<in> set s. c < 0x80 \<Longrightarrow> utf8_encode s = map of_nat s"
  by (induction s) (auto simp: utf8_encode_def utf8_encode_char_def)

section \<open>Strings of the operating system\<close>

text \<open>
  Names of files are bytes. \<open>to_str\<close> is the check of \<open>OsStr::to_str\<close>; \<open>extension\<close> and
  \<open>file_stem\<close> are those of \<open>Path\<close>: a name that starts with its only dot has no extension.
\<close>

definition valid_utf8 :: "u8 list \<Rightarrow> bool" where
  "valid_utf8 bs \<longleftrightarrow> utf8_encode (utf8_lossy bs) = bs"

definition to_str :: "u8 list \<Rightarrow> rstr option" where
  "to_str bs = (if valid_utf8 bs then Some (utf8_lossy bs) else None)"

fun split_last_dot :: "u8 list \<Rightarrow> (u8 list \<times> u8 list) option" where
  "split_last_dot [] = None"
| "split_last_dot (b # bs) =
     (case split_last_dot bs of
        Some (before, after) \<Rightarrow> Some (b # before, after)
      | None \<Rightarrow> if b = 46 then Some ([], bs) else None)"

definition split_extension :: "u8 list \<Rightarrow> u8 list \<times> u8 list option" where
  "split_extension name =
     (case split_last_dot name of
        Some (before, after) \<Rightarrow> if before = [] then (name, None) else (before, Some after)
      | None \<Rightarrow> (name, None))"

definition path_extension :: "u8 list \<Rightarrow> u8 list option" where
  "path_extension name = snd (split_extension name)"

definition path_file_stem :: "u8 list \<Rightarrow> u8 list" where
  "path_file_stem name = fst (split_extension name)"

lemma split_last_dot_join: "split_last_dot name = Some (a, b) \<Longrightarrow> name = a @ 46 # b"
  by (induction name arbitrary: a) (auto split: option.splits if_splits)

lemma split_last_dot_none: "46 \<notin> set b \<Longrightarrow> split_last_dot b = None"
  by (induction b) auto

lemma split_last_dot_append: "46 \<notin> set b \<Longrightarrow> split_last_dot (a @ 46 # b) = Some (a, b)"
  by (induction a) (auto simp: split_last_dot_none)

end
