(* ===== verification/BB_Bpf_Reader.thy ===== *)
theory BB_Bpf_Reader
  imports BB_Utf8
begin

text \<open>
  \<open>BpfReader\<close> of \<open>modules/src/common/traits.rs\<close>: the cursor over a ring-buffer record
  from which every alert is read, \<open>read_u32\<close> and \<open>read_string\<close> with their bounds checks,
  the lossy decoding and the sanitising of control characters. Below them the fixed
  field views they compute, the reader's invariant, and the interface of an alert parser
  (locales \<open>alert_parser\<close> and \<open>alert_layout\<close>) that each module's \<open>try_from_bytes\<close>
  provides and the event pipeline relies on.
\<close>

section \<open>The reader\<close>

record reader =
  data :: "u8 list"
  offset :: nat

definition reader_new :: "u8 list \<Rightarrow> reader" where
  "reader_new d = \<lparr>data = d, offset = 0\<rparr>"

text \<open>
  Offsets are \<open>usize\<close>. A slice has fewer than \<open>2 ^ 63\<close> bytes and every length asked for is a
  literal of at most 4096, so \<open>offset + n\<close> does not wrap and \<open>nat\<close> is exact.
\<close>

definition read_u32 :: "endian \<Rightarrow> reader \<Rightarrow> (u32 \<times> reader) io" where
  "read_u32 en r =
     (if offset r + 4 > length (data r)
      then fail (str ''Buffer underrun: Failed to isolate u32 block.'')
      else bind_io (lift_result (slice_range (offset r) (offset r + 4) (data r))) (\<lambda>bytes.
        if length bytes \<noteq> 4 then fail (str ''Memory layout mismatch for u32'')
        else ret (u32_from_ne_bytes en bytes, r\<lparr>offset := offset r + 4\<rparr>)))"

definition is_ascii_graphic :: "rchar \<Rightarrow> bool" where
  "is_ascii_graphic c \<longleftrightarrow> 33 \<le> c \<and> c \<le> 126"

definition is_replaced :: "rchar \<Rightarrow> bool" where
  "is_replaced c \<longleftrightarrow> \<not> is_ascii_graphic c \<and> c \<noteq> 32"

definition sanitize_char :: "rchar \<Rightarrow> rchar" where
  "sanitize_char c = (if is_replaced c then 63 else c)"

definition sanitize_warning :: "rstr \<Rightarrow> effect list" where
  "sanitize_warning raw_string =
     (let replaced_count = length (filter is_replaced raw_string)
      in if replaced_count > 0
         then [Stderr (str ''Bouclier Bleu [Warning]: Sanitized '' @ show_nat replaced_count
                 @ str '' non-printable chars from kernel string'')]
         else [])"

definition read_string :: "nat \<Rightarrow> reader \<Rightarrow> (rstr \<times> reader) io" where
  "read_string max_len r =
     (if offset r + max_len > length (data r)
      then fail (str ''Buffer underrun: String boundary exceeds payload size.'')
      else bind_io (lift_result (slice_range (offset r) (offset r + max_len) (data r)))
        (\<lambda>path_buffer.
          let null_index = (case position (\<lambda>b. b = 0) path_buffer of
                              Some i \<Rightarrow> i | None \<Rightarrow> max_len)
          in bind_io (lift_result (slice_range 0 null_index path_buffer)) (\<lambda>raw.
               let raw_string = utf8_lossy raw;
                   sanitized = map sanitize_char raw_string
               in bind_io (tell (sanitize_warning raw_string)) (\<lambda>_.
                    ret (sanitized, r\<lparr>offset := offset r + max_len\<rparr>)))))"

section \<open>What a read yields: views of fixed fields\<close>

definition u32_field :: "endian \<Rightarrow> nat \<Rightarrow> u8 list \<Rightarrow> u32" where
  "u32_field en off d = u32_from_ne_bytes en (take 4 (drop off d))"

definition cstr_raw :: "nat \<Rightarrow> nat \<Rightarrow> u8 list \<Rightarrow> rstr" where
  "cstr_raw off n d = utf8_lossy (takeWhile (\<lambda>b. b \<noteq> 0) (take n (drop off d)))"

definition cstr_field :: "nat \<Rightarrow> nat \<Rightarrow> u8 list \<Rightarrow> rstr" where
  "cstr_field off n d = map sanitize_char (cstr_raw off n d)"

definition cstr_warnings :: "nat \<Rightarrow> nat \<Rightarrow> u8 list \<Rightarrow> effect list" where
  "cstr_warnings off n d = sanitize_warning (cstr_raw off n d)"

lemma reader_new_simps [simp]: "data (reader_new d) = d" "offset (reader_new d) = 0"
  by (simp_all add: reader_new_def)

lemma read_u32_ok:
  "offset r + 4 \<le> length (data r) \<Longrightarrow>
   read_u32 en r = ([], Inr (u32_field en (offset r) (data r), r\<lparr>offset := offset r + 4\<rparr>))"
  by (simp add: read_u32_def u32_field_def io_defs)

lemma read_u32_short:
  "length (data r) < offset r + 4 \<Longrightarrow>
   read_u32 en r = fail (str ''Buffer underrun: Failed to isolate u32 block.'')"
  by (simp add: read_u32_def)

lemma read_string_ok:
  assumes "offset r + n \<le> length (data r)"
  shows "read_string n r =
    (cstr_warnings (offset r) n (data r),
     Inr (cstr_field (offset r) n (data r), r\<lparr>offset := offset r + n\<rparr>))"
proof -
  define buf where "buf = take n (drop (offset r) (data r))"
  define k where "k = (case position (\<lambda>b. b = 0) buf of Some i \<Rightarrow> i | None \<Rightarrow> n)"
  have len: "length buf = n" using assms by (simp add: buf_def)
  have k_len: "k = length (takeWhile (\<lambda>b. b \<noteq> 0) buf)"
    using position_takeWhile [where P = "\<lambda>b. b = 0" and xs = buf] by (simp only: k_def len)
  then have k: "take k buf = takeWhile (\<lambda>b. b \<noteq> 0) buf" "k \<le> length buf"
    by (simp_all add: takeWhile_eq_take [symmetric] length_takeWhile_le)
  have "slice_range (offset r) (offset r + n) (data r) = Inr buf"
    using assms by (simp add: buf_def)
  with assms show ?thesis
    using k by (simp add: read_string_def io_defs Let_def cstr_field_def cstr_warnings_def cstr_raw_def
        flip: k_def buf_def)
qed

lemma read_string_short:
  "length (data r) < offset r + n \<Longrightarrow>
   read_string n r = fail (str ''Buffer underrun: String boundary exceeds payload size.'')"
  by (simp add: read_string_def)

lemmas reader_simps = read_u32_ok read_string_ok bind_io_simps ret_def

subsection \<open>The reader's invariant: the cursor stays inside the record\<close>

definition reader_inv :: "reader \<Rightarrow> bool" where
  "reader_inv r \<longleftrightarrow> offset r \<le> length (data r)"

lemma reader_inv_new: "reader_inv (reader_new d)"
  by (simp add: reader_inv_def)

lemma read_u32_cases:
  obtains (short) "read_u32 en r = fail (str ''Buffer underrun: Failed to isolate u32 block.'')"
    | (full) "offset r + 4 \<le> length (data r)"
        "read_u32 en r = ([], Inr (u32_field en (offset r) (data r), r\<lparr>offset := offset r + 4\<rparr>))"
  using read_u32_ok read_u32_short by (cases "offset r + 4 \<le> length (data r)") auto

lemma read_string_cases:
  obtains (short) "read_string n r = fail (str ''Buffer underrun: String boundary exceeds payload size.'')"
    | (full) "offset r + n \<le> length (data r)"
        "read_string n r = (cstr_warnings (offset r) n (data r),
           Inr (cstr_field (offset r) n (data r), r\<lparr>offset := offset r + n\<rparr>))"
  using read_string_ok read_string_short by (cases "offset r + n \<le> length (data r)") auto

lemma read_u32_inv: "snd (read_u32 en r) = Inr (v, r') \<Longrightarrow> reader_inv r' \<and> data r' = data r"
  by (rule read_u32_cases [of en r]) (auto simp: reader_inv_def fail_def)

lemma read_string_inv: "snd (read_string n r) = Inr (s, r') \<Longrightarrow> reader_inv r' \<and> data r' = data r"
  by (rule read_string_cases [of n r]) (auto simp: reader_inv_def fail_def)

subsection \<open>Sanitised strings\<close>

definition printable :: "rchar \<Rightarrow> bool" where
  "printable c \<longleftrightarrow> 32 \<le> c \<and> c \<le> 126"

lemma sanitize_char_printable [simp]: "printable (sanitize_char c)"
  by (auto simp: sanitize_char_def is_replaced_def is_ascii_graphic_def printable_def)

lemma sanitize_char_id: "printable c \<Longrightarrow> sanitize_char c = c"
  by (auto simp: sanitize_char_def is_replaced_def is_ascii_graphic_def printable_def)

lemma not_replaced_iff: "\<not> is_replaced c \<longleftrightarrow> printable c"
  by (auto simp: is_replaced_def is_ascii_graphic_def printable_def)

lemma cstr_field_printable: "c \<in> set (cstr_field off n d) \<Longrightarrow> printable c"
  by (auto simp: cstr_field_def)

lemma cstr_field_length: "length (cstr_field off n d) \<le> n"
proof -
  have "length (cstr_field off n d) \<le> length (takeWhile (\<lambda>b. b \<noteq> 0) (take n (drop off d)))"
    by (simp add: cstr_field_def cstr_raw_def length_utf8_lossy)
  also have "\<dots> \<le> n"
    using length_takeWhile_le [of "\<lambda>b. b \<noteq> 0" "take n (drop off d)"] by simp
  finally show ?thesis .
qed

lemma cstr_field_no_nul: "0 \<notin> set (cstr_field off n d)"
  using cstr_field_printable [of 0 off n d] by (auto simp: printable_def)

lemma cstr_warnings_stderr: "set (cstr_warnings off n d) \<subseteq> range Stderr"
  by (auto simp: cstr_warnings_def sanitize_warning_def Let_def)

text \<open>A field depends on its own bytes only.\<close>

lemma field_append:
  "off + 4 \<le> length d \<Longrightarrow> u32_field en off (d @ x) = u32_field en off d"
  "off + n \<le> length d \<Longrightarrow> cstr_field off n (d @ x) = cstr_field off n d"
  "off + n \<le> length d \<Longrightarrow> cstr_warnings off n (d @ x) = cstr_warnings off n d"
  by (simp_all add: u32_field_def cstr_field_def cstr_warnings_def cstr_raw_def)

text \<open>
  \<open>trim_matches('\0')\<close>, which five parsers apply to a string just read, never finds
  anything to remove.
\<close>

definition trim_nul :: "rstr \<Rightarrow> rstr" where
  "trim_nul s = trim_by (\<lambda>c. c = 0) s"

lemma trim_nul_cstr_field [simp]: "trim_nul (cstr_field off n d) = cstr_field off n d"
  using cstr_field_no_nul [of off n d] by (auto simp: trim_nul_def intro!: trim_by_no_sep intro: gr0I)

section \<open>Strings of the kernel\<close>

text \<open>
  What the daemon makes of the bytes of a string, and the warning it prints with it: the
  lossy decoding with every character that is not printable ASCII replaced.
\<close>

definition shown :: "u8 list \<Rightarrow> rstr" where
  "shown bs = map sanitize_char (utf8_lossy bs)"

definition noise :: "u8 list \<Rightarrow> effect list" where
  "noise bs = sanitize_warning (utf8_lossy bs)"

text \<open>A C \<open>char\<close> array: its string ends at the first zero byte, or at the end of the array.\<close>

definition c_string :: "u8 list \<Rightarrow> u8 list" where
  "c_string arr = takeWhile (\<lambda>b. b \<noteq> 0) arr"

lemma cstr_field_array: "cstr_field off n d = shown (c_string (take n (drop off d)))"
  by (simp add: cstr_field_def cstr_raw_def shown_def c_string_def)

lemma cstr_warnings_array: "cstr_warnings off n d = noise (c_string (take n (drop off d)))"
  by (simp add: cstr_warnings_def cstr_raw_def noise_def c_string_def)

lemma c_string_terminated [simp]: "0 \<notin> set bs \<Longrightarrow> c_string (bs @ 0 # rest) = bs"
  by (induction bs) (auto simp: c_string_def)

lemma c_string_whole [simp]: "0 \<notin> set bs \<Longrightarrow> c_string bs = bs"
  by (induction bs) (auto simp: c_string_def)

lemma c_string_nonzero [simp]: "0 \<notin> set (c_string arr)"
  by (auto simp: c_string_def dest: set_takeWhileD)

lemma length_c_string: "length (c_string arr) \<le> length arr"
  by (simp add: c_string_def length_takeWhile_le)

lemma shown_printable: "c \<in> set (shown bs) \<Longrightarrow> printable c"
  by (auto simp: shown_def)

lemma noise_stderr: "set (noise bs) \<subseteq> range Stderr"
  by (auto simp: noise_def sanitize_warning_def Let_def)

lemma trim_nul_shown [simp]: "trim_nul (shown bs) = shown bs"
proof -
  have "0 \<notin> set (shown bs)" using shown_printable [of 0 bs] by (auto simp: printable_def)
  then show ?thesis by (auto simp: trim_nul_def intro!: trim_by_no_sep intro: gr0I)
qed

text \<open>Printable text as bytes is shown as it is, without a warning.\<close>

definition kernel_string :: "rstr \<Rightarrow> u8 list" where
  "kernel_string s = map of_nat s"

lemma length_kernel_string [simp]: "length (kernel_string s) = length s"
  by (simp add: kernel_string_def)

lemma printable_byte_nonzero: "printable c \<Longrightarrow> (of_nat c :: u8) \<noteq> 0"
proof
  assume "printable c" and "(of_nat c :: u8) = 0"
  then have "unat (of_nat c :: u8) = 0" by simp
  with \<open>printable c\<close> show False by (simp add: unat_of_nat printable_def)
qed

lemma kernel_string_nonzero: "\<forall>c \<in> set s. printable c \<Longrightarrow> 0 \<notin> set (kernel_string s)"
  using printable_byte_nonzero by (fastforce simp: kernel_string_def)

lemma utf8_lossy_printable:
  assumes "\<forall>c \<in> set s. printable c"
  shows "utf8_lossy (kernel_string s) = s"
proof -
  have "unat (of_nat c :: u8) = c" if "printable c" for c
    using that by (simp add: unat_of_nat printable_def)
  then have "map unat (map (of_nat :: nat \<Rightarrow> u8) s) = s" and
    "\<forall>b \<in> set (map (of_nat :: nat \<Rightarrow> u8) s). unat b < 128"
    using assms by (auto simp: map_idI printable_def)
  then show ?thesis using utf8_lossy_ascii unfolding kernel_string_def by metis
qed

lemma shown_kernel_string: "\<forall>c \<in> set s. printable c \<Longrightarrow> shown (kernel_string s) = s"
  by (simp add: shown_def utf8_lossy_printable map_idI sanitize_char_id)

lemma noise_kernel_string: "\<forall>c \<in> set s. printable c \<Longrightarrow> noise (kernel_string s) = []"
  using not_replaced_iff by (simp add: noise_def utf8_lossy_printable sanitize_warning_def filter_empty_conv)

text \<open>A literal of a program in an array of \<open>n\<close> bytes, filled up with zeros.\<close>

definition c_char_array :: "nat \<Rightarrow> rstr \<Rightarrow> u8 list" where
  "c_char_array n s = kernel_string s @ replicate (n - length s) 0"

definition fits_array :: "nat \<Rightarrow> rstr \<Rightarrow> bool" where
  "fits_array n s \<longleftrightarrow> length s < n \<and> (\<forall>c \<in> set s. printable c)"

lemma length_c_char_array [simp]: "fits_array n s \<Longrightarrow> length (c_char_array n s) = n"
  by (simp add: c_char_array_def fits_array_def)

lemma c_string_char_array: "fits_array n s \<Longrightarrow> c_string (c_char_array n s) = kernel_string s"
proof -
  assume fits: "fits_array n s"
  then have "replicate (n - length s) (0 :: u8) = 0 # replicate (n - Suc (length s)) 0"
    by (simp add: fits_array_def Suc_diff_Suc flip: replicate_Suc)
  with fits show ?thesis
    by (simp add: c_char_array_def fits_array_def kernel_string_nonzero)
qed

lemma shown_literal:
  assumes "fits_array n s"
  shows "shown (c_string (c_char_array n s)) = s" and "noise (c_string (c_char_array n s)) = []"
  using assms by (simp_all add: c_string_char_array shown_kernel_string noise_kernel_string fits_array_def)

lemma u32_field_bytes:
  "take 4 (drop off d) = u32_to_ne_bytes en w \<Longrightarrow> u32_field en off d = w"
  by (simp add: u32_field_def)

lemmas layout_simps = u32_field_bytes cstr_field_array cstr_warnings_array

section \<open>The interface of an alert parser\<close>

definition min_size_error :: rstr where
  "min_size_error = str ''Telemetry payload violates minimum size constraints.''"

text \<open>
  What the event pipeline relies on: a payload below the structure's size is refused with
  one fixed error and nothing is read from it; any other payload yields the alert that
  the structure's bytes determine, whatever follows them.
\<close>

locale alert_parser =
  fixes parse :: "u8 list \<Rightarrow> 'a io"
    and min_size :: nat
    and view :: "u8 list \<Rightarrow> 'a"
    and warnings :: "u8 list \<Rightarrow> effect list"
  assumes parse_short: "length d < min_size \<Longrightarrow> parse d = fail min_size_error"
    and parse_full: "min_size \<le> length d \<Longrightarrow> parse d = (warnings d, Inr (view d))"
    and view_prefix: "min_size \<le> length d \<Longrightarrow> view (d @ x) = view d"
    and warnings_prefix: "min_size \<le> length d \<Longrightarrow> warnings (d @ x) = warnings d"
    and warnings_only_stderr: "set (warnings d) \<subseteq> range Stderr"
begin

lemma parse_no_panic: "snd (parse d) \<noteq> Inl Panic"
  by (cases "length d < min_size") (simp_all add: parse_short parse_full fail_def)

lemma parse_accepts_iff: "(\<exists>a. snd (parse d) = Inr a) \<longleftrightarrow> min_size \<le> length d"
  by (cases "length d < min_size") (simp_all add: parse_short parse_full fail_def)

lemma parse_error: "snd (parse d) = Inl e \<longleftrightarrow> length d < min_size \<and> e = Fail min_size_error"
  by (cases "length d < min_size") (auto simp: parse_short parse_full fail_def)

lemma parse_prefix: "min_size \<le> length d \<Longrightarrow> parse (d @ x) = parse d"
  by (simp add: parse_full view_prefix warnings_prefix)

lemma parse_effects: "set (fst (parse d)) \<subseteq> range Stderr"
  using warnings_only_stderr by (cases "length d < min_size") (simp_all add: parse_short parse_full fail_def)

end

text \<open>
  A parser together with the C structure the kernel program submits: \<open>image\<close> is its memory,
  \<open>sized\<close> says that its arrays have their declared sizes, whatever bytes are in them, and
  \<open>meaning\<close> is the alert it stands for, with the warnings \<open>grumbles\<close> about its strings.
\<close>

locale alert_layout = alert_parser +
  fixes image :: "'c \<Rightarrow> u8 list"
    and sized :: "'c \<Rightarrow> bool"
    and meaning :: "'c \<Rightarrow> 'a"
    and grumbles :: "'c \<Rightarrow> effect list"
  assumes length_image: "sized c \<Longrightarrow> length (image c) = min_size"
    and view_image: "sized c \<Longrightarrow> view (image c) = meaning c"
    and warnings_image: "sized c \<Longrightarrow> warnings (image c) = grumbles c"
begin

lemma parse_image: "sized c \<Longrightarrow> parse (image c) = (grumbles c, Inr (meaning c))"
  by (simp add: parse_full length_image view_image warnings_image)

lemma parse_image_append: "sized c \<Longrightarrow> parse (image c @ x) = (grumbles c, Inr (meaning c))"
  by (simp add: parse_prefix parse_image length_image)

end

section \<open>Properties\<close>

text \<open>
  A read of a string of any length, anywhere in any record, either fails because the
  record is too short and nothing else, or yields printable ASCII, at most as long as
  asked for, and leaves the cursor inside the record.
\<close>

theorem read_string_safe:
  "case snd (read_string n r) of
     Inl e \<Rightarrow> e = Fail (str ''Buffer underrun: String boundary exceeds payload size.'') \<and>
              length (data r) < offset r + n
   | Inr (s, r') \<Rightarrow> length s \<le> n \<and> list_all printable s \<and> data r' = data r \<and>
              offset r' = offset r + n \<and> offset r' \<le> length (data r')"
proof (cases "offset r + n \<le> length (data r)")
  case True
  then show ?thesis
    by (auto simp: read_string_ok cstr_field_length list_all_iff dest: cstr_field_printable)
next
  case False
  then show ?thesis by (simp add: read_string_short fail_def)
qed

end
