(* ===== verification/BB_Fs.thy ===== *)
theory BB_Fs
  imports BB_Prelude
begin

text \<open>
  The part of \<open>std::fs\<close> the daemon uses, on an explicit file system: \<open>DirBuilder\<close>
  (recursive, with a mode), \<open>metadata\<close> and \<open>symlink_metadata\<close>, \<open>remove_file\<close>,
  \<open>remove_dir_all\<close>, and the two ways files are opened. Every system call is numbered; the
  state holds what other processes did to the file system just before the \<open>k\<close>-th call
  (\<open>adversary\<close>) and whether that call fails for a reason of its own (\<open>fault\<close>), so the
  time-of-check to time-of-use windows of the callers are part of the model. Paths are
  the absolute paths the sources name; directories above the last component are
  ordinary directories.
\<close>

section \<open>State and system calls\<close>

datatype node_kind = Regular | Directory | Socket | Symlink rstr

record node =
  n_kind :: node_kind
  n_uid :: u32
  n_mode :: u32

type_synonym files = "rstr \<Rightarrow> node option"

datatype io_error = NotFound | OtherError rstr

record os_state =
  os_files :: files
  os_umask :: u32
  os_euid :: u32
  os_clock :: nat
  os_adversary :: "nat \<Rightarrow> files \<Rightarrow> files"
  os_fault :: "nat \<Rightarrow> rstr option"

text \<open>The \<open>Display\<close> text of an error.\<close>

definition show_io_error :: "io_error \<Rightarrow> rstr" where
  "show_io_error e =
     (case e of NotFound \<Rightarrow> str ''No such file or directory (os error 2)'' | OtherError m \<Rightarrow> m)"

text \<open>A call \<open>f\<close> sees the files as other processes left them; a call that fails changes nothing.\<close>

definition syscall ::
    "(os_state \<Rightarrow> io_error + ('a \<times> files)) \<Rightarrow> os_state \<Rightarrow> (io_error + 'a) \<times> os_state" where
  "syscall f s =
     (let k = os_clock s;
          s1 = s\<lparr>os_files := os_adversary s k (os_files s), os_clock := Suc k\<rparr>
      in case os_fault s k of
           Some msg \<Rightarrow> (Inl (OtherError msg), s1)
         | None \<Rightarrow> (case f s1 of
                      Inl e \<Rightarrow> (Inl e, s1)
                    | Inr (a, fs) \<Rightarrow> (Inr a, s1\<lparr>os_files := fs\<rparr>)))"

text \<open>Following symbolic links, at most 40 of them, as the kernel does.\<close>

fun resolve :: "nat \<Rightarrow> files \<Rightarrow> rstr \<Rightarrow> (rstr \<times> node) option" where
  "resolve 0 fs p = None"
| "resolve (Suc n) fs p =
     (case fs p of
        None \<Rightarrow> None
      | Some nd \<Rightarrow> (case n_kind nd of Symlink q \<Rightarrow> resolve n fs q | _ \<Rightarrow> Some (p, nd)))"

definition max_symlinks :: nat where
  "max_symlinks = 41"

definition parent :: "rstr \<Rightarrow> rstr" where
  "parent p = rev (drop 1 (dropWhile (\<lambda>c. c \<noteq> 47) (rev p)))"

definition is_dir_at :: "files \<Rightarrow> rstr \<Rightarrow> bool" where
  "is_dir_at fs p \<longleftrightarrow>
     p = [] \<or> (case resolve max_symlinks fs p of
                 Some (_, nd) \<Rightarrow> n_kind nd = Directory | None \<Rightarrow> False)"

definition sys_mkdir :: "rstr \<Rightarrow> u32 \<Rightarrow> os_state \<Rightarrow> (io_error + unit) \<times> os_state" where
  "sys_mkdir p mode = syscall (\<lambda>s.
     if os_files s p \<noteq> None then Inl (OtherError (str ''File exists (os error 17)''))
     else if \<not> is_dir_at (os_files s) (parent p) then Inl NotFound
     else Inr ((), (os_files s)(p \<mapsto>
            \<lparr>n_kind = Directory, n_uid = os_euid s, n_mode = mode AND NOT (os_umask s)\<rparr>)))"

definition sys_stat :: "rstr \<Rightarrow> os_state \<Rightarrow> (io_error + node) \<times> os_state" where
  "sys_stat p = syscall (\<lambda>s.
     case resolve max_symlinks (os_files s) p of
       None \<Rightarrow> Inl NotFound | Some (_, nd) \<Rightarrow> Inr (nd, os_files s))"

definition sys_lstat :: "rstr \<Rightarrow> os_state \<Rightarrow> (io_error + node) \<times> os_state" where
  "sys_lstat p = syscall (\<lambda>s.
     case os_files s p of None \<Rightarrow> Inl NotFound | Some nd \<Rightarrow> Inr (nd, os_files s))"

definition sys_unlink :: "rstr \<Rightarrow> os_state \<Rightarrow> (io_error + unit) \<times> os_state" where
  "sys_unlink p = syscall (\<lambda>s.
     case os_files s p of
       None \<Rightarrow> Inl NotFound
     | Some nd \<Rightarrow>
         if n_kind nd = Directory then Inl (OtherError (str ''Is a directory (os error 21)''))
         else Inr ((), (os_files s)(p := None)))"

section \<open>The standard library on top of them\<close>

definition is_symlink :: "node \<Rightarrow> bool" where
  "is_symlink nd \<longleftrightarrow> (case n_kind nd of Symlink _ \<Rightarrow> True | _ \<Rightarrow> False)"

text \<open>\<open>Path::is_dir\<close>: \<open>false\<close> when the metadata cannot be read.\<close>

definition path_is_dir :: "rstr \<Rightarrow> os_state \<Rightarrow> bool \<times> os_state" where
  "path_is_dir p s =
     (let (r, s1) = sys_stat p s
      in (case r of Inl _ \<Rightarrow> False | Inr nd \<Rightarrow> n_kind nd = Directory, s1))"

lemma length_parent: "p \<noteq> [] \<Longrightarrow> length (parent p) < length p"
proof -
  assume "p \<noteq> []"
  have "length (dropWhile (\<lambda>c. c \<noteq> 47) (rev p)) \<le> length p"
    using length_dropWhile_le [of "\<lambda>c. c \<noteq> 47" "rev p"] by simp
  moreover have "0 < length p" using \<open>p \<noteq> []\<close> by simp
  ultimately have "length (dropWhile (\<lambda>c. c \<noteq> 47) (rev p)) - 1 < length p" by linarith
  then show ?thesis by (simp add: parent_def)
qed

text \<open>\<open>DirBuilder::recursive(true).mode(m).create(p)\<close>, for an absolute path.\<close>

function create_dir_all :: "u32 \<Rightarrow> rstr \<Rightarrow> os_state \<Rightarrow> (io_error + unit) \<times> os_state" where
  "create_dir_all mode p s =
    (if p = [] then (Inr (), s)
     else case sys_mkdir p mode s of
       (Inr _, s1) \<Rightarrow> (Inr (), s1)
     | (Inl e, s1) \<Rightarrow>
         if e = NotFound then
           (case create_dir_all mode (parent p) s1 of
              (Inl e', s2) \<Rightarrow> (Inl e', s2)
            | (Inr _, s2) \<Rightarrow>
                (case sys_mkdir p mode s2 of
                   (Inr _, s3) \<Rightarrow> (Inr (), s3)
                 | (Inl e', s3) \<Rightarrow>
                     (case path_is_dir p s3 of
                        (b, s4) \<Rightarrow> (if b then Inr () else Inl e', s4))))
         else (case path_is_dir p s1 of (b, s2) \<Rightarrow> (if b then Inr () else Inl e, s2)))"
  by pat_completeness auto
termination
  by (relation "measure (\<lambda>(mode, p, s). length p)") (auto simp: length_parent)

declare create_dir_all.simps [simp del]

text \<open>
  \<open>fs::remove_dir_all\<close>: a symbolic link is removed itself, a directory goes with
  everything below it, anything else is refused.
\<close>

definition below :: "rstr \<Rightarrow> rstr \<Rightarrow> bool" where
  "below p q \<longleftrightarrow> q = p \<or> take (length p + 1) q = p @ [47]"

definition remove_dir_all :: "rstr \<Rightarrow> os_state \<Rightarrow> (io_error + unit) \<times> os_state" where
  "remove_dir_all p = syscall (\<lambda>s.
     case os_files s p of
       None \<Rightarrow> Inl NotFound
     | Some nd \<Rightarrow>
         (case n_kind nd of
            Symlink _ \<Rightarrow> Inr ((), (os_files s)(p := None))
          | Directory \<Rightarrow> Inr ((), (\<lambda>q. if below p q then None else os_files s q))
          | _ \<Rightarrow> Inl (OtherError (str ''Not a directory (os error 20)''))))"

text \<open>
  \<open>OpenOptions\<close> with \<open>create\<close>, \<open>append\<close>, a mode and \<open>O_NOFOLLOW\<close>; and the plain
  \<open>write(true).open(p)\<close>, which follows links and creates nothing. Both yield the path of
  the file that was opened.
\<close>

definition open_append_nofollow :: "u32 \<Rightarrow> rstr \<Rightarrow> os_state \<Rightarrow> (io_error + rstr) \<times> os_state" where
  "open_append_nofollow mode p = syscall (\<lambda>s.
     case os_files s p of
       None \<Rightarrow>
         if is_dir_at (os_files s) (parent p)
         then Inr (p, (os_files s)(p \<mapsto>
                \<lparr>n_kind = Regular, n_uid = os_euid s, n_mode = mode AND NOT (os_umask s)\<rparr>))
         else Inl NotFound
     | Some nd \<Rightarrow>
         (case n_kind nd of
            Symlink _ \<Rightarrow> Inl (OtherError (str ''Too many levels of symbolic links (os error 40)''))
          | Directory \<Rightarrow> Inl (OtherError (str ''Is a directory (os error 21)''))
          | Socket \<Rightarrow> Inl (OtherError (str ''No such device or address (os error 6)''))
          | Regular \<Rightarrow> Inr (p, os_files s)))"

definition open_write :: "rstr \<Rightarrow> os_state \<Rightarrow> (io_error + rstr) \<times> os_state" where
  "open_write p = syscall (\<lambda>s.
     case resolve max_symlinks (os_files s) p of
       None \<Rightarrow> Inl NotFound
     | Some (q, nd) \<Rightarrow>
         if n_kind nd = Directory then Inl (OtherError (str ''Is a directory (os error 21)''))
         else if n_kind nd = Socket then Inl (OtherError (str ''No such device or address (os error 6)''))
         else Inr (q, os_files s))"

text \<open>
  \<open>UnixListener::bind\<close>: a socket node, with the permissions the umask leaves of 0777;
  refused where anything exists. \<open>umask\<close> replaces the mask and yields the old one.
\<close>

definition sys_bind_socket :: "rstr \<Rightarrow> os_state \<Rightarrow> (io_error + unit) \<times> os_state" where
  "sys_bind_socket p = syscall (\<lambda>s.
     if os_files s p \<noteq> None then Inl (OtherError (str ''Address already in use (os error 98)''))
     else if \<not> is_dir_at (os_files s) (parent p) then Inl NotFound
     else Inr ((), (os_files s)(p \<mapsto>
            \<lparr>n_kind = Socket, n_uid = os_euid s, n_mode = 0x1FF AND NOT (os_umask s)\<rparr>)))"

definition sys_umask :: "u32 \<Rightarrow> os_state \<Rightarrow> u32 \<times> os_state" where
  "sys_umask m s = (os_umask s, s\<lparr>os_umask := m AND 0x1FF\<rparr>)"

section \<open>Runs in which nobody else touches the files\<close>

definition undisturbed :: "os_state \<Rightarrow> bool" where
  "undisturbed s \<longleftrightarrow> (\<forall>k fs. os_adversary s k fs = fs)"

text \<open>The parts of the state no call changes.\<close>

definition same_config :: "os_state \<Rightarrow> os_state \<Rightarrow> bool" where
  "same_config s t \<longleftrightarrow> os_umask t = os_umask s \<and> os_euid t = os_euid s \<and>
     os_adversary t = os_adversary s \<and> os_fault t = os_fault s"

lemma same_config_refl [simp]: "same_config s s"
  by (simp add: same_config_def)

lemma same_config_trans: "same_config s t \<Longrightarrow> same_config t u \<Longrightarrow> same_config s u"
  by (simp add: same_config_def)

lemma syscall_config: "syscall f s = (r, t) \<Longrightarrow> same_config s t"
  by (auto simp: syscall_def same_config_def Let_def split: option.splits sum.splits prod.splits)

lemmas syscall_defs = sys_mkdir_def sys_stat_def sys_lstat_def sys_unlink_def remove_dir_all_def
  open_append_nofollow_def open_write_def sys_bind_socket_def

lemma path_is_dir_config: "path_is_dir p s = (b, t) \<Longrightarrow> same_config s t"
  by (auto simp: path_is_dir_def syscall_defs split: prod.splits dest: syscall_config)

lemma create_dir_all_config: "create_dir_all mode p s = (r, t) \<Longrightarrow> same_config s t"
proof (induction mode p s arbitrary: r t rule: create_dir_all.induct)
  case (1 mode p s)
  have mkdir: "sys_mkdir p mode u = (x, v) \<Longrightarrow> same_config u v" for u x v
    by (simp add: sys_mkdir_def syscall_config)
  from 1 show ?case
    by (subst (asm) (2) create_dir_all.simps)
      (auto split: if_splits prod.splits sum.splits
        dest!: mkdir path_is_dir_config simp: same_config_def)
qed

lemma undisturbed_config: "same_config s t \<Longrightarrow> undisturbed t \<longleftrightarrow> undisturbed s"
  by (simp add: same_config_def undisturbed_def)

text \<open>A created directory is the daemon's own, with the mode asked for.\<close>

lemma sys_mkdir_frame:
  "undisturbed s \<Longrightarrow> sys_mkdir p m s = (r, t) \<Longrightarrow> q \<noteq> p \<Longrightarrow> os_files t q = os_files s q"
  by (auto simp: sys_mkdir_def syscall_def undisturbed_def Let_def split: option.splits if_splits)

lemma sys_stat_frame: "undisturbed s \<Longrightarrow> sys_stat p s = (r, t) \<Longrightarrow> os_files t = os_files s"
  by (auto simp: sys_stat_def syscall_def undisturbed_def Let_def split: option.splits)

lemma path_is_dir_frame:
  "undisturbed s \<Longrightarrow> path_is_dir p s = (b, t) \<Longrightarrow> os_files t = os_files s"
  by (auto simp: path_is_dir_def split: prod.splits dest: sys_stat_frame)

lemma sys_mkdir_created:
  "undisturbed s \<Longrightarrow> sys_mkdir p m s = (Inr u, t) \<Longrightarrow>
   os_files t p = Some \<lparr>n_kind = Directory, n_uid = os_euid s, n_mode = m AND NOT (os_umask s)\<rparr>"
  by (auto simp: sys_mkdir_def syscall_def undisturbed_def Let_def split: option.splits if_splits)

lemma sys_mkdir_fail_frame:
  "undisturbed s \<Longrightarrow> sys_mkdir p m s = (Inl e, t) \<Longrightarrow> os_files t = os_files s"
  by (auto simp: sys_mkdir_def syscall_def undisturbed_def Let_def split: option.splits if_splits)

lemma path_is_dir_missing:
  "undisturbed s \<Longrightarrow> os_files s p = None \<Longrightarrow> path_is_dir p s = (b, t) \<Longrightarrow> \<not> b"
  by (auto simp: path_is_dir_def sys_stat_def syscall_def undisturbed_def max_symlinks_def
      numeral_eq_Suc Let_def split: prod.splits option.splits sum.splits)

lemma sys_stat_result:
  "undisturbed s \<Longrightarrow> sys_stat p s = (Inr nd, t) \<Longrightarrow>
   \<exists>q. resolve max_symlinks (os_files s) p = Some (q, nd)"
  by (auto simp: sys_stat_def syscall_def undisturbed_def Let_def split: option.splits)

lemma sys_unlink_removes:
  "undisturbed s \<Longrightarrow> sys_unlink p s = (Inr u, t) \<Longrightarrow> os_files t p = None \<and> same_config s t"
  by (auto simp: sys_unlink_def syscall_def undisturbed_def same_config_def Let_def
      split: option.splits if_splits)

lemma remove_dir_all_removes:
  "undisturbed s \<Longrightarrow> remove_dir_all p s = (Inr u, t) \<Longrightarrow> os_files t p = None \<and> same_config s t"
  by (auto simp: remove_dir_all_def syscall_def undisturbed_def same_config_def below_def Let_def
      split: option.splits if_splits node_kind.splits)

lemma resolve_plain:
  "fs p = Some nd \<Longrightarrow> n_kind nd = Directory \<Longrightarrow> resolve max_symlinks fs p = Some (p, nd)"
  by (simp add: max_symlinks_def numeral_eq_Suc)

lemma mode_0700_masked:
  assumes "umask AND 0x1C0 = (0::u32)"
  shows "0x1C0 AND NOT umask = 0x1C0"
proof -
  have "0x1C0 = (0x1C0 AND umask) OR (0x1C0 AND NOT umask)"
    by (simp flip: bit.conj_disj_distrib)
  with assms show ?thesis by (simp add: and.commute)
qed

subsection \<open>Recursive directory creation\<close>

lemma create_dir_all_cases:
  assumes "create_dir_all m p s = (r, t)"
  obtains (root) "p = []" "r = Inr ()" "t = s"
    | (made) "p \<noteq> []" "sys_mkdir p m s = (Inr (), t)" "r = Inr ()"
    | (no_parent) s1 e where "p \<noteq> []" "sys_mkdir p m s = (Inl NotFound, s1)"
        "create_dir_all m (parent p) s1 = (Inl e, t)" "r = Inl e"
    | (made_after) s1 s2 where "p \<noteq> []" "sys_mkdir p m s = (Inl NotFound, s1)"
        "create_dir_all m (parent p) s1 = (Inr (), s2)" "sys_mkdir p m s2 = (Inr (), t)" "r = Inr ()"
    | (raced) s1 s2 s3 e b where "p \<noteq> []" "sys_mkdir p m s = (Inl NotFound, s1)"
        "create_dir_all m (parent p) s1 = (Inr (), s2)" "sys_mkdir p m s2 = (Inl e, s3)"
        "path_is_dir p s3 = (b, t)" "r = (if b then Inr () else Inl e)"
    | (exists) s1 e b where "p \<noteq> []" "sys_mkdir p m s = (Inl e, s1)" "e \<noteq> NotFound"
        "path_is_dir p s1 = (b, t)" "r = (if b then Inr () else Inl e)"
  using assms
  by (subst (asm) create_dir_all.simps)
    (auto split: if_splits prod.splits sum.splits)

lemma sys_mkdir_config: "sys_mkdir p m s = (r, t) \<Longrightarrow> same_config s t"
  by (simp add: sys_mkdir_def syscall_config)

lemma sys_mkdir_calm: "undisturbed s \<Longrightarrow> sys_mkdir p m s = (r, t) \<Longrightarrow> undisturbed t"
  using sys_mkdir_config undisturbed_config by blast

lemma create_dir_all_calm: "undisturbed s \<Longrightarrow> create_dir_all m p s = (r, t) \<Longrightarrow> undisturbed t"
  using create_dir_all_config undisturbed_config by blast

text \<open>Only the path and shorter ones (its parents) are ever written.\<close>

lemma create_dir_all_frame:
  "undisturbed s \<Longrightarrow> create_dir_all m p s = (r, t) \<Longrightarrow> length p < length q \<Longrightarrow>
   os_files t q = os_files s q"
proof (induction "length p" arbitrary: p s r t rule: less_induct)
  case less
  have mk: "os_files t' q = os_files s' q"
    if "undisturbed s'" "sys_mkdir p m s' = (r', t')" for s' r' t'
    using sys_mkdir_frame [OF that, of q] less.prems(3) by blast
  have up: "os_files t' q = os_files s' q"
    if "p \<noteq> []" "undisturbed s'" "create_dir_all m (parent p) s' = (r', t')" for s' r' t'
    using less.hyps [OF length_parent [OF that(1)] that(2,3)] length_parent [OF that(1)]
      less.prems(3) by simp
  from less.prems(2) show ?case
  proof (cases rule: create_dir_all_cases)
    case made
    show ?thesis by (rule mk [OF less.prems(1) made(2)])
  next
    case (no_parent s1 e)
    note c1 = sys_mkdir_calm [OF less.prems(1) no_parent(2)]
    show ?thesis
      using mk [OF less.prems(1) no_parent(2)] up [OF no_parent(1) c1 no_parent(3)] by simp
  next
    case (made_after s1 s2)
    note c1 = sys_mkdir_calm [OF less.prems(1) made_after(2)]
    note c2 = create_dir_all_calm [OF c1 made_after(3)]
    show ?thesis
      using mk [OF less.prems(1) made_after(2)] up [OF made_after(1) c1 made_after(3)]
        mk [OF c2 made_after(4)] by simp
  next
    case (raced s1 s2 s3 e b)
    note c1 = sys_mkdir_calm [OF less.prems(1) raced(2)]
    note c2 = create_dir_all_calm [OF c1 raced(3)]
    note c3 = sys_mkdir_calm [OF c2 raced(4)]
    show ?thesis
      using mk [OF less.prems(1) raced(2)] up [OF raced(1) c1 raced(3)] mk [OF c2 raced(4)]
        path_is_dir_frame [OF c3 raced(5)] by simp
  next
    case (exists s1 e b)
    note c1 = sys_mkdir_calm [OF less.prems(1) exists(2)]
    show ?thesis
      using mk [OF less.prems(1) exists(2)] path_is_dir_frame [OF c1 exists(4)] by simp
  qed simp
qed

text \<open>Success at a path where nothing was: the directory is the daemon's, with the mode asked for.\<close>

lemma create_dir_all_fresh:
  assumes "undisturbed s" "p \<noteq> []" "os_files s p = None" "create_dir_all m p s = (Inr u, t)"
  shows "os_files t p = Some \<lparr>n_kind = Directory, n_uid = os_euid s, n_mode = m AND NOT (os_umask s)\<rparr>"
  using assms(4)
proof (cases rule: create_dir_all_cases)
  case made
  then show ?thesis using sys_mkdir_created assms(1) by blast
next
  case (made_after s1 s2)
  have conf: "same_config s s2"
    by (rule same_config_trans [OF sys_mkdir_config [OF made_after(2)]
          create_dir_all_config [OF made_after(3)]])
  then have "undisturbed s2" using assms(1) undisturbed_config by blast
  from sys_mkdir_created [OF this made_after(4)] conf show ?thesis
    by (simp add: same_config_def)
next
  case (raced s1 s2 s3 e b)
  note c1 = sys_mkdir_calm [OF assms(1) raced(2)]
  note c2 = create_dir_all_calm [OF c1 raced(3)]
  note c3 = sys_mkdir_calm [OF c2 raced(4)]
  have "os_files s1 p = None"
    using sys_mkdir_fail_frame [OF assms(1) raced(2)] assms(3) by simp
  then have "os_files s2 p = None"
    using create_dir_all_frame [OF c1 raced(3) length_parent [OF raced(1)]] by simp
  then have "os_files s3 p = None"
    using sys_mkdir_fail_frame [OF c2 raced(4)] by simp
  then have "\<not> b" using path_is_dir_missing [OF c3 _ raced(5)] by blast
  with raced(6) show ?thesis by simp
next
  case (exists s1 e b)
  have "os_files s1 p = None"
    using sys_mkdir_fail_frame [OF assms(1) exists(2)] assms(3) by simp
  then have "\<not> b"
    using path_is_dir_missing [OF sys_mkdir_calm [OF assms(1) exists(2)] _ exists(4)] by blast
  with exists(5) show ?thesis by simp
qed (use assms(2) in auto)

subsection \<open>What exists after a successful call\<close>

lemma path_is_dir_True:
  "undisturbed s \<Longrightarrow> path_is_dir p s = (True, t) \<Longrightarrow>
   \<exists>q nd. resolve max_symlinks (os_files t) p = Some (q, nd) \<and> n_kind nd = Directory"
  by (auto simp: path_is_dir_def sys_stat_def syscall_def undisturbed_def Let_def
      split: prod.splits option.splits sum.splits)

text \<open>A successful recursive creation leaves a directory behind the path.\<close>

lemma create_dir_all_is_dir:
  assumes "undisturbed s" "p \<noteq> []" "create_dir_all m p s = (Inr u, t)"
  shows "\<exists>q nd. resolve max_symlinks (os_files t) p = Some (q, nd) \<and> n_kind nd = Directory"
  using assms(3)
proof (cases rule: create_dir_all_cases)
  case made
  show ?thesis using sys_mkdir_created [OF assms(1) made(2)] by (simp add: resolve_plain)
next
  case (made_after s1 s2)
  have c2: "undisturbed s2"
    by (rule create_dir_all_calm [OF sys_mkdir_calm [OF assms(1) made_after(2)] made_after(3)])
  show ?thesis using sys_mkdir_created [OF c2 made_after(4)] by (simp add: resolve_plain)
next
  case (raced s1 s2 s3 e b)
  have c3: "undisturbed s3"
    by (rule sys_mkdir_calm [OF create_dir_all_calm [OF sys_mkdir_calm [OF assms(1) raced(2)] raced(3)] raced(4)])
  from raced(5,6) have "path_is_dir p s3 = (True, t)" by (cases b) simp_all
  then show ?thesis by (rule path_is_dir_True [OF c3])
next
  case (exists s1 e b)
  from exists(4,5) have "path_is_dir p s1 = (True, t)" by (cases b) simp_all
  then show ?thesis by (rule path_is_dir_True [OF sys_mkdir_calm [OF assms(1) exists(2)]])
qed (use assms(2) in auto)

lemma sys_lstat_result:
  "undisturbed s \<Longrightarrow> sys_lstat p s = (Inr nd, t) \<Longrightarrow> os_files t = os_files s \<and> os_files s p = Some nd"
  by (auto simp: sys_lstat_def syscall_def undisturbed_def Let_def split: option.splits)

lemma resolve_not_link:
  "resolve n fs p = Some (q, nd) \<Longrightarrow> fs p = Some nd' \<Longrightarrow> \<not> is_symlink nd' \<Longrightarrow> nd = nd'"
  by (cases n) (auto simp: is_symlink_def split: node_kind.splits)

section \<open>A quiet host\<close>

text \<open>
  A file system with the directories the daemon expects, seen by root, on which nobody
  else is active: the state the examples start from.
\<close>

definition root_dir :: node where
  "root_dir = \<lparr>n_kind = Directory, n_uid = 0, n_mode = 0x1ED\<rparr>"

definition quiet_os :: os_state where
  "quiet_os =
     \<lparr>os_files = (\<lambda>p. if p \<in> {str ''/var'', str ''/var/run'', str ''/var/log'', str ''/tmp''} then Some root_dir else None),
      os_umask = 0x12, os_euid = 0, os_clock = 0, os_adversary = (\<lambda>_ fs. fs), os_fault = (\<lambda>_. None)\<rparr>"

lemma quiet_os_simps [simp]:
  "undisturbed quiet_os" "os_euid quiet_os = 0" "os_umask quiet_os = 0x12" "os_fault quiet_os k = None"
  "os_adversary quiet_os k fs = fs"
  by (simp_all add: quiet_os_def undisturbed_def)

end
