(* ===== verification/BB_Siem.thy ===== *)
theory BB_Siem
  imports BB_Fs
begin

text \<open>
  \<open>modules/src/common/telemetry.rs\<close>: the NDJSON sink. \<open>ensure_secure_directory\<close> with its
  auto-remediation, \<open>open_strict_file\<close>, the fallback sink, the once-only initialisation
  (\<open>OnceLock\<close>) and \<open>emit_siem_event\<close>, which wraps an alert in the flattened envelope and
  appends one line. \<open>serde_json::to_string\<close> is a parameter (\<open>to_json\<close> of the environment).
\<close>

section \<open>The envelope\<close>

text \<open>The serialised data model: what \<open>#[derive(Serialize)]\<close> hands to the serialiser.\<close>

datatype json = JNum nat | JStr rstr | JList "rstr list"

type_synonym json_fields = "(rstr \<times> json) list"

record enveloped_alert =
  timestamp_ms :: nat
  event_source :: rstr
  mitre_techniques :: "rstr list"
  payload :: json_fields

text \<open>\<open>serde(rename)\<close> and \<open>serde(flatten)\<close>: the payload's fields follow the envelope's own.\<close>

definition enveloped_fields :: "enveloped_alert \<Rightarrow> json_fields" where
  "enveloped_fields a =
     [(str ''@timestamp'', JNum (timestamp_ms a)),
      (str ''event_source'', JStr (event_source a)),
      (str ''mitre_techniques'', JList (mitre_techniques a))] @ payload a"

section \<open>State and environment of one event\<close>

text \<open>
  \<open>g_sink\<close> is \<open>SIEM_LOG_SINK\<close>: \<open>None\<close> before the first event, then the path of the open
  file, if any could be opened. The record is extended by the modules that keep more.
\<close>

record globals =
  g_os :: os_state
  g_sink :: "rstr option option"
  g_sink_poisoned :: bool

text \<open>
  Readings taken while one event is handled. \<open>sys_now_ns\<close> is the system clock relative to
  the epoch, \<open>instant_now\<close> the monotonic clock (nanoseconds), \<open>prune_now\<close> the monotonic
  clock when the strike entry of a process is visited, \<open>kill_now_ns\<close> the system clock read
  before the orchestrator is killed, \<open>processes\<close> the snapshot \<open>sysinfo\<close> took.
\<close>

record process =
  p_pid :: u32
  p_parent :: "u32 option"
  p_start_time :: nat

record event_env =
  sys_now_ns :: int
  to_json :: "json_fields \<Rightarrow> rstr option"
  write_fault :: "rstr option"
  instant_now :: nat
  prune_now :: "u32 \<Rightarrow> nat"
  kill_now_ns :: int
  processes :: "process list"

section \<open>The sink's directory and file\<close>

definition log_dir_path :: rstr where
  "log_dir_path = str ''/var/log/bouclier-bleu''"

definition fallback_paths :: "rstr list" where
  "fallback_paths = [str ''/tmp/bouclier_fallback.log'']"

fun find_open :: "rstr list \<Rightarrow> os_state \<Rightarrow> rstr option \<times> os_state" where
  "find_open [] s = (None, s)"
| "find_open (p # ps) s =
     (case open_write p s of
        (Inr f, s1) \<Rightarrow> (Some f, s1)
      | (Inl _, s1) \<Rightarrow> find_open ps s1)"

definition get_fallback_sink :: "os_state \<Rightarrow> effect list \<times> rstr option \<times> os_state" where
  "get_fallback_sink s =
     (case find_open fallback_paths s of
        (None, s1) \<Rightarrow>
          ([Stderr (str ''Bouclier Bleu [FATAL]: No writable device available. Telemetry dropped.'')],
           None, s1)
      | (Some f, s1) \<Rightarrow> ([], Some f, s1))"

definition insecure_log_dir :: "node \<Rightarrow> bool" where
  "insecure_log_dir nd \<longleftrightarrow>
     n_kind nd \<noteq> Directory \<or> n_uid nd \<noteq> 0 \<or> n_mode nd AND 0x1FF \<noteq> 0x1C0"

definition ensure_secure_directory ::
    "rstr \<Rightarrow> os_state \<Rightarrow> effect list \<times> (unit + unit) \<times> os_state" where
  "ensure_secure_directory log_dir s =
    (case create_dir_all 0x1C0 log_dir s of (created, s1) \<Rightarrow>
     let w = (case created of
                Inl e \<Rightarrow> [Stderr (str ''Bouclier Bleu [Warning]: Failed to securely create log directory: ''
                           @ show_io_error e)]
              | Inr _ \<Rightarrow> [])
     in case sys_stat log_dir s1 of
          (Inl _, s2) \<Rightarrow>
            (w @ [Stderr (str ''Bouclier Bleu [CRITICAL]: Failed to verify log directory metadata. Sinking telemetry to fallback.'')],
             Inl (), s2)
        | (Inr meta, s2) \<Rightarrow>
            if insecure_log_dir meta then
              (let w1 = w @ [Stderr (str ''Bouclier Bleu [WARNING]: Log directory '' @ log_dir
                     @ str '' has insecure permissions (Potential Pre-Staging Attack). Auto-remediating...'')]
               in case (if n_kind meta \<noteq> Directory then sys_unlink log_dir s2
                        else remove_dir_all log_dir s2) of
                    (Inl e, s3) \<Rightarrow>
                      (w1 @ [Stderr (str ''Bouclier Bleu [CRITICAL]: Failed to wipe compromised log directory: ''
                         @ show_io_error e @ str ''. Sinking telemetry to fallback.'')], Inl (), s3)
                  | (Inr _, s3) \<Rightarrow>
                      (case create_dir_all 0x1C0 log_dir s3 of
                         (Inl e, s4) \<Rightarrow>
                           (w1 @ [Stderr (str ''Bouclier Bleu [CRITICAL]: Failed to recreate secure log directory: ''
                              @ show_io_error e @ str ''. Sinking telemetry to fallback.'')], Inl (), s4)
                       | (Inr _, s4) \<Rightarrow>
                           (w1 @ [Stderr (str ''Bouclier Bleu [INFO]: Log directory securely rebuilt.'')],
                            Inr (), s4)))
            else (w, Inr (), s2))"

definition open_strict_file :: "rstr \<Rightarrow> os_state \<Rightarrow> effect list \<times> rstr option \<times> os_state" where
  "open_strict_file log_dir s =
     (case open_append_nofollow 0x180 (log_dir @ str ''/alerts.json'') s of
        (Inr f, s1) \<Rightarrow> ([], Some f, s1)
      | (Inl e, s1) \<Rightarrow>
          ([Stderr (str ''Bouclier Bleu [CRITICAL]: Failed to open SIEM sink: '' @ show_io_error e
              @ str ''. Using /dev/null fallback.'')], None, s1))"

section \<open>Emitting an event\<close>

text \<open>The initialiser passed to \<open>SIEM_LOG_SINK.get_or_init\<close>, and the call itself.\<close>

definition init_sink :: "os_state \<Rightarrow> effect list \<times> rstr option \<times> os_state" where
  "init_sink s =
     (case ensure_secure_directory log_dir_path s of
        (e1, Inl _, s1) \<Rightarrow>
          (case get_fallback_sink s1 of (e2, k, s2) \<Rightarrow> (e1 @ e2, k, s2))
      | (e1, Inr _, s1) \<Rightarrow>
          (case open_strict_file log_dir_path s1 of
             (e2, Some f, s2) \<Rightarrow> (e1 @ e2, Some f, s2)
           | (e2, None, s2) \<Rightarrow>
               (case get_fallback_sink s2 of (e3, k, s3) \<Rightarrow> (e1 @ e2 @ e3, k, s3))))"

definition get_sink :: "'g globals_scheme \<Rightarrow> effect list \<times> rstr option \<times> 'g globals_scheme" where
  "get_sink g =
     (case g_sink g of
        Some k \<Rightarrow> ([], k, g)
      | None \<Rightarrow> (case init_sink (g_os g) of
                   (e, k, s) \<Rightarrow> (e, k, g\<lparr>g_os := s, g_sink := Some k\<rparr>)))"

text \<open>\<open>duration_since(UNIX_EPOCH).unwrap_or_default()\<close> in milliseconds and in seconds.\<close>

definition epoch_millis :: "int \<Rightarrow> nat" where
  "epoch_millis now_ns = (if now_ns < 0 then 0 else nat now_ns div 1000000)"

definition epoch_secs :: "int \<Rightarrow> nat" where
  "epoch_secs now_ns = (if now_ns < 0 then 0 else nat now_ns div 1000000000)"

definition emit_siem_event ::
    "event_env \<Rightarrow> rstr \<Rightarrow> rstr list \<Rightarrow> json_fields \<Rightarrow> 'g globals_scheme \<Rightarrow>
     effect list \<times> 'g globals_scheme" where
  "emit_siem_event env module_slug mitre alert g =
     (case get_sink g of (e, file, g1) \<Rightarrow>
        let envelope = \<lparr>timestamp_ms = epoch_millis (sys_now_ns env), event_source = module_slug,
                        mitre_techniques = mitre, payload = alert\<rparr>
        in case to_json env (enveloped_fields envelope) of
             None \<Rightarrow> (e, g1)
           | Some json_string \<Rightarrow>
               if g_sink_poisoned g1 then (e, g1)
               else (case file of
                       None \<Rightarrow> (e, g1)
                     | Some f \<Rightarrow>
                         (case write_fault env of
                            None \<Rightarrow> (e @ [FileLine f json_string], g1)
                          | Some err \<Rightarrow>
                              (e @ [Stderr (str ''Bouclier Bleu [ERROR]: Failed to write SIEM event: '' @ err)],
                               g1))))"

section \<open>Properties of the sink\<close>

lemma find_open_config: "find_open ps s = (r, t) \<Longrightarrow> same_config s t"
proof (induction ps arbitrary: s)
  case Nil
  then show ?case by simp
next
  case (Cons p ps)
  then show ?case
    by (auto simp: open_write_def split: prod.splits sum.splits
        dest: syscall_config intro: same_config_trans)
qed

text \<open>The sink is initialised once: later events neither touch the file system nor change it.\<close>

lemma get_sink_once:
  "get_sink g = (e, k, g1) \<Longrightarrow> g_sink g1 = Some k \<and> get_sink g1 = ([], k, g1)"
  by (auto simp: get_sink_def split: option.splits prod.splits)

lemma emit_sink_initialised:
  "emit_siem_event env slug ms al g = (e, g1) \<Longrightarrow>
   \<exists>k. g_sink g1 = Some k \<and> snd (snd (get_sink g)) = g1"
  using get_sink_once [of g]
  by (auto simp: emit_siem_event_def Let_def split: prod.splits option.splits if_splits)

text \<open>
  Remediation: whatever was staged at the path, when \<open>ensure_secure_directory\<close> reports
  success the path leads to a directory of root with mode 0700.
\<close>

lemma insecure_fresh:
  "umask AND 0x1C0 = (0::u32) \<Longrightarrow>
   \<not> insecure_log_dir \<lparr>n_kind = Directory, n_uid = 0, n_mode = 0x1C0 AND NOT umask\<rparr>"
  by (simp add: insecure_log_dir_def mode_0700_masked)

lemma ensure_secure_directory_ok:
  assumes calm: "undisturbed s" and root: "os_euid s = 0" and um: "os_umask s AND 0x1C0 = 0"
    and path: "d \<noteq> []" and run: "ensure_secure_directory d s = (e, Inr u, t)"
  shows "\<exists>q nd. resolve max_symlinks (os_files t) d = Some (q, nd) \<and> \<not> insecure_log_dir nd"
proof -
  obtain c s1 where c: "create_dir_all 0x1C0 d s = (c, s1)" by fastforce
  note conf1 = create_dir_all_config [OF c]
  then have calm1: "undisturbed s1" using calm undisturbed_config by blast
  obtain r s2 where st: "sys_stat d s1 = (r, s2)" by fastforce
  have conf2: "same_config s1 s2" using st by (simp add: sys_stat_def syscall_config)
  have calm2: "undisturbed s2" using calm1 conf2 undisturbed_config by blast
  from run c st obtain nd where r: "r = Inr nd"
    by (auto simp: ensure_secure_directory_def Let_def split: sum.splits)
  show ?thesis
  proof (cases "insecure_log_dir nd")
    case False
    then have "s2 = t" using run c st r by (simp add: ensure_secure_directory_def Let_def)
    moreover obtain q where "resolve max_symlinks (os_files s1) d = Some (q, nd)"
      using sys_stat_result [OF calm1 st [unfolded r]] by auto
    ultimately show ?thesis using False sys_stat_frame [OF calm1 st] by auto
  next
    case True
    define wipe where "wipe = (if n_kind nd \<noteq> Directory then sys_unlink d s2 else remove_dir_all d s2)"
    obtain x s3 where w: "wipe = (x, s3)" by fastforce
    from True run c st r w obtain v where x: "x = Inr v"
      and mk: "\<exists>u'. create_dir_all 0x1C0 d s3 = (Inr u', t)"
      by (auto simp: ensure_secure_directory_def Let_def simp flip: wipe_def split: sum.splits prod.splits)
    have gone: "os_files s3 d = None" and conf3: "same_config s2 s3"
      using w x sys_unlink_removes [OF calm2] remove_dir_all_removes [OF calm2]
      by (auto simp: wipe_def split: if_splits)
    have calm3: "undisturbed s3" using calm2 conf3 undisturbed_config by blast
    from mk have "os_files t d = Some \<lparr>n_kind = Directory, n_uid = os_euid s3, n_mode = 0x1C0 AND NOT (os_umask s3)\<rparr>"
      using create_dir_all_fresh [OF calm3 path gone] by blast
    moreover have "os_euid s3 = 0" "os_umask s3 AND 0x1C0 = 0"
      using conf1 conf2 conf3 root um by (simp_all add: same_config_def)
    ultimately show ?thesis
      using insecure_fresh by (auto simp: resolve_plain)
  qed
qed

section \<open>Properties\<close>

text \<open>
  C33: whatever was staged at the path of the log directory (a link, a file, a directory of
  another owner or with other permissions), when the check reports success the path leads
  to a directory of root with mode 0700, provided nobody interferes meanwhile.
\<close>

theorem log_directory_secured:
  assumes "undisturbed s" and "os_euid s = 0" and "os_umask s AND 0x1C0 = 0"
    and "ensure_secure_directory log_dir_path s = (e, Inr u, t)"
  shows "\<exists>q nd. resolve max_symlinks (os_files t) log_dir_path = Some (q, nd) \<and>
    n_kind nd = Directory \<and> n_uid nd = 0 \<and> n_mode nd AND 0x1FF = 0x1C0"
proof -
  have "log_dir_path \<noteq> []" by (simp add: log_dir_path_def)
  from ensure_secure_directory_ok [OF assms(1-3) this assms(4)] show ?thesis
    by (auto simp: insecure_log_dir_def)
qed

definition staged_link_os :: os_state where
  "staged_link_os = quiet_os\<lparr>os_files := (os_files quiet_os)(log_dir_path \<mapsto>
     \<lparr>n_kind = Symlink (str ''/tmp''), n_uid = 1000, n_mode = 0x1FF\<rparr>)\<rparr>"

theorem log_directory_secured_witness:
  "\<exists>e t q nd. ensure_secure_directory log_dir_path staged_link_os = (e, Inr (), t) \<and>
    resolve max_symlinks (os_files t) log_dir_path = Some (q, nd) \<and>
    n_kind nd = Directory \<and> n_uid nd = 0 \<and> n_mode nd AND 0x1FF = 0x1C0"
proof -
  have "fst (snd (ensure_secure_directory log_dir_path staged_link_os)) = Inr ()"
    by code_simp
  then obtain e t where run: "ensure_secure_directory log_dir_path staged_link_os = (e, Inr (), t)"
    by (metis prod.collapse)
  have "undisturbed staged_link_os" "os_euid staged_link_os = 0" "os_umask staged_link_os AND 0x1C0 = 0"
    by (simp_all add: staged_link_os_def undisturbed_def)
  from log_directory_secured [OF this run] run show ?thesis by blast
qed

text \<open>
  With the sink open an event appends exactly one line to it and changes no state; and
  the first event of a process leaves the sink decided for all later ones.
\<close>

theorem emit_one_line:
  "(case emit_siem_event env slug mitre alert g of
      (e, g1) \<Rightarrow> g_sink g1 \<noteq> None \<and> get_sink g1 = ([], the (g_sink g1), g1)) \<and>
   (case (g_sink g, g_sink_poisoned g, write_fault env,
          to_json env (enveloped_fields \<lparr>timestamp_ms = epoch_millis (sys_now_ns env),
             event_source = slug, mitre_techniques = mitre, payload = alert\<rparr>)) of
      (Some (Some f), False, None, Some line) \<Rightarrow>
         emit_siem_event env slug mitre alert g = ([FileLine f line], g)
    | _ \<Rightarrow> True)"
proof -
  obtain e g1 where emit: "emit_siem_event env slug mitre alert g = (e, g1)" by fastforce
  obtain k where "g_sink g1 = Some k" using emit_sink_initialised [OF emit] by blast
  then have "g_sink g1 \<noteq> None \<and> get_sink g1 = ([], the (g_sink g1), g1)" by (simp add: get_sink_def)
  with emit show ?thesis
    by (auto simp: emit_siem_event_def get_sink_def Let_def split: option.split bool.split)
qed

end
