(* ===== verification/BB_Toml.thy ===== *)
theory BB_Toml
  imports BB_Prelude
begin

text \<open>
  The value model of the \<open>toml\<close> crate that two readers of the configuration file share:
  the daemon's own loader (\<open>core/src/config.rs\<close>) and the sizing closure of
  \<open>modules/src/io_restrict.rs\<close>. The text parser itself is a parameter of both.
\<close>

datatype toml =
    TString rstr
  | TInteger "64 word"
  | TFloat
  | TBoolean bool
  | TDatetime
  | TArray "toml list"
  | TTable "(rstr \<times> toml) list"

text \<open>\<open>Value::get\<close> with a string and \<open>Value::as_integer\<close>.\<close>

definition toml_get :: "rstr \<Rightarrow> toml \<Rightarrow> toml option" where
  "toml_get k v = (case v of TTable kvs \<Rightarrow> map_of kvs k | _ \<Rightarrow> None)"

definition as_integer :: "toml \<Rightarrow> (64 word) option" where
  "as_integer v = (case v of TInteger i \<Rightarrow> Some i | _ \<Rightarrow> None)"

lemma toml_get_Some: "toml_get k v = Some x \<longleftrightarrow> (\<exists>kvs. v = TTable kvs \<and> map_of kvs k = Some x)"
  by (cases v) (auto simp: toml_get_def)

lemma as_integer_Some: "as_integer v = Some i \<longleftrightarrow> v = TInteger i"
  by (cases v) (auto simp: as_integer_def)

end
