(* ===== verification/BB_Bpf_Loader.thy ===== *)
theory BB_Bpf_Loader
  imports BB_Prelude "HOL-Library.AList"
begin

text \<open>
  The loader interface that \<open>core/build.rs\<close> generates from the files \<open>bpf/*.bpf.c\<close>:
  \<open>load_module\<close> (open, size the maps, run the pre-load hook, load and attach),
  \<open>set_module_state\<close> (write the administrative flag into the module's \<open>state_map\<close>) and
  \<open>get_map\<close>. \<open>libbpf-rs\<close> is a parameter: a map is a value of type \<open>'m\<close> read and written
  through a \<open>bpf_api\<close>, and \<open>open_skel\<close>, \<open>load_skel\<close> are functions of the loader record.
\<close>

section \<open>Maps, skeletons, open objects\<close>

record 'm bpf_api =
  map_update :: "u8 list \<Rightarrow> u8 list \<Rightarrow> 'm \<Rightarrow> rstr + 'm"
  map_lookup :: "u8 list \<Rightarrow> 'm \<Rightarrow> u8 list option"

text \<open>The keys a map holds.\<close>

definition map_keys :: "'m bpf_api \<Rightarrow> 'm \<Rightarrow> u8 list set" where
  "map_keys api m = {k. map_lookup api k m \<noteq> None}"

text \<open>
  What an update with \<open>BPF_ANY\<close> does to a map of any type: when it succeeds the key holds the
  value; every other key keeps its value or, in a map that evicts, is gone.
\<close>

definition bpf_api_ok :: "'m bpf_api \<Rightarrow> bool" where
  "bpf_api_ok api \<longleftrightarrow>
     (\<forall>k v m m'. map_update api k v m = Inr m' \<longrightarrow>
        map_lookup api k m' = Some v \<and>
        (\<forall>k'. k' \<noteq> k \<longrightarrow> map_lookup api k' m' = map_lookup api k' m \<or> map_lookup api k' m' = None))"

text \<open>
  While there is room, in \<open>BPF_MAP_TYPE_HASH\<close> and \<open>BPF_MAP_TYPE_LRU_HASH\<close> alike: an update of a
  key that is there, or of a new one below \<open>max_entries\<close>, succeeds and changes no other key.
\<close>

definition bpf_room_ok :: "'m bpf_api \<Rightarrow> nat \<Rightarrow> bool" where
  "bpf_room_ok api max_entries \<longleftrightarrow> bpf_api_ok api \<and>
     (\<forall>k v m. k \<in> map_keys api m \<or> (finite (map_keys api m) \<and> card (map_keys api m) < max_entries) \<longrightarrow>
        (\<exists>m'. map_update api k v m = Inr m' \<and>
           (\<forall>k'. map_lookup api k' m' = (if k' = k then Some v else map_lookup api k' m))))"

text \<open>\<open>BPF_MAP_TYPE_HASH\<close> besides never evicts: an update never touches another key.\<close>

definition bpf_hash_ok :: "'m bpf_api \<Rightarrow> nat \<Rightarrow> bool" where
  "bpf_hash_ok api max_entries \<longleftrightarrow> bpf_room_ok api max_entries \<and>
     (\<forall>k v m m'. map_update api k v m = Inr m' \<longrightarrow>
        (\<forall>k'. map_lookup api k' m' = (if k' = k then Some v else map_lookup api k' m)))"

text \<open>
  \<open>BPF_MAP_TYPE_LRU_HASH\<close>: an update of a full map finds room by dropping another entry, so
  it does not fail, and the map never has more entries than its capacity.
\<close>

definition bpf_lru_ok :: "'m bpf_api \<Rightarrow> nat \<Rightarrow> bool" where
  "bpf_lru_ok api max_entries \<longleftrightarrow> bpf_room_ok api max_entries \<and>
     (\<forall>k v m. \<exists>m'. map_update api k v m = Inr m') \<and>
     (\<forall>m. finite (map_keys api m) \<and> card (map_keys api m) \<le> max_entries)"

lemma bpf_hash_room: "bpf_hash_ok api n \<Longrightarrow> bpf_room_ok api n"
  by (simp add: bpf_hash_ok_def)

lemma bpf_lru_room: "bpf_lru_ok api n \<Longrightarrow> bpf_room_ok api n"
  by (simp add: bpf_lru_ok_def)

lemma bpf_room_api: "bpf_room_ok api n \<Longrightarrow> bpf_api_ok api"
  by (simp add: bpf_room_ok_def)

lemma bpf_hash_api: "bpf_hash_ok api n \<Longrightarrow> bpf_api_ok api"
  using bpf_hash_room bpf_room_api by blast

lemma map_update_lookup:
  "bpf_hash_ok api n \<Longrightarrow> map_update api k v m = Inr m' \<Longrightarrow>
   map_lookup api k' m' = (if k' = k then Some v else map_lookup api k' m)"
  unfolding bpf_hash_ok_def by blast

lemma map_update_room:
  assumes "bpf_room_ok api n" "finite (map_keys api m)" "k \<in> map_keys api m \<or> card (map_keys api m) < n"
  obtains m' where "map_update api k v m = Inr m'" and "map_keys api m' = insert k (map_keys api m)"
    and "finite (map_keys api m')" and "card (map_keys api m') \<le> Suc (card (map_keys api m))"
    and "\<And>k'. map_lookup api k' m' = (if k' = k then Some v else map_lookup api k' m)"
proof -
  from assms obtain m' where m': "map_update api k v m = Inr m'"
    and look: "\<And>k'. map_lookup api k' m' = (if k' = k then Some v else map_lookup api k' m)"
    unfolding bpf_room_ok_def by meson
  have keys: "map_keys api m' = insert k (map_keys api m)"
    using look by (auto simp: map_keys_def)
  with assms(2) have "finite (map_keys api m')" "card (map_keys api m') \<le> Suc (card (map_keys api m))"
    by (simp_all add: card_insert_if)
  with m' keys look that show thesis by blast
qed

text \<open>A map that keeps these laws: an association list of bounded size.\<close>

definition hash_map :: "nat \<Rightarrow> (u8 list \<times> u8 list) list bpf_api" where
  "hash_map max_entries =
     \<lparr>map_update = (\<lambda>k v m.
        if k \<in> set (map fst m) \<or> card (set (map fst m)) < max_entries
        then Inr (AList.update k v m) else Inl (str ''Argument list too long (os error 7)'')),
      map_lookup = (\<lambda>k m. map_of m k)\<rparr>"

lemma hash_map_keys: "map_keys (hash_map n) m = fst ` set m"
  by (auto simp: map_keys_def hash_map_def map_of_eq_None_iff)

lemma hash_map_update:
  assumes "map_update (hash_map n) k v m = Inr m'"
  shows "map_lookup (hash_map n) k' m' = (if k' = k then Some v else map_lookup (hash_map n) k' m)"
  using assms by (auto simp: hash_map_def update_conv' split: if_splits)

lemma hash_map_ok: "bpf_hash_ok (hash_map n) n"
proof -
  have api: "bpf_api_ok (hash_map n)"
    by (simp add: bpf_api_ok_def hash_map_update)
  have "\<exists>m'. map_update (hash_map n) k v m = Inr m'" if "k \<in> fst ` set m \<or> card (fst ` set m) < n" for k v m
    using that by (auto simp: hash_map_def)
  then have "bpf_room_ok (hash_map n) n"
    unfolding bpf_room_ok_def hash_map_keys using api hash_map_update by (metis (no_types, lifting))
  then show ?thesis unfolding bpf_hash_ok_def using hash_map_update by blast
qed

text \<open>And a map that evicts: the newest entries of an association list.\<close>

definition newest :: "nat \<Rightarrow> (u8 list \<times> u8 list) list \<Rightarrow> (u8 list \<times> u8 list) list" where
  "newest n m = take n (AList.clearjunk m)"

definition lru_map :: "nat \<Rightarrow> (u8 list \<times> u8 list) list bpf_api" where
  "lru_map max_entries =
     \<lparr>map_update = (\<lambda>k v m. Inr ((k, v) # filter (\<lambda>e. fst e \<noteq> k) (newest max_entries m))),
      map_lookup = (\<lambda>k m. map_of (newest max_entries m) k)\<rparr>"

lemma distinct_newest: "distinct (map fst (newest n m))"
  using distinct_clearjunk [of m] by (simp add: newest_def flip: take_map)

lemma newest_pushed:
  "newest n ((k, v) # filter (\<lambda>e. fst e \<noteq> k) (newest n m)) =
     take n ((k, v) # filter (\<lambda>e. fst e \<noteq> k) (newest n m))"
proof -
  let ?xs = "(k, v) # filter (\<lambda>e. fst e \<noteq> k) (newest n m)"
  have "distinct (map fst ?xs)"
    using distinct_newest [of n m] by (auto simp: distinct_map_filter)
  then have "AList.clearjunk ?xs = ?xs" by simp
  then show ?thesis by (simp only: newest_def [of n "?xs"])
qed

lemma map_of_filter_other: "k' \<noteq> k \<Longrightarrow> map_of (filter (\<lambda>e. fst e \<noteq> k) m) k' = map_of m k'"
  by (induction m) auto

lemma map_of_take:
  "distinct (map fst xs) \<Longrightarrow> map_of (take j xs) x = map_of xs x \<or> map_of (take j xs) x = None"
proof (cases "map_of (take j xs) x")
  case (Some v)
  assume "distinct (map fst xs)"
  moreover from Some have "(x, v) \<in> set xs" by (meson in_set_takeD map_of_SomeD)
  ultimately show ?thesis using Some by simp
qed simp

lemma lru_map_keys: "map_keys (lru_map n) m = fst ` set (newest n m)"
  by (auto simp: map_keys_def lru_map_def map_of_eq_None_iff)

lemma card_lru_map_keys: "card (map_keys (lru_map n) m) = length (newest n m)"
  using distinct_card [OF distinct_newest [of n m]] by (simp add: lru_map_keys)

lemma lru_map_ok:
  assumes "0 < n"
  shows "bpf_lru_ok (lru_map n) n"
proof -
  define pushed where "pushed k v m = (k, v) # filter (\<lambda>e. fst e \<noteq> k) (newest n m)" for k v m
  have upd: "map_update (lru_map n) k v m = Inr (pushed k v m)" for k v m
    by (simp add: lru_map_def pushed_def)
  have look: "map_lookup (lru_map n) k' (pushed k v m) = map_of (take n (pushed k v m)) k'" for k k' v m
    using newest_pushed [of n k v m] by (simp add: lru_map_def pushed_def)
  have dist: "distinct (map fst (pushed k v m))" for k v m
    using distinct_newest [of n m] by (auto simp: pushed_def distinct_map_filter)
  have all: "map_of (pushed k v m) k' = (if k' = k then Some v else map_lookup (lru_map n) k' m)" for k k' v m
    by (auto simp: pushed_def map_of_filter_other lru_map_def)
  have api: "bpf_api_ok (lru_map n)"
    unfolding bpf_api_ok_def upd sum.inject(2)
  proof (intro allI impI, elim subst, intro conjI allI impI)
    fix k v m k'
    show "map_lookup (lru_map n) k (pushed k v m) = Some v"
      unfolding look using assms by (cases n) (simp_all add: pushed_def)
    show "k' \<noteq> k \<Longrightarrow> map_lookup (lru_map n) k' (pushed k v m) = map_lookup (lru_map n) k' m \<or>
        map_lookup (lru_map n) k' (pushed k v m) = None"
      using map_of_take [OF dist, of n k v m k'] all [of k v m k'] by (auto simp: look)
  qed
  have "length (pushed k v m) \<le> n"
    if "k \<in> map_keys (lru_map n) m \<or> card (map_keys (lru_map n) m) < n" for k v m
  proof -
    have "length (newest n m) \<le> n" by (simp add: newest_def)
    moreover have "length (filter (\<lambda>e. fst e \<noteq> k) (newest n m)) < length (newest n m)"
      if "k \<in> fst ` set (newest n m)"
      using that length_filter_less [of _ "newest n m" "\<lambda>e. fst e \<noteq> k"] by auto
    moreover have "length (filter (\<lambda>e. fst e \<noteq> k) (newest n m)) \<le> length (newest n m)" by simp
    moreover have "k \<in> fst ` set (newest n m) \<or> length (newest n m) < n"
      using that card_lru_map_keys [of n m] lru_map_keys [of n m] by metis
    ultimately have "length (filter (\<lambda>e. fst e \<noteq> k) (newest n m)) < n" by (meson le_less_trans less_le_trans)
    then show ?thesis by (simp add: pushed_def)
  qed
  then have "bpf_room_ok (lru_map n) n"
    unfolding bpf_room_ok_def upd using api look all by auto
  moreover have "length (newest n m) \<le> n" for m by (simp add: newest_def)
  ultimately show ?thesis
    unfolding bpf_lru_ok_def upd card_lru_map_keys by (simp add: lru_map_keys)
qed

text \<open>
  A loaded skeleton: the concrete type behind \<open>dyn Any\<close> (the module it was generated for)
  and the maps of its object, in the object's order.
\<close>

record 'm skeleton =
  sk_module :: rstr
  sk_maps :: "(rstr \<times> 'm) list"

record open_object =
  oo_maps :: "(rstr \<times> u32) list"
  oo_progs :: "(rstr \<times> bool) list"

text \<open>The generated file: its modules in directory order, and the library calls its arms make.\<close>

record 'm loader =
  available_modules :: "rstr list"
  open_skel :: "rstr \<Rightarrow> rstr + open_object"
  load_skel :: "rstr \<Rightarrow> open_object \<Rightarrow> rstr + 'm skeleton"
  attach_skel :: "'m skeleton \<Rightarrow> rstr + 'm skeleton"

definition state_map_name :: rstr where
  "state_map_name = str ''state_map''"

section \<open>Operations\<close>

definition state_key :: "endian \<Rightarrow> u8 list" where
  "state_key en = u32_to_ne_bytes en 0"

definition state_val :: "endian \<Rightarrow> bool \<Rightarrow> u8 list" where
  "state_val en active = u32_to_ne_bytes en (if active then 1 else 0)"

definition set_module_state ::
    "endian \<Rightarrow> 'm bpf_api \<Rightarrow> 'm loader \<Rightarrow> 'm skeleton \<Rightarrow> rstr \<Rightarrow> bool \<Rightarrow> rstr + 'm skeleton" where
  "set_module_state en api ld skel name active =
     (if name \<notin> set (available_modules ld)
      then Inl (str ''Unknown eBPF module '' @ quoted name)
      else if sk_module skel \<noteq> name
      then Inl (str ''Type downcast failed for module skeleton '' @ quoted name)
      else case map_of (sk_maps skel) state_map_name of
             None \<Rightarrow> Inr skel
           | Some state_map \<Rightarrow>
               (case map_update api (state_key en) (state_val en active) state_map of
                  Inl _ \<Rightarrow> Inl (str ''Failed to synchronize eBPF state_map for '' @ name)
                | Inr m' \<Rightarrow> Inr (skel\<lparr>sk_maps := AList.update state_map_name m' (sk_maps skel)\<rparr>)))"

definition get_map :: "'m loader \<Rightarrow> 'm skeleton \<Rightarrow> rstr \<Rightarrow> rstr + 'm" where
  "get_map ld skel map_name =
     (if sk_module skel \<in> set (available_modules ld)
      then case map_of (sk_maps skel) map_name of
             Some m \<Rightarrow> Inr m
           | None \<Rightarrow> Inl (str ''Map '' @ quoted map_name @ str '' not found in module skeleton'')
      else Inl (str ''Type downcast failed or map '' @ quoted map_name
                 @ str '' not found across all registered modules.''))"

text \<open>
  Split-phase loading: the capacities are written into the open object's maps (one the
  object does not have is ignored), then the hook runs, then load and attach.
\<close>

definition set_max_entries :: "(rstr \<times> u32) \<Rightarrow> open_object \<Rightarrow> open_object" where
  "set_max_entries c obj =
     (if map_of (oo_maps obj) (fst c) = None then obj
      else obj\<lparr>oo_maps := AList.update (fst c) (snd c) (oo_maps obj)\<rparr>)"

definition load_module ::
    "'m loader \<Rightarrow> rstr \<Rightarrow> (rstr \<times> u32) list \<Rightarrow> (open_object \<Rightarrow> rstr + open_object) \<Rightarrow>
     rstr + 'm skeleton" where
  "load_module ld name capacities pre_load_hook =
     (if name \<notin> set (available_modules ld)
      then Inl (str ''eBPF module '' @ quoted name @ str '' not found.'')
      else case open_skel ld name of
             Inl _ \<Rightarrow> Inl (str ''Failed to open '' @ name)
           | Inr obj \<Rightarrow>
               (case pre_load_hook (fold set_max_entries capacities obj) of
                  Inl e \<Rightarrow> Inl e
                | Inr obj' \<Rightarrow>
                    (case load_skel ld name obj' of
                       Inl _ \<Rightarrow> Inl (str ''Failed to load '' @ name)
                     | Inr skel \<Rightarrow>
                         (case attach_skel ld skel of
                            Inl _ \<Rightarrow> Inl (str ''Failed to attach '' @ name)
                          | Inr skel' \<Rightarrow> Inr skel'))))"

section \<open>What the operations guarantee\<close>

text \<open>The flag as the kernel hooks read it (\<open>is_module_active\<close>): entry 0 of the state map.\<close>

definition kernel_active :: "endian \<Rightarrow> 'm bpf_api \<Rightarrow> 'm skeleton \<Rightarrow> bool option" where
  "kernel_active en api skel =
     (case map_of (sk_maps skel) state_map_name of
        None \<Rightarrow> None
      | Some m \<Rightarrow> Some (map_lookup api (state_key en) m = Some (state_val en True)))"

lemma state_val_inj [simp]: "state_val en a = state_val en b \<longleftrightarrow> a = b"
  by (auto simp: state_val_def split: if_splits)

lemma set_module_state_module:
  "set_module_state en api ld skel name a = Inr skel' \<Longrightarrow>
   sk_module skel' = sk_module skel \<and> sk_module skel = name \<and> name \<in> set (available_modules ld)"
  by (auto simp: set_module_state_def split: if_splits option.splits sum.splits)

text \<open>The flag was written: the state map, where there is one, has the entry.\<close>

definition flag_written :: "endian \<Rightarrow> 'm bpf_api \<Rightarrow> bool \<Rightarrow> 'm skeleton \<Rightarrow> bool" where
  "flag_written en api b skel \<longleftrightarrow>
     (\<forall>m. map_of (sk_maps skel) state_map_name = Some m \<longrightarrow>
        map_lookup api (state_key en) m = Some (state_val en b))"

lemma set_module_state_written:
  assumes "bpf_api_ok api" and "set_module_state en api ld skel name a = Inr skel'"
  shows "flag_written en api a skel'"
  using assms
  by (auto simp: set_module_state_def flag_written_def bpf_api_ok_def update_conv'
      split: if_splits option.splits sum.splits)

text \<open>A successful call leaves the flag at the value asked for, and every other map alone.\<close>

lemma set_module_state_active:
  assumes "bpf_api_ok api" and "set_module_state en api ld skel name a = Inr skel'"
  shows "kernel_active en api skel' = map_option (\<lambda>_. a) (kernel_active en api skel)"
  using assms
  by (auto simp: set_module_state_def kernel_active_def bpf_api_ok_def update_conv'
      split: if_splits option.splits sum.splits)

lemma set_module_state_frame:
  assumes "set_module_state en api ld skel name a = Inr skel'" and "n \<noteq> state_map_name"
  shows "map_of (sk_maps skel') n = map_of (sk_maps skel) n"
  using assms
  by (auto simp: set_module_state_def update_conv' split: if_splits option.splits sum.splits)

lemma get_map_error:
  "get_map ld skel n = Inl e \<longleftrightarrow>
     (sk_module skel \<in> set (available_modules ld) \<and> map_of (sk_maps skel) n = None \<and>
        e = str ''Map '' @ quoted n @ str '' not found in module skeleton'') \<or>
     (sk_module skel \<notin> set (available_modules ld) \<and>
        e = str ''Type downcast failed or map '' @ quoted n
              @ str '' not found across all registered modules.'')"
  by (auto simp: get_map_def split: option.splits)

lemma fold_set_max_entries_keys:
  "map fst (oo_maps (fold set_max_entries cs obj)) = map fst (oo_maps obj)"
proof (induction cs arbitrary: obj)
  case Nil
  then show ?case by simp
next
  case (Cons c cs)
  have "map fst (oo_maps (set_max_entries c obj)) = map fst (oo_maps obj)"
    by (simp add: set_max_entries_def map_of_eq_None_iff update_keys)
  with Cons show ?case by simp
qed

text \<open>Every map of the object that has a capacity is loaded with it.\<close>

lemma fold_set_max_entries:
  "distinct (map fst cs) \<Longrightarrow> map_of (oo_maps obj) n \<noteq> None \<Longrightarrow>
   map_of (oo_maps (fold set_max_entries cs obj)) n =
     (case map_of cs n of Some c \<Rightarrow> Some c | None \<Rightarrow> map_of (oo_maps obj) n)"
proof (induction cs arbitrary: obj)
  case Nil
  then show ?case by simp
next
  case (Cons c cs)
  have step: "map_of (oo_maps (set_max_entries c obj)) n =
      (if n = fst c then Some (snd c) else map_of (oo_maps obj) n)"
    using Cons.prems(2) by (auto simp: set_max_entries_def update_conv')
  have "map_of cs (fst c) = None"
    using Cons.prems(1) by (simp add: map_of_eq_None_iff)
  with Cons step show ?case
    by (cases c) (auto split: option.splits)
qed

end
