(* ===== verification/BB_Fs_Utils.thy ===== *)
theory BB_Fs_Utils
  imports BB_Utf8 BB_Toml BB_Bpf_Loader
begin

text \<open>
  \<open>modules/src/common/fs_utils.rs\<close>: the hardware key of a file, the sizing of a watchlist
  map before it is loaded and its population afterwards, by directory walk or by extended
  attribute. \<open>walkdir\<close>, \<open>rustix::openat\<close>, \<open>xattr\<close> and the BPF map are parameters (the
  \<open>host\<close> record and the \<open>bpf_api\<close>). The lemmas connect the two passes: the capacity
  computed in the first is enough for the second.
\<close>

section \<open>What the host answers\<close>

datatype file_type = FtFile | FtDir | FtOther

record dirent =
  de_path :: rstr
  de_name :: "u8 list"
  de_type :: file_type

record walk_options =
  wo_path :: rstr
  wo_max_depth :: nat
  wo_follow_links :: bool

record metadata =
  md_ino :: u64
  md_dev :: u64

datatype open_flag = O_RDONLY | O_NOFOLLOW | O_PATH | O_CLOEXEC

text \<open>An open descriptor: its metadata, and \<open>get_xattr\<close> (\<open>None\<close> for an error).\<close>

record opened_file =
  of_meta :: "metadata option"
  of_xattr :: "rstr \<Rightarrow> u8 list option option"

text \<open>
  \<open>walk\<close> is the sequence a \<open>walkdir\<close> iterator with these options and this \<open>filter_entry\<close>
  predicate yields, \<open>None\<close> for an entry that could not be read. \<open>parse_toml\<close> is the
  crate's text parser, which the modules and the daemon apply to the configuration file.
\<close>

record host =
  walk :: "walk_options \<Rightarrow> (dirent \<Rightarrow> bool) \<Rightarrow> dirent option list"
  openat :: "open_flag list \<Rightarrow> rstr \<Rightarrow> opened_file option"
  read_to_string :: "rstr \<Rightarrow> rstr option"
  parse_toml :: "rstr \<Rightarrow> toml option"

datatype entry_type = EtFile | EtDirectory

section \<open>Walking and hardware keys\<close>

definition build_secure_walker :: "rstr \<Rightarrow> walk_options" where
  "build_secure_walker path = \<lparr>wo_path = path, wo_max_depth = 20, wo_follow_links = False\<rparr>"

definition dev_major :: "u64 \<Rightarrow> u64" where
  "dev_major user_dev = ((drop_bit 8 user_dev) AND 0xfff) OR ((drop_bit 32 user_dev) AND NOT 0xfff)"

definition dev_minor :: "u64 \<Rightarrow> u64" where
  "dev_minor user_dev = (user_dev AND 0xff) OR ((drop_bit 12 user_dev) AND NOT 0xff)"

definition kernel_dev :: "u64 \<Rightarrow> u32" where
  "kernel_dev user_dev = push_bit 20 (ucast (dev_major user_dev)) OR ucast (dev_minor user_dev)"

definition generate_hardware_key :: "endian \<Rightarrow> metadata \<Rightarrow> u8 list" where
  "generate_hardware_key en md =
     u64_to_ne_bytes en (md_ino md) @ u32_to_ne_bytes en (kernel_dev (md_dev md)) @ replicate 4 0"

definition get_secure_hardware_key :: "endian \<Rightarrow> host \<Rightarrow> rstr \<Rightarrow> u8 list option" where
  "get_secure_hardware_key en h path =
     (case openat h [O_RDONLY, O_NOFOLLOW, O_PATH, O_CLOEXEC] path of
        None \<Rightarrow> None
      | Some file \<Rightarrow>
          (case of_meta file of
             None \<Rightarrow> None
           | Some metadata \<Rightarrow> Some (generate_hardware_key en metadata)))"

section \<open>Sizing\<close>

definition visible_entry :: "bool \<Rightarrow> rstr list \<Rightarrow> dirent \<Rightarrow> bool" where
  "visible_entry ignore_hidden allow_hidden e =
     (if \<not> ignore_hidden then True
      else let fname = utf8_lossy (de_name e)
           in if take 1 fname \<noteq> str ''.'' then True
              else fname \<in> set allow_hidden)"

definition is_match :: "entry_type \<Rightarrow> dirent \<Rightarrow> bool" where
  "is_match ty e = (case ty of EtFile \<Rightarrow> de_type e = FtFile | EtDirectory \<Rightarrow> de_type e = FtDir)"

text \<open>\<open>filter_map(|e| e.ok())\<close> over the walk of one path.\<close>

definition walked :: "host \<Rightarrow> bool \<Rightarrow> rstr list \<Rightarrow> rstr \<Rightarrow> dirent list" where
  "walked h ignore_hidden allow_hidden path =
     List.map_filter id (walk h (build_secure_walker path) (visible_entry ignore_hidden allow_hidden))"

text \<open>
  The counter is an \<open>i32\<close> (the type an unconstrained integer literal gets) that wraps in a
  release build; \<open>count as f64 * 1.25\<close> is exact for every \<open>i32\<close>, and the cast back to
  \<open>u32\<close> truncates and saturates.
\<close>

definition scale_count :: "32 word \<Rightarrow> u32" where
  "scale_count count = word_of_int (min (max 0 (5 * sint count div 4)) (2 ^ 32 - 1))"

definition calculate_dynamic_capacity ::
    "host \<Rightarrow> rstr list \<Rightarrow> entry_type \<Rightarrow> u32 \<Rightarrow> bool \<Rightarrow> rstr list \<Rightarrow> u32" where
  "calculate_dynamic_capacity h target_paths ty min_capacity ignore_hidden allow_hidden =
     (let count = fold (\<lambda>path count.
            fold (\<lambda>e count. if is_match ty e then count + 1 else count)
              (walked h ignore_hidden allow_hidden path) count) target_paths (0 :: 32 word)
      in max (scale_count count) min_capacity)"

definition calculate_watchlist_capacity :: "host \<Rightarrow> rstr list \<Rightarrow> u32" where
  "calculate_watchlist_capacity h target_paths =
     (let count = fold (\<lambda>path count.
            fold (\<lambda>e count. if de_type e = FtFile then count + 1 else count)
              (List.map_filter id (walk h (build_secure_walker path) (\<lambda>_. True))) count)
            target_paths (0 :: 32 word)
      in max (scale_count count) 2048)"

section \<open>Population\<close>

definition protected_value :: "u8 list" where
  "protected_value = [1]"

fun index_entries ::
    "endian \<Rightarrow> host \<Rightarrow> 'm bpf_api \<Rightarrow> entry_type \<Rightarrow> dirent list \<Rightarrow> 'm \<Rightarrow> (rstr + unit) \<times> 'm" where
  "index_entries en h api ty [] m = (Inr (), m)"
| "index_entries en h api ty (e # es) m =
     (if \<not> is_match ty e then index_entries en h api ty es m
      else case get_secure_hardware_key en h (de_path e) of
             None \<Rightarrow> index_entries en h api ty es m
           | Some key_bytes \<Rightarrow>
               (case map_update api key_bytes protected_value m of
                  Inl err \<Rightarrow>
                    (Inl (str ''CRITICAL: Map update failed for '' @ de_path e @ str '': '' @ err), m)
                | Inr m' \<Rightarrow> index_entries en h api ty es m'))"

fun populate_map_from_paths ::
    "endian \<Rightarrow> host \<Rightarrow> 'm bpf_api \<Rightarrow> rstr list \<Rightarrow> entry_type \<Rightarrow> bool \<Rightarrow> rstr list \<Rightarrow> rstr \<Rightarrow> 'm \<Rightarrow>
     effect list \<times> (rstr + unit) \<times> 'm" where
  "populate_map_from_paths en h api [] ty ig al slug m = ([], Inr (), m)"
| "populate_map_from_paths en h api (path # paths) ty ig al slug m =
     (let line = Stdout (str ''Bouclier Bleu [Setup]: Recursively indexing path '' @ path
                    @ str '' for '' @ slug @ str ''...'')
      in case index_entries en h api ty (walked h ig al path) m of
           (Inl e, m1) \<Rightarrow> ([line], Inl e, m1)
         | (Inr _, m1) \<Rightarrow>
             (case populate_map_from_paths en h api paths ty ig al slug m1 of
                (es, r, m2) \<Rightarrow> (line # es, r, m2)))"

text \<open>\<open>Debug\<close> of a path, for paths without characters it escapes.\<close>

definition debug_path :: "rstr \<Rightarrow> rstr" where
  "debug_path p = 34 # p @ [34]"

definition opted_in :: "host \<Rightarrow> rstr \<Rightarrow> dirent \<Rightarrow> metadata option" where
  "opted_in h xattr_name e =
     (if de_type e \<noteq> FtFile then None
      else case openat h [O_RDONLY, O_NOFOLLOW, O_CLOEXEC] (de_path e) of
             None \<Rightarrow> None
           | Some file \<Rightarrow>
               (if of_xattr file xattr_name = Some (Some [49]) then of_meta file else None))"

fun index_xattr ::
    "endian \<Rightarrow> host \<Rightarrow> 'm bpf_api \<Rightarrow> rstr \<Rightarrow> rstr \<Rightarrow> rstr \<Rightarrow> dirent list \<Rightarrow> 'm \<Rightarrow>
     effect list \<times> (rstr + unit) \<times> 'm" where
  "index_xattr en h api mname xname slug [] m = ([], Inr (), m)"
| "index_xattr en h api mname xname slug (e # es) m =
     (case opted_in h xname e of
        None \<Rightarrow> index_xattr en h api mname xname slug es m
      | Some md \<Rightarrow>
          (case map_update api (generate_hardware_key en md) protected_value m of
             Inl err \<Rightarrow>
               ([], Inl (str ''CRITICAL: '' @ mname @ str '' map failed to update: '' @ err), m)
           | Inr m' \<Rightarrow>
               (case index_xattr en h api mname xname slug es m' of
                  (out, r, m2) \<Rightarrow>
                    (Stdout (str ''Bouclier Bleu [Setup]: '' @ slug
                       @ str '' strict enforcement activated for '' @ debug_path (de_path e)) # out,
                     r, m2))))"

fun populate_map_from_xattr ::
    "endian \<Rightarrow> host \<Rightarrow> 'm bpf_api \<Rightarrow> rstr \<Rightarrow> rstr list \<Rightarrow> rstr \<Rightarrow> rstr \<Rightarrow> 'm \<Rightarrow>
     effect list \<times> (rstr + unit) \<times> 'm" where
  "populate_map_from_xattr en h api mname [] xname slug m = ([], Inr (), m)"
| "populate_map_from_xattr en h api mname (path # paths) xname slug m =
     (let line = Stdout (str ''Bouclier Bleu [Setup]: Scanning '' @ path @ str '' for '' @ slug
                    @ str '' opt-in attributes...'')
      in case index_xattr en h api mname xname slug
                (List.map_filter id (walk h (build_secure_walker path) (\<lambda>_. True))) m of
           (out, Inl e, m1) \<Rightarrow> (line # out, Inl e, m1)
         | (out, Inr _, m1) \<Rightarrow>
             (case populate_map_from_xattr en h api mname paths xname slug m1 of
                (out2, r, m2) \<Rightarrow> (line # out @ out2, r, m2)))"

section \<open>Device numbers, keys and capacities\<close>

definition gnu_dev_makedev :: "u64 \<Rightarrow> u64 \<Rightarrow> u64" where
  "gnu_dev_makedev major minor =
     push_bit 8 (major AND 0xfff) OR push_bit 32 (major AND NOT 0xfff) OR
     (minor AND 0xff) OR push_bit 12 (minor AND NOT 0xff)"

lemma low_masks: "(0xfff :: u64) = mask 12" "(0xff :: u64) = mask 8"
  by (simp_all add: mask_eq_exp_minus_1)

lemma lt_no_bit:
  assumes "v < 2 ^ 32" "32 \<le> n" shows "\<not> bit (v :: u64) n"
proof -
  have "uint v < 2 ^ 32" using assms(1) by (simp add: word_less_def)
  also have "(2::int) ^ 32 \<le> 2 ^ n" using assms(2) by (rule power_increasing) simp
  finally have "uint v div 2 ^ n = 0" by (simp add: div_pos_pos_trivial)
  then have "\<not> bit (uint v) n" by (simp add: bit_iff_odd)
  then show ?thesis
    using bit_imp_le_length [of v n] by (auto simp: bit_uint_iff)
qed

lemma bit_makedev:
  assumes "k < 64"
  shows "bit (gnu_dev_makedev M m) k \<longleftrightarrow>
    (if k < 8 then bit m k else if k < 20 then bit M (k - 8)
     else if k < 32 then bit m (k - 12)
     else if k < 44 then bit m (k - 12)
     else bit M (k - 32) \<or> bit m (k - 12))"
proof -
  consider "k < 8" | "8 \<le> k" "k < 20" | "20 \<le> k" "k < 32" | "32 \<le> k" "k < 44" | "44 \<le> k" by linarith
  then show ?thesis
    using assms by cases (auto simp add: gnu_dev_makedev_def low_masks bit_simps less_diff_conv2)
qed

lemma bit_dev_major: "bit (dev_major d) n \<longleftrightarrow> (if n < 12 then bit d (n + 8) else n < 32 \<and> bit d (n + 32))"
proof (cases "n < 12")
  case True then show ?thesis by (simp add: dev_major_def low_masks bit_simps add.commute)
next
  case False 
  have "bit d (32 + n) \<Longrightarrow> n < 32" using bit_imp_le_length [of d "32+n"] by simp
  with False show ?thesis by (auto simp add: dev_major_def low_masks bit_simps add.commute)
qed
lemma bit_dev_minor: "bit (dev_minor d) n \<longleftrightarrow> (if n < 8 then bit d n else n < 52 \<and> bit d (n + 12))"
proof (cases "n < 8")
  case True then show ?thesis by (simp add: dev_minor_def low_masks bit_simps add.commute)
next
  case False 
  have "bit d (12 + n) \<Longrightarrow> n < 52" using bit_imp_le_length [of d "12+n"] by simp
  with False show ?thesis by (auto simp add: dev_minor_def low_masks bit_simps add.commute)
qed

lemma dev_major_makedev:
  assumes "M < 2 ^ 32" "m < 2 ^ 32"
  shows "dev_major (gnu_dev_makedev M m) = M"
proof (rule bit_word_eqI)
  fix n assume "n < LENGTH(64)"
  consider "n < 12" | "12 \<le> n" "n < 32" | "32 \<le> n" by linarith
  then show "bit (dev_major (gnu_dev_makedev M m)) n = bit M n"
    using lt_no_bit [OF assms(1), of n] lt_no_bit [OF assms(2), of "n + 20"]
    by cases (simp_all add: bit_dev_major bit_makedev add.commute)
qed

lemma dev_minor_makedev:
  assumes "m < 2 ^ 32"
  shows "(ucast (dev_minor (gnu_dev_makedev M m)) :: u32) = ucast m"
proof (rule bit_word_eqI)
  fix n assume "n < LENGTH(32)"
  then have "n < 32" by simp
  moreover consider "n < 8" | "8 \<le> n" "n < 32" using \<open>n < 32\<close> by linarith
  ultimately show "bit (ucast (dev_minor (gnu_dev_makedev M m)) :: u32) n = bit (ucast m :: u32) n"
    by cases (simp_all add: bit_dev_minor bit_makedev bit_ucast_iff)
qed

lemma kernel_dev_makedev:
  assumes "M < 2 ^ 32" "m < 2 ^ 32"
  shows "kernel_dev (gnu_dev_makedev M m) = push_bit 20 (ucast M) OR ucast m"
  using assms by (simp add: kernel_dev_def dev_major_makedev dev_minor_makedev)

lemma lt_bits:
  assumes "uint v < 2 ^ k" and "k \<le> n" shows "\<not> bit (v :: u64) n"
proof -
  have "uint v < 2 ^ n"
    using assms(1) power_increasing [OF assms(2), of "2::int"] by linarith
  then have "uint v div 2 ^ n = 0" by (simp add: div_pos_pos_trivial)
  then have "\<not> bit (uint v) n" by (simp add: bit_iff_odd)
  then show ?thesis
    using bit_imp_le_length [of v n] by (auto simp: bit_uint_iff)
qed

lemma uint_lt: "v < 2 ^ 12 \<Longrightarrow> uint (v :: u64) < 2 ^ 12" "v < 2 ^ 20 \<Longrightarrow> uint (v :: u64) < 2 ^ 20"
  "v < 2 ^ 32 \<Longrightarrow> uint (v :: u64) < 2 ^ 32"
  by (simp_all add: word_less_def)

lemma kernel_dev_inj:
  assumes "M < 2 ^ 12" "m < 2 ^ 20" "M' < 2 ^ 12" "m' < 2 ^ 20"
   and eq: "kernel_dev (gnu_dev_makedev M m) = kernel_dev (gnu_dev_makedev M' m')"
  shows "M = M' \<and> m = m'"
proof -
   have k: "kernel_dev (gnu_dev_makedev a b) = push_bit 20 (ucast a) OR ucast b" if "a < 2 ^ 12" "b < 2 ^ 20" for a b
     using that by (intro kernel_dev_makedev) unat_arith+
   have lo: "bit (kernel_dev (gnu_dev_makedev a b)) n = bit b n" if "a < 2 ^ 12" "b < 2 ^ 20" "n < 20" for a b n
     using that by (simp add: k bit_simps)
   have hi: "bit (kernel_dev (gnu_dev_makedev a b)) (n + 20) = bit a n" if "a < 2 ^ 12" "b < 2 ^ 20" "n < 12" for a b n
     using that lt_bits [of b 20 "n + 20"] uint_lt by (simp add: k bit_simps)
   have "M = M'"
   proof (rule bit_word_eqI)
     fix n show "bit M n = bit M' n"
       using hi [of M m n] hi [of M' m' n] assms lt_bits [of M 12 n]  lt_bits [of M' 12 n] uint_lt
       by (cases "n < 12") auto
   qed
   moreover have "m = m'"
   proof (rule bit_word_eqI)
     fix n show "bit m n = bit m' n"
       using lo [of M m n] lo [of M' m' n] assms lt_bits [of m 20 n]  lt_bits [of m' 20 n] uint_lt
       by (cases "n < 20") auto
   qed
   ultimately show ?thesis by simp
qed
lemma scale_count_of_nat:
  assumes "n < 2 ^ 31" shows "unat (scale_count (of_nat n)) = 5 * n div 4"
proof -
  have "sint (of_nat n :: 32 word) = int n"
    using assms by (simp add: signed_of_nat signed_take_bit_int_eq_self)
  moreover have "5 * int n div 4 = int (5 * n div 4)" by (simp add: zdiv_int)
  moreover have "5 * n div 4 < 2 ^ 32"  using assms by simp
  ultimately have "scale_count (of_nat n) = of_nat (5 * n div 4)" unfolding scale_count_def
    by (simp add: min_def max_def)
  then show ?thesis using \<open>5 * n div 4 < 2 ^ 32\<close> by (simp only: unat_of_nat) simp
qed

lemma fold_count:
  "fold (\<lambda>e count. if P e then count + 1 else count) es (of_nat n :: 32 word) =
   of_nat (n + length (filter P es))"
proof (induction es arbitrary: n)
  case (Cons e es)
  show ?case using Cons [of "Suc n"] Cons [of n] by (simp add: add.commute)
qed simp

definition matches :: "host \<Rightarrow> rstr list \<Rightarrow> entry_type \<Rightarrow> bool \<Rightarrow> rstr list \<Rightarrow> dirent list" where
  "matches h paths ty ig al = filter (is_match ty) (concat (map (walked h ig al) paths))"

lemma fold_paths_count:
  "fold (\<lambda>path count. fold (\<lambda>e count. if P e then count + 1 else count) (f path) count) paths
     (of_nat n :: 32 word) = of_nat (n + length (filter P (concat (map f paths))))"
proof (induction paths arbitrary: n)
  case (Cons p ps)
  show ?case using Cons [of "n + length (filter P (f p))"] by (simp add: fold_count add.assoc)
qed simp

lemma capacity_exact:
  assumes "length (matches h paths ty ig al) < 2 ^ 31"
  shows "unat (calculate_dynamic_capacity h paths ty mn ig al) =
     max (5 * length (matches h paths ty ig al) div 4) (unat mn)"
proof -
  have "calculate_dynamic_capacity h paths ty mn ig al =
      max (scale_count (of_nat (length (matches h paths ty ig al)))) mn"
    using fold_paths_count [of "is_match ty" "walked h ig al" paths 0]
    by (simp add: calculate_dynamic_capacity_def matches_def)
  moreover have "unat (max a b) = max (unat a) (unat b)" for a b :: u32
    by (simp add: max_def word_le_nat_alt)
  ultimately show ?thesis using scale_count_of_nat [OF assms] by simp
qed

text \<open>The older sizing function, which nothing calls any more, is the general one with fixed arguments.\<close>

lemma watchlist_capacity_dynamic:
  "calculate_watchlist_capacity h paths = calculate_dynamic_capacity h paths EtFile 2048 False []"
proof -
  have "visible_entry False [] = (\<lambda>_. True)" by (simp add: visible_entry_def fun_eq_iff)
  then show ?thesis
    by (simp add: calculate_watchlist_capacity_def calculate_dynamic_capacity_def walked_def is_match_def)
qed

lemma length_hardware_key: "length (generate_hardware_key en md) = 16"
  by (simp add: generate_hardware_key_def)

lemma hardware_key_inj:
  "generate_hardware_key en a = generate_hardware_key en b \<longleftrightarrow>
   md_ino a = md_ino b \<and> kernel_dev (md_dev a) = kernel_dev (md_dev b)"
  by (auto simp: generate_hardware_key_def append_eq_append_conv)

section \<open>Population by path\<close>

text \<open>The hardware keys of the entries that can be opened.\<close>

definition indexed_keys :: "endian \<Rightarrow> host \<Rightarrow> dirent list \<Rightarrow> u8 list set" where
  "indexed_keys en h es = set (List.map_filter (\<lambda>e. get_secure_hardware_key en h (de_path e)) es)"

lemma indexed_keys_simps [simp]:
  "indexed_keys en h [] = {}"
  "indexed_keys en h (e # es) =
     set_option (get_secure_hardware_key en h (de_path e)) \<union> indexed_keys en h es"
  "indexed_keys en h (es @ es') = indexed_keys en h es \<union> indexed_keys en h es'"
  by (auto simp: indexed_keys_def List.map_filter_def split: option.splits)

lemma index_entries_room:
  assumes "bpf_room_ok api n" "finite (map_keys api m)"
    "card (map_keys api m) + length (filter (is_match ty) es) \<le> n"
  shows "\<exists>m'. index_entries en h api ty es m = (Inr (), m') \<and> finite (map_keys api m') \<and>
    card (map_keys api m') \<le> card (map_keys api m) + length (filter (is_match ty) es) \<and>
    map_keys api m' = map_keys api m \<union> indexed_keys en h (filter (is_match ty) es)"
  using assms(2,3)
proof (induction es arbitrary: m)
  case Nil
  then show ?case by simp
next
  case (Cons e es)
  show ?case
  proof (cases "is_match ty e \<and> get_secure_hardware_key en h (de_path e) \<noteq> None")
    case False
    with Cons.IH [of m] Cons.prems show ?thesis by (cases "is_match ty e") (force split: option.splits)+
  next
    case True
    then obtain k where k: "is_match ty e" "get_secure_hardware_key en h (de_path e) = Some k" by auto
    with Cons.prems have "k \<in> map_keys api m \<or> card (map_keys api m) < n" by simp
    then obtain m1 where "map_update api k protected_value m = Inr m1"
      "map_keys api m1 = insert k (map_keys api m)"
      "finite (map_keys api m1)" "card (map_keys api m1) \<le> Suc (card (map_keys api m))"
      by (rule map_update_room [OF assms(1) Cons.prems(1)])
    with Cons.IH [of m1] Cons.prems k show ?thesis by fastforce
  qed
qed

lemma matches_simps [simp]:
  "matches h [] ty ig al = []"
  "matches h (p # ps) ty ig al = filter (is_match ty) (walked h ig al p) @ matches h ps ty ig al"
  by (simp_all add: matches_def)

lemma capacity_enough:
  assumes "length (matches h paths ty ig al) < 2 ^ 31"
  shows "length (matches h paths ty ig al) \<le> unat (calculate_dynamic_capacity h paths ty mn ig al)"
proof -
  have "n \<le> 5 * n div 4" for n :: nat by simp
  then show ?thesis unfolding capacity_exact [OF assms] by (rule max.coboundedI1)
qed

text \<open>With room for every match nothing is evicted, and no readable matching entry is left out.\<close>

lemma populate_room:
  assumes "bpf_room_ok api n" "finite (map_keys api m)"
    "card (map_keys api m) + length (matches h paths ty ig al) \<le> n"
  shows "\<exists>out m'. populate_map_from_paths en h api paths ty ig al slug m = (out, Inr (), m') \<and>
    map_keys api m' = map_keys api m \<union> indexed_keys en h (matches h paths ty ig al)"
  using assms(2,3)
proof (induction paths arbitrary: m)
  case Nil
  then show ?case by simp
next
  case (Cons p ps)
  from Cons.prems obtain m1 where
    one: "index_entries en h api ty (walked h ig al p) m = (Inr (), m1)" and
    fin: "finite (map_keys api m1)" and
    card: "card (map_keys api m1) \<le> card (map_keys api m) + length (filter (is_match ty) (walked h ig al p))" and
    keys: "map_keys api m1 = map_keys api m \<union> indexed_keys en h (filter (is_match ty) (walked h ig al p))"
    using index_entries_room [OF assms(1), of m ty "walked h ig al p" en h] by auto
  from card Cons.prems obtain out m' where
    "populate_map_from_paths en h api ps ty ig al slug m1 = (out, Inr (), m')"
    "map_keys api m' = map_keys api m1 \<union> indexed_keys en h (matches h ps ty ig al)"
    using Cons.IH [OF fin] by auto
  with one keys show ?case by (auto simp: Let_def)
qed

text \<open>The capacity computed before the map is loaded is enough to populate it afterwards.\<close>

lemma populate_fits:
  assumes "bpf_room_ok api (unat (calculate_dynamic_capacity h paths ty mn ig al))"
    and "length (matches h paths ty ig al) < 2 ^ 31" and "map_keys api m = {}"
  shows "\<exists>out m'. populate_map_from_paths en h api paths ty ig al slug m = (out, Inr (), m') \<and>
    map_keys api m' = indexed_keys en h (matches h paths ty ig al)"
  using populate_room [OF assms(1), of m h paths ty ig al en slug] capacity_enough [OF assms(2)] assms(3) by auto

section \<open>Population by extended attribute\<close>

definition opted_keys :: "endian \<Rightarrow> host \<Rightarrow> rstr \<Rightarrow> dirent list \<Rightarrow> u8 list set" where
  "opted_keys en h xname es = generate_hardware_key en ` set (List.map_filter (opted_in h xname) es)"

lemma opted_keys_simps [simp]:
  "opted_keys en h x [] = {}"
  "opted_keys en h x (e # es) =
     generate_hardware_key en ` set_option (opted_in h x e) \<union> opted_keys en h x es"
  "opted_keys en h x (es @ es') = opted_keys en h x es \<union> opted_keys en h x es'"
  by (auto simp: opted_keys_def List.map_filter_def image_Un split: option.splits)

lemma opted_in_file: "opted_in h x e = Some md \<Longrightarrow> is_match EtFile e"
  by (simp add: opted_in_def is_match_def split: if_splits)

lemma index_xattr_sound:
  assumes "bpf_hash_ok api n" "index_xattr en h api mname xname slug es m = (out, Inr u, m')"
  shows "map_lookup api k m' =
    (if k \<in> opted_keys en h xname es then Some protected_value else map_lookup api k m)"
  using assms(2)
proof (induction es arbitrary: m out)
  case Nil
  then show ?case by simp
next
  case (Cons e es)
  show ?case
  proof (cases "opted_in h xname e")
    case None
    with Cons show ?thesis by simp
  next
    case (Some md)
    with Cons.prems obtain m1 out1 where m1: "map_update api (generate_hardware_key en md) protected_value m = Inr m1"
      and two: "index_xattr en h api mname xname slug es m1 = (out1, Inr u, m')"
      by (auto split: sum.splits prod.splits)
    from Some show ?thesis
      using map_update_lookup [OF assms(1) m1, of k] Cons.IH [OF two] by auto
  qed
qed

lemma index_xattr_room:
  assumes "bpf_hash_ok api n" "finite (map_keys api m)"
    "card (map_keys api m) + length (filter (is_match EtFile) es) \<le> n"
  shows "\<exists>out m'. index_xattr en h api mname xname slug es m = (out, Inr (), m') \<and>
    finite (map_keys api m') \<and>
    card (map_keys api m') \<le> card (map_keys api m) + length (filter (is_match EtFile) es)"
  using assms(2,3)
proof (induction es arbitrary: m)
  case Nil
  then show ?case by simp
next
  case (Cons e es)
  show ?case
  proof (cases "opted_in h xname e")
    case None
    with Cons.IH [of m] Cons.prems show ?thesis by (cases "is_match EtFile e") force+
  next
    case (Some md)
    then have isf: "is_match EtFile e" by (rule opted_in_file)
    with Cons.prems have "generate_hardware_key en md \<in> map_keys api m \<or> card (map_keys api m) < n" by simp
    then obtain m1 where "map_update api (generate_hardware_key en md) protected_value m = Inr m1"
      "finite (map_keys api m1)" "card (map_keys api m1) \<le> Suc (card (map_keys api m))"
      by (rule map_update_room [OF bpf_hash_room [OF assms(1)] Cons.prems(1)])
    with Cons.IH [of m1] Cons.prems isf Some show ?thesis by fastforce
  qed
qed

lemma walked_unfiltered:
  "walked h False al path = List.map_filter id (walk h (build_secure_walker path) (\<lambda>_. True))"
proof -
  have "visible_entry False al = (\<lambda>_. True)" by (simp add: visible_entry_def fun_eq_iff)
  then show ?thesis by (simp add: walked_def)
qed

lemma populate_xattr_sound:
  assumes "bpf_hash_ok api n" "populate_map_from_xattr en h api mname paths xname slug m = (out, Inr u, m')"
  shows "map_lookup api k m' =
    (if k \<in> opted_keys en h xname (concat (map (walked h False []) paths)) then Some protected_value
     else map_lookup api k m)"
  using assms(2)
proof (induction paths arbitrary: m out)
  case Nil
  then show ?case by simp
next
  case (Cons p ps)
  from Cons.prems obtain m1 out1 out2 where
    one: "index_xattr en h api mname xname slug (walked h False [] p) m = (out1, Inr (), m1)" and
    two: "populate_map_from_xattr en h api mname ps xname slug m1 = (out2, Inr u, m')"
    by (auto simp: Let_def walked_unfiltered split: prod.splits sum.splits)
  show ?case using index_xattr_sound [OF assms(1) one, of k] Cons.IH [OF two] by auto
qed

lemma populate_xattr_room:
  assumes "bpf_hash_ok api n" "finite (map_keys api m)"
    "card (map_keys api m) + length (matches h paths EtFile False []) \<le> n"
  shows "\<exists>out m'. populate_map_from_xattr en h api mname paths xname slug m = (out, Inr (), m')"
  using assms(2,3)
proof (induction paths arbitrary: m)
  case Nil
  then show ?case by simp
next
  case (Cons p ps)
  from Cons.prems obtain m1 out where
    one: "index_xattr en h api mname xname slug (walked h False [] p) m = (out, Inr (), m1)" and
    fin: "finite (map_keys api m1)" and
    card: "card (map_keys api m1) \<le> card (map_keys api m) + length (filter (is_match EtFile) (walked h False [] p))"
    using index_xattr_room [OF assms(1), of m "walked h False [] p" en h mname xname slug] by auto
  from card Cons.prems obtain out2 m' where
    "populate_map_from_xattr en h api mname ps xname slug m1 = (out2, Inr (), m')"
    using Cons.IH [OF fin] by auto
  with one show ?case by (simp add: Let_def walked_unfiltered [of h "[]"])
qed

lemma populate_xattr_fits:
  assumes "bpf_hash_ok api (unat (calculate_dynamic_capacity h paths EtFile mn False []))"
    and "length (matches h paths EtFile False []) < 2 ^ 31" and "map_keys api m = {}"
  obtains out m' where "populate_map_from_xattr en h api mname paths xname slug m = (out, Inr (), m')"
    and "map_keys api m' = opted_keys en h xname (concat (map (walked h False []) paths))"
proof -
  from assms obtain out m' where
    run: "populate_map_from_xattr en h api mname paths xname slug m = (out, Inr (), m')"
    using populate_xattr_room [OF assms(1), of m h paths en mname xname slug] capacity_enough [OF assms(2)] by auto
  have "map_keys api m' = opted_keys en h xname (concat (map (walked h False []) paths))"
    using populate_xattr_sound [OF assms(1) run] assms(3) by (auto simp: map_keys_def)
  with run that show thesis by blast
qed

section \<open>Keys of a fixed list of paths\<close>

definition path_keys :: "endian \<Rightarrow> host \<Rightarrow> rstr list \<Rightarrow> u8 list set" where
  "path_keys en h paths = set (List.map_filter (get_secure_hardware_key en h) paths)"

lemma path_keys_simps [simp]:
  "path_keys en h [] = {}"
  "path_keys en h (p # ps) = set_option (get_secure_hardware_key en h p) \<union> path_keys en h ps"
  by (auto simp: path_keys_def List.map_filter_def split: option.splits)

lemma path_keys_empty_iff:
  "path_keys en h ps = {} \<longleftrightarrow> (\<forall>p \<in> set ps. get_secure_hardware_key en h p = None)"
  by (induction ps) auto

section \<open>Properties\<close>

text \<open>
  C27: a watchlist map, hashed or LRU, that was empty and was loaded with the capacity
  computed by the first walk is populated completely by the second walk of the same file
  system: no update fails, nothing is evicted, and the map holds the hardware key of every
  matching entry that can be opened and nothing else (for fewer than 2^31 matching entries).
\<close>

theorem watchlist_fits:
  assumes "bpf_room_ok api (unat (calculate_dynamic_capacity h paths ty mn ig al))"
    and "length (matches h paths ty ig al) < 2 ^ 31" and "map_keys api m = {}"
  shows "\<exists>out m'. populate_map_from_paths en h api paths ty ig al slug m = (out, Inr (), m') \<and>
    map_keys api m' = indexed_keys en h (matches h paths ty ig al)"
  by (rule populate_fits [OF assms, of en slug])

definition demo_file :: "rstr \<Rightarrow> dirent" where
  "demo_file p = \<lparr>de_path = p, de_name = map of_nat p, de_type = FtFile\<rparr>"

definition demo_host :: host where
  "demo_host =
     \<lparr>walk = (\<lambda>wo P. map Some (filter P [demo_file (wo_path wo @ str ''/a''), demo_file (wo_path wo @ str ''/b'')])),
      openat = (\<lambda>_ p. Some \<lparr>of_meta = Some \<lparr>md_ino = of_nat (length p), md_dev = 2050\<rparr>,
                   of_xattr = (\<lambda>_. Some (Some [49]))\<rparr>),
      read_to_string = (\<lambda>_. None), parse_toml = (\<lambda>_. None)\<rparr>"

lemma demo_matches:
  "matches demo_host [str ''/opt''] EtFile False [] = [demo_file (str ''/opt/a''), demo_file (str ''/opt/b'')]"
  by (simp add: matches_def walked_def demo_host_def demo_file_def visible_entry_def is_match_def
      build_secure_walker_def List.map_filter_def str_def)

text \<open>On an LRU map, as \<open>protected_dirs\<close> is.\<close>

theorem watchlist_fits_witness:
  "\<exists>out m'. populate_map_from_paths Little demo_host
      (lru_map (unat (calculate_dynamic_capacity demo_host [str ''/opt''] EtFile 2048 False [])))
      [str ''/opt''] EtFile False [] (str ''exec_block'') [] = (out, Inr (), m') \<and>
    map_keys (lru_map (unat (calculate_dynamic_capacity demo_host [str ''/opt''] EtFile 2048 False []))) m' =
      indexed_keys Little demo_host [demo_file (str ''/opt/a''), demo_file (str ''/opt/b'')]"
proof -
  let ?n = "unat (calculate_dynamic_capacity demo_host [str ''/opt''] EtFile 2048 False [])"
  have "map_keys (lru_map ?n) [] = {}" by (simp add: lru_map_keys newest_def)
  moreover have "2 \<le> ?n"
    using capacity_enough [of demo_host "[str ''/opt'']" EtFile False "[]" 2048] demo_matches by simp
  then have "bpf_room_ok (lru_map ?n) ?n" by (intro bpf_lru_room lru_map_ok) simp
  ultimately show ?thesis
    using watchlist_fits [of "lru_map ?n" demo_host "[str ''/opt'']" EtFile 2048 False "[]" "[]" Little
        "str ''exec_block''"] demo_matches by simp
qed

text \<open>
  The same for the opt-in watchlists: with the capacity of the first walk, every file
  that carries the attribute with the value 1 is whitelisted, and nothing else.
\<close>

theorem xattr_watchlist_fits:
  assumes "bpf_hash_ok api (unat (calculate_dynamic_capacity h paths EtFile mn False []))"
    and "length (matches h paths EtFile False []) < 2 ^ 31" and "map_keys api m = {}"
  shows "\<exists>out m'. populate_map_from_xattr en h api mname paths xname slug m = (out, Inr (), m') \<and>
    map_keys api m' = opted_keys en h xname (concat (map (walked h False []) paths))"
  by (rule populate_xattr_fits [OF assms, of en mname xname slug]) blast

theorem xattr_watchlist_fits_witness:
  "\<exists>out m'. populate_map_from_xattr Little demo_host
      (hash_map (unat (calculate_dynamic_capacity demo_host [str ''/opt''] EtFile 2048 False [])))
      (str ''strict_wx_binaries'') [str ''/opt''] (str ''user.bouclier.strict_wx'') (str ''strict_wx'') [] =
      (out, Inr (), m')"
proof -
  have "map_keys (hash_map n) [] = {}" for n by (simp add: map_keys_def hash_map_def)
  then show ?thesis
    using xattr_watchlist_fits [OF hash_map_ok, of demo_host "[str ''/opt'']"] demo_matches by fastforce
qed

text \<open>
  On devices whose numbers fit the kernel's representation (12 bits of major, 20 of
  minor), two files have the same hardware key exactly when they have the same inode and
  the same device.
\<close>

theorem hardware_key_identifies:
  assumes "M < 2 ^ 12" "m < 2 ^ 20" "M' < 2 ^ 12" "m' < 2 ^ 20"
    and "md_dev a = gnu_dev_makedev M m" and "md_dev b = gnu_dev_makedev M' m'"
  shows "generate_hardware_key en a = generate_hardware_key en b \<longleftrightarrow> md_ino a = md_ino b \<and> M = M' \<and> m = m'"
  using kernel_dev_inj [OF assms(1-4)] assms(5,6) by (auto simp: hardware_key_inj)

theorem hardware_key_identifies_witness:
  "generate_hardware_key Little \<lparr>md_ino = 42, md_dev = gnu_dev_makedev 8 1\<rparr> \<noteq>
   generate_hardware_key Little \<lparr>md_ino = 42, md_dev = gnu_dev_makedev 8 2\<rparr>"
  using hardware_key_identifies [of 8 1 8 2 "\<lparr>md_ino = 42, md_dev = gnu_dev_makedev 8 1\<rparr>"
      "\<lparr>md_ino = 42, md_dev = gnu_dev_makedev 8 2\<rparr>" Little] by simp

end
