(* ===== verification/BB_Security_Module.thy ===== *)
theory BB_Security_Module
  imports BB_Bpf_Reader BB_Siem BB_Fs_Utils
begin

text \<open>
  The \<open>SecurityModule\<close> and \<open>MapProvider\<close> traits (\<open>modules/src/common/traits.rs\<close>) and
  the macro \<open>define_security_module!\<close> (\<open>modules/src/common/macros.rs\<close>) that generates
  every implementation: a \<open>module_spec\<close> holds the macro's arguments, \<open>new_module\<close> is the
  object it yields, and \<open>status\<close>, \<open>toggle\<close>, \<open>process_event\<close>, \<open>map_capacities\<close> and
  \<open>init_module\<close> are the trait's methods. The locale \<open>map_provider_contract\<close> states what
  a provider of maps promises, the locale \<open>event_module\<close> what a module whose parser
  keeps the contract of \<open>alert_parser\<close> does with an event.
\<close>

section \<open>Map providers\<close>

text \<open>
  \<open>get_map\<close> hands out a handle through which the kernel's map is written; \<open>mp_store\<close> is
  that write, as seen by the provider's later calls.
\<close>

record ('m, 'p) map_provider =
  mp_get_map :: "rstr \<Rightarrow> 'p \<Rightarrow> rstr + 'm"
  mp_store :: "rstr \<Rightarrow> 'm \<Rightarrow> 'p \<Rightarrow> 'p"

locale map_provider_contract =
  fixes prov :: "('m, 'p) map_provider"
  assumes get_store: "mp_get_map prov n p = Inr m0 \<Longrightarrow> mp_get_map prov n (mp_store prov n m p) = Inr m"
    and get_store_other:
      "n' \<noteq> n \<Longrightarrow> mp_get_map prov n' (mp_store prov n m p) = mp_get_map prov n' p"
begin

lemma get_store_error:
  "mp_get_map prov n p = Inr m0 \<Longrightarrow>
   (\<exists>e. mp_get_map prov n' (mp_store prov n m p) = Inl e) \<longleftrightarrow> (\<exists>e. mp_get_map prov n' p = Inl e)"
proof (cases "n' = n")
  case True
  assume "mp_get_map prov n p = Inr m0"
  with True show ?thesis using get_store [of n p m0 m] by simp
next
  case False
  then show ?thesis by (simp add: get_store_other)
qed

end

section \<open>The macro's arguments\<close>

type_synonym capacities = "(rstr \<times> u32) list"

record xattr_watchlist =
  xw_map_name :: rstr
  xw_attribute :: rstr
  xw_target_paths :: "rstr list"

record dynamic_watchlist =
  dw_map_name :: rstr
  dw_target_paths :: "rstr list"
  dw_entry_type :: entry_type
  dw_min_capacity :: u32
  dw_ignore_hidden :: bool
  dw_allow_hidden :: "rstr list"

text \<open>What an initialisation closure is run with.\<close>

record ('m, 'p) init_ctx =
  su_endian :: endian
  su_host :: host
  su_api :: "'m bpf_api"
  su_provider :: "('m, 'p) map_provider"

type_synonym ('m, 'p) init_fun = "('m, 'p) init_ctx \<Rightarrow> 'p \<Rightarrow> effect list \<times> (rstr + unit) \<times> 'p"

text \<open>\<open>ms_fields\<close> is the derived \<open>Serialize\<close> of the alert.\<close>

record ('a, 'g, 'm, 'p) module_spec =
  ms_name :: rstr
  ms_slug :: rstr
  ms_mitre :: "rstr list"
  ms_parser :: "endian \<Rightarrow> u8 list \<Rightarrow> 'a io"
  ms_fields :: "'a \<Rightarrow> json_fields"
  ms_handler :: "event_env \<Rightarrow> 'a \<Rightarrow> 'g \<Rightarrow> effect list \<times> 'g"
  ms_xattr :: "xattr_watchlist option"
  ms_dynamic :: "dynamic_watchlist option"
  ms_capacities :: "(host \<Rightarrow> effect list \<times> capacities) option"
  ms_init :: "('m, 'p) init_fun option"

section \<open>The generated methods\<close>

text \<open>
  The object: the flag \<open>is_active\<close> and the code the macro fixed. \<open>sm_event\<close> is the part
  of \<open>process_event\<close> behind its guard. The flag is an atomic; the sources read it with
  relaxed ordering and write it with sequential consistency, and a model of interleaved
  steps sees either value.
\<close>

record ('g, 'm, 'p) security_module =
  sm_name :: rstr
  sm_slug :: rstr
  is_active :: bool
  sm_event :: "endian \<Rightarrow> event_env \<Rightarrow> u8 list \<Rightarrow> 'g \<Rightarrow> effect list \<times> unit result \<times> 'g"
  sm_map_capacities :: "host \<Rightarrow> effect list \<times> capacities"
  sm_init :: "('m, 'p) init_fun"

definition parse_failure :: "rstr \<Rightarrow> rstr \<Rightarrow> effect" where
  "parse_failure slug e =
     Stderr (str ''Bouclier Bleu [Error]: '' @ slug @ str '' failed to parse kernel event: '' @ e)"

definition module_event ::
    "('a, 'g globals_scheme, 'm, 'p) module_spec \<Rightarrow> endian \<Rightarrow> event_env \<Rightarrow> u8 list \<Rightarrow>
     'g globals_scheme \<Rightarrow> effect list \<times> unit result \<times> 'g globals_scheme" where
  "module_event spec en env event_data g =
     (case ms_parser spec en event_data of
        (w, Inr alert) \<Rightarrow>
          (case emit_siem_event env (ms_slug spec) (ms_mitre spec) (ms_fields spec alert) g of
             (e1, g1) \<Rightarrow>
               (case ms_handler spec env alert g1 of
                  (e2, g2) \<Rightarrow> (w @ e1 @ e2, Inr (), g2)))
      | (w, Inl (Fail e)) \<Rightarrow> (w @ [parse_failure (ms_slug spec) e], Inr (), g)
      | (w, Inl Panic) \<Rightarrow> (w, Inl Panic, g))"

text \<open>\<open>HashMap::insert\<close> and \<open>extend\<close>: a key is there once, with the last value.\<close>

definition extend_caps :: "capacities \<Rightarrow> capacities \<Rightarrow> capacities" where
  "extend_caps caps new = fold (\<lambda>(k, v) c. AList.update k v c) new caps"

definition module_map_capacities ::
    "('a, 'g, 'm, 'p) module_spec \<Rightarrow> host \<Rightarrow> effect list \<times> capacities" where
  "module_map_capacities spec h =
     (let caps = (case ms_xattr spec of
                    None \<Rightarrow> []
                  | Some x \<Rightarrow>
                      AList.update (xw_map_name x)
                        (calculate_dynamic_capacity h (xw_target_paths x) EtFile 2048 False []) []);
          caps1 = (case ms_dynamic spec of
                     None \<Rightarrow> caps
                   | Some d \<Rightarrow>
                       AList.update (dw_map_name d)
                         (calculate_dynamic_capacity h (dw_target_paths d) (dw_entry_type d)
                            (dw_min_capacity d) (dw_ignore_hidden d) (dw_allow_hidden d)) caps)
      in case ms_capacities spec of
           None \<Rightarrow> ([], caps1)
         | Some closure \<Rightarrow> (case closure h of (out, new) \<Rightarrow> (out, extend_caps caps1 new)))"

definition init_xattr ::
    "rstr \<Rightarrow> xattr_watchlist option \<Rightarrow> ('m, 'p) init_fun" where
  "init_xattr slug xw su p =
     (case xw of
        None \<Rightarrow> ([], Inr (), p)
      | Some x \<Rightarrow>
          (case mp_get_map (su_provider su) (xw_map_name x) p of
             Inl e \<Rightarrow> ([], Inl e, p)
           | Inr m \<Rightarrow>
               (case populate_map_from_xattr (su_endian su) (su_host su) (su_api su) (xw_map_name x)
                       (xw_target_paths x) (xw_attribute x) slug m of
                  (out, r, m') \<Rightarrow> (out, r, mp_store (su_provider su) (xw_map_name x) m' p))))"

definition init_dynamic ::
    "rstr \<Rightarrow> dynamic_watchlist option \<Rightarrow> ('m, 'p) init_fun" where
  "init_dynamic slug dw su p =
     (case dw of
        None \<Rightarrow> ([], Inr (), p)
      | Some d \<Rightarrow>
          (case mp_get_map (su_provider su) (dw_map_name d) p of
             Inl e \<Rightarrow> ([], Inl e, p)
           | Inr m \<Rightarrow>
               (case populate_map_from_paths (su_endian su) (su_host su) (su_api su)
                       (dw_target_paths d) (dw_entry_type d) (dw_ignore_hidden d)
                       (dw_allow_hidden d) slug m of
                  (out, r, m') \<Rightarrow> (out, r, mp_store (su_provider su) (dw_map_name d) m' p))))"

text \<open>Sequencing with \<open>?\<close>: the second step runs only after the first succeeded.\<close>

definition then_init :: "('m, 'p) init_fun \<Rightarrow> ('m, 'p) init_fun \<Rightarrow> ('m, 'p) init_fun" where
  "then_init f k su p =
     (case f su p of
        (out, Inl e, p1) \<Rightarrow> (out, Inl e, p1)
      | (out, Inr _, p1) \<Rightarrow> (case k su p1 of (out2, r, p2) \<Rightarrow> (out @ out2, r, p2)))"

definition no_init :: "('m, 'p) init_fun" where
  "no_init su p = ([], Inr (), p)"

definition module_init :: "('a, 'g, 'm, 'p) module_spec \<Rightarrow> ('m, 'p) init_fun" where
  "module_init spec =
     then_init (init_xattr (ms_slug spec) (ms_xattr spec))
       (then_init (init_dynamic (ms_slug spec) (ms_dynamic spec))
          (case ms_init spec of None \<Rightarrow> no_init | Some closure \<Rightarrow> closure))"

text \<open>\<open>new()\<close>: every module starts inactive.\<close>

definition new_module ::
    "('a, 'g globals_scheme, 'm, 'p) module_spec \<Rightarrow> ('g globals_scheme, 'm, 'p) security_module" where
  "new_module spec =
     \<lparr>sm_name = ms_name spec, sm_slug = ms_slug spec, is_active = False,
      sm_event = module_event spec, sm_map_capacities = module_map_capacities spec,
      sm_init = module_init spec\<rparr>"

section \<open>The trait's methods on an object\<close>

definition status :: "('g, 'm, 'p) security_module \<Rightarrow> bool" where
  "status m = is_active m"

definition toggle_line :: "rstr \<Rightarrow> bool \<Rightarrow> effect" where
  "toggle_line slug b =
     Stdout (str ''Bouclier Bleu [Control]: '' @ slug @ str '' active state -> '' @ show_bool b)"

definition toggle ::
    "bool \<Rightarrow> ('g, 'm, 'p) security_module \<Rightarrow> effect list \<times> ('g, 'm, 'p) security_module" where
  "toggle b m = ([toggle_line (sm_slug m) b], m\<lparr>is_active := b\<rparr>)"

definition process_event ::
    "('g, 'm, 'p) security_module \<Rightarrow> endian \<Rightarrow> event_env \<Rightarrow> u8 list \<Rightarrow> 'g \<Rightarrow>
     effect list \<times> unit result \<times> 'g" where
  "process_event m en env event_data g =
     (if \<not> status m then ([], Inr (), g) else sm_event m en env event_data g)"

definition map_capacities :: "('g, 'm, 'p) security_module \<Rightarrow> host \<Rightarrow> effect list \<times> capacities" where
  "map_capacities m = sm_map_capacities m"

definition init_module :: "('g, 'm, 'p) security_module \<Rightarrow> ('m, 'p) init_fun" where
  "init_module m = sm_init m"

section \<open>What the methods guarantee\<close>

lemma new_module_inactive [simp]: "status (new_module spec) = False"
  by (simp add: status_def new_module_def)

lemma new_module_simps [simp]:
  "sm_name (new_module spec) = ms_name spec" "sm_slug (new_module spec) = ms_slug spec"
  "sm_event (new_module spec) = module_event spec"
  "sm_map_capacities (new_module spec) = module_map_capacities spec"
  "sm_init (new_module spec) = module_init spec"
  by (simp_all add: new_module_def)

lemma process_event_inactive: "\<not> status m \<Longrightarrow> process_event m en env d g = ([], Inr (), g)"
  by (simp add: process_event_def)

lemma toggle_simps [simp]:
  "status (snd (toggle b m)) = b"
  "sm_slug (snd (toggle b m)) = sm_slug m"
  "sm_event (snd (toggle b m)) = sm_event m"
  by (simp_all add: toggle_def status_def)

text \<open>
  The toggled object is the object with its flag set: everything else the macro fixed is
  unchanged, so the last toggle wins.
\<close>

lemma toggle_toggle: "snd (toggle c (snd (toggle b m))) = snd (toggle c m)"
  by (simp add: toggle_def)

text \<open>A module whose parser keeps the parser contract, on an event.\<close>

locale event_module = alert_parser "ms_parser spec en" min_size view warnings
  for spec :: "('a, 'g globals_scheme, 'm, 'p) module_spec"
    and en :: endian
    and min_size :: nat
    and view :: "u8 list \<Rightarrow> 'a"
    and warnings :: "u8 list \<Rightarrow> effect list"
begin

lemma event_short:
  "length d < min_size \<Longrightarrow>
   module_event spec en env d g = ([parse_failure (ms_slug spec) min_size_error], Inr (), g)"
  by (simp add: module_event_def parse_short fail_def)

lemma event_full:
  "min_size \<le> length d \<Longrightarrow>
   module_event spec en env d g =
     (case emit_siem_event env (ms_slug spec) (ms_mitre spec) (ms_fields spec (view d)) g of
        (e1, g1) \<Rightarrow>
          (case ms_handler spec env (view d) g1 of (e2, g2) \<Rightarrow> (warnings d @ e1 @ e2, Inr (), g2)))"
  by (simp add: module_event_def parse_full)

lemma event_no_panic: "fst (snd (module_event spec en env d g)) = Inr ()"
  by (cases "length d < min_size") (simp_all add: event_short event_full split: prod.splits)

lemma event_ignores_tail:
  "min_size \<le> length d \<Longrightarrow> module_event spec en env (d @ x) g = module_event spec en env d g"
  by (simp add: event_full view_prefix warnings_prefix)

text \<open>Through the object, for either state of the flag.\<close>

lemma process_no_panic:
  "sm_event m = module_event spec \<Longrightarrow> fst (snd (process_event m en env d g)) = Inr ()"
  using event_no_panic by (simp add: process_event_def)

end

subsection \<open>Initialisation\<close>

lemma then_init_Inr:
  "then_init f k su p = (out, Inr u, p2) \<longleftrightarrow>
     (\<exists>o1 p1 o2. f su p = (o1, Inr (), p1) \<and> k su p1 = (o2, Inr u, p2) \<and> out = o1 @ o2)"
  by (auto simp: then_init_def split: prod.splits sum.splits)

lemma then_init_Inl:
  "f su p = (out, Inl e, p1) \<Longrightarrow> then_init f k su p = (out, Inl e, p1)"
  by (simp add: then_init_def)

context map_provider_contract
begin

lemma init_xattr_complete:
  assumes "su_provider su = prov" and "bpf_hash_ok (su_api su) n"
    and "init_xattr slug (Some x) su p = (out, Inr u, p')"
  obtains m m' where "mp_get_map prov (xw_map_name x) p = Inr m"
    and "mp_get_map prov (xw_map_name x) p' = Inr m'"
    and "\<And>k. map_lookup (su_api su) k m' =
      (if k \<in> opted_keys (su_endian su) (su_host su) (xw_attribute x)
                (concat (map (walked (su_host su) False []) (xw_target_paths x)))
       then Some protected_value else map_lookup (su_api su) k m)"
proof -
  from assms obtain m m' where m: "mp_get_map prov (xw_map_name x) p = Inr m"
    and run: "populate_map_from_xattr (su_endian su) (su_host su) (su_api su) (xw_map_name x)
                (xw_target_paths x) (xw_attribute x) slug m = (out, Inr u, m')"
    and p': "p' = mp_store prov (xw_map_name x) m' p"
    by (auto simp: init_xattr_def split: sum.splits prod.splits)
  from m p' have "mp_get_map prov (xw_map_name x) p' = Inr m'"
    by (simp add: get_store)
  with m that populate_xattr_sound [OF assms(2) run] show thesis by blast
qed

lemma init_dynamic_complete:
  assumes "su_provider su = prov" and "bpf_room_ok (su_api su) n"
    and "mp_get_map prov (dw_map_name d) p = Inr m" and "map_keys (su_api su) m = {}"
    and "length (matches (su_host su) (dw_target_paths d) (dw_entry_type d)
           (dw_ignore_hidden d) (dw_allow_hidden d)) \<le> n"
  obtains out m' where "init_dynamic slug (Some d) su p = (out, Inr (), mp_store prov (dw_map_name d) m' p)"
    and "mp_get_map prov (dw_map_name d) (mp_store prov (dw_map_name d) m' p) = Inr m'"
    and "map_keys (su_api su) m' = indexed_keys (su_endian su) (su_host su)
           (matches (su_host su) (dw_target_paths d) (dw_entry_type d)
              (dw_ignore_hidden d) (dw_allow_hidden d))"
proof -
  obtain out m' where "populate_map_from_paths (su_endian su) (su_host su) (su_api su) (dw_target_paths d)
        (dw_entry_type d) (dw_ignore_hidden d) (dw_allow_hidden d) slug m = (out, Inr (), m')"
    and keys: "map_keys (su_api su) m' = indexed_keys (su_endian su) (su_host su)
        (matches (su_host su) (dw_target_paths d) (dw_entry_type d) (dw_ignore_hidden d) (dw_allow_hidden d))"
    using populate_room [OF assms(2), of m] assms(4,5) by fastforce
  with assms(1,3) have "init_dynamic slug (Some d) su p = (out, Inr (), mp_store prov (dw_map_name d) m' p)"
    by (simp add: init_dynamic_def)
  moreover have "mp_get_map prov (dw_map_name d) (mp_store prov (dw_map_name d) m' p) = Inr m'"
    using assms(3) by (simp add: get_store)
  ultimately show thesis using keys that by blast
qed

end

end
