(* ===== verification/BB_Exec_Block.thy ===== *)
theory BB_Exec_Block
  imports BB_Security_Module
begin

text \<open>
  \<open>modules/src/exec_block.rs\<close>: the alert of the untrusted-path execution hook, its parser
  with the kernel's layout, the handler and the module.
\<close>

record exec_alert =
  exec_pid :: u32
  exec_path :: rstr

definition exec_try_from_bytes :: "endian \<Rightarrow> u8 list \<Rightarrow> exec_alert io" where
  "exec_try_from_bytes en d =
     (if length d < 4100 then fail min_size_error
      else bind_io (read_u32 en (reader_new d)) (\<lambda>(pid, r).
           bind_io (read_string 4096 r) (\<lambda>(path, r).
           ret \<lparr>exec_pid = pid, exec_path = path\<rparr>)))"

definition exec_fields :: "exec_alert \<Rightarrow> json_fields" where
  "exec_fields a = [(str ''pid'', JNum (unat (exec_pid a))), (str ''path'', JStr (exec_path a))]"

definition exec_handler :: "event_env \<Rightarrow> exec_alert \<Rightarrow> 'g \<Rightarrow> effect list \<times> 'g" where
  "exec_handler env a g =
     ([Stdout (str ''Bouclier Bleu [BLOCK]: PID '' @ show_u32 (exec_pid a)
         @ str '' attempted execution from protected path: '' @ exec_path a)], g)"

definition exec_block_spec :: "(exec_alert, 'g globals_scheme, 'm, 'p) module_spec" where
  "exec_block_spec =
     \<lparr>ms_name = str ''Untrusted Path Execution Prevention'', ms_slug = str ''exec_block'',
      ms_mitre = [str ''T1620'', str ''T1027.002''],
      ms_parser = exec_try_from_bytes, ms_fields = exec_fields, ms_handler = exec_handler,
      ms_xattr = None,
      ms_dynamic = Some
        \<lparr>dw_map_name = str ''protected_dirs'',
         dw_target_paths = [str ''/tmp'', str ''/var/tmp'', str ''/dev/shm'', str ''/var/crash'',
           str ''/dev/mqueue'', str ''/run/user''],
         dw_entry_type = EtDirectory, dw_min_capacity = 8192, dw_ignore_hidden = False,
         dw_allow_hidden = []\<rparr>,
      ms_capacities = None, ms_init = None\<rparr>"

section \<open>The parser against the kernel's layout\<close>

definition exec_view :: "endian \<Rightarrow> u8 list \<Rightarrow> exec_alert" where
  "exec_view en d = \<lparr>exec_pid = u32_field en 0 d, exec_path = cstr_field 4 4096 d\<rparr>"

definition exec_warnings :: "u8 list \<Rightarrow> effect list" where
  "exec_warnings d = cstr_warnings 4 4096 d"

text \<open>\<open>struct exec_alert\<close> of \<open>bpf/exec_block.bpf.c\<close>.\<close>

record exec_struct =
  xs_pid :: u32
  xs_path :: "u8 list"

definition exec_image :: "endian \<Rightarrow> exec_struct \<Rightarrow> u8 list" where
  "exec_image en c =
     u32_to_ne_bytes en (xs_pid c) @ xs_path c"

definition exec_sized :: "exec_struct \<Rightarrow> bool" where
  "exec_sized c \<longleftrightarrow> length (xs_path c) = 4096"

definition exec_meaning :: "exec_struct \<Rightarrow> exec_alert" where
  "exec_meaning c =
     \<lparr>exec_pid = xs_pid c,
      exec_path = shown (c_string (xs_path c))\<rparr>"

definition exec_grumbles :: "exec_struct \<Rightarrow> effect list" where
  "exec_grumbles c = noise (c_string (xs_path c))"

interpretation exec_layout: alert_layout "exec_try_from_bytes en" 4100 "exec_view en" exec_warnings
  "exec_image en" exec_sized exec_meaning exec_grumbles for en
  by unfold_locales
    (auto simp: exec_try_from_bytes_def exec_view_def exec_warnings_def exec_image_def
      exec_sized_def exec_meaning_def exec_grumbles_def reader_simps field_append layout_simps
      dest!: subsetD [OF noise_stderr])

interpretation exec_events: event_module exec_block_spec en 4100 "exec_view en" exec_warnings for en
  by (simp add: event_module_def exec_block_spec_def exec_layout.alert_parser_axioms)

section \<open>Properties\<close>

text \<open>
  A submitted record of the execution hook, handled by the active module with an open sink,
  is written to the SIEM log first (one line, the enveloped alert) and printed afterwards,
  behind the parser's warning when it replaced characters of the path; no state changes.
\<close>

theorem exec_event_logged:
  assumes "sm_event m = module_event exec_block_spec" and "status m" and "exec_sized c"
    and "g_sink g = Some (Some f)" and "\<not> g_sink_poisoned g" and "write_fault env = None"
    and "to_json env (enveloped_fields
           \<lparr>timestamp_ms = epoch_millis (sys_now_ns env), event_source = str ''exec_block'',
            mitre_techniques = [str ''T1620'', str ''T1027.002''], payload = exec_fields (exec_meaning c)\<rparr>) = Some line"
  shows "process_event m en env (exec_image en c @ x) g =
    (noise (c_string (xs_path c)) @
     [FileLine f line,
      Stdout (str ''Bouclier Bleu [BLOCK]: PID '' @ show_u32 (xs_pid c)
         @ str '' attempted execution from protected path: '' @ shown (c_string (xs_path c)))], Inr (), g)"
  using assms
  by (simp add: process_event_def module_event_def exec_block_spec_def exec_layout.parse_image_append
      emit_siem_event_def get_sink_def exec_handler_def exec_meaning_def exec_grumbles_def Let_def)

definition exec_demo_env :: event_env where
  "exec_demo_env =
     \<lparr>sys_now_ns = 1700000000000000000, to_json = (\<lambda>_. Some (str ''{}'')), write_fault = None,
      instant_now = 0, prune_now = (\<lambda>_. 0), kill_now_ns = 0, processes = []\<rparr>"

definition exec_demo_globals :: globals where
  "exec_demo_globals =
     \<lparr>g_os = quiet_os, g_sink = Some (Some (str ''/var/log/bouclier-bleu/alerts.json'')),
      g_sink_poisoned = False\<rparr>"

definition exec_demo_struct :: exec_struct where
  "exec_demo_struct = \<lparr>xs_pid = 7, xs_path = c_char_array 4096 (str ''/tmp/x'')\<rparr>"

lemma exec_demo_path: "fits_array 4096 (str ''/tmp/x'')"
  by (simp add: fits_array_def printable_def str_def)

theorem exec_event_logged_witness:
  "process_event (snd (toggle True (new_module exec_block_spec))) Little exec_demo_env
     (exec_image Little exec_demo_struct @ []) exec_demo_globals =
   ([FileLine (str ''/var/log/bouclier-bleu/alerts.json'') (str ''{}''),
     Stdout (str ''Bouclier Bleu [BLOCK]: PID '' @ show_u32 7
       @ str '' attempted execution from protected path: '' @ str ''/tmp/x'')],
    Inr (), exec_demo_globals)"
  by (subst exec_event_logged [where f = "str ''/var/log/bouclier-bleu/alerts.json''" and line = "str ''{}''"])
    (simp_all add: exec_sized_def exec_demo_struct_def exec_demo_path shown_literal
      exec_demo_env_def exec_demo_globals_def)

end
