(* ===== verification/BB_Rename_Entropy.thy ===== *)
theory BB_Rename_Entropy
  imports BB_Security_Module
begin

text \<open>
  \<open>modules/src/rename_entropy.rs\<close>: the alert of the rename hook, its parser, the strike
  tracker that correlates violations per parent process, and the eradication of a process
  tree. The lemmas give the kernel layout, the exact set of processes killed, the
  tracker's invariant, and what sequence of events does and does not reach the threshold.
\<close>

section \<open>The alert\<close>

record rename_alert =
  rename_pid :: u32
  rename_ppid :: u32
  rename_full_path :: rstr

definition is_slash :: "rchar \<Rightarrow> bool" where
  "is_slash c \<longleftrightarrow> c = 47"

definition rename_try_from_bytes :: "endian \<Rightarrow> u8 list \<Rightarrow> rename_alert io" where
  "rename_try_from_bytes en d =
     (if length d < 4360 then fail min_size_error
      else bind_io (read_u32 en (reader_new d)) (\<lambda>(pid, r).
           bind_io (read_u32 en r) (\<lambda>(ppid, r).
           bind_io (read_string 4096 r) (\<lambda>(dir_path, r).
           bind_io (read_string 256 r) (\<lambda>(file_name, r).
             let clean_dir = trim_end_by is_slash dir_path;
                 full_path = clean_dir @ str ''/'' @ file_name
             in ret \<lparr>rename_pid = pid, rename_ppid = ppid, rename_full_path = full_path\<rparr>)))))"

definition rename_fields :: "rename_alert \<Rightarrow> json_fields" where
  "rename_fields a =
     [(str ''pid'', JNum (unat (rename_pid a))), (str ''ppid'', JNum (unat (rename_ppid a))),
      (str ''full_path'', JStr (rename_full_path a))]"

section \<open>The strike tracker\<close>

text \<open>Instants and durations are in nanoseconds; \<open>duration_since\<close> saturates at zero.\<close>

record ppid_strike =
  st_count :: u32
  first_strike :: nat

type_synonym tracker = "u32 \<Rightarrow> ppid_strike option"

record tracked = globals +
  g_tracker :: tracker
  g_tracker_poisoned :: bool

definition nanos :: "nat \<Rightarrow> nat" where
  "nanos secs = secs * 1000000000"

definition prune_strikes :: "(u32 \<Rightarrow> nat) \<Rightarrow> tracker \<Rightarrow> tracker" where
  "prune_strikes clock t =
     (\<lambda>p. case t p of
            None \<Rightarrow> None
          | Some strike \<Rightarrow> if clock p - first_strike strike < nanos 5 then Some strike else None)"

text \<open>The window and the threshold: the new tracker, and whether the third strike was reached.\<close>

definition register_strike :: "nat \<Rightarrow> u32 \<Rightarrow> tracker \<Rightarrow> bool \<times> tracker" where
  "register_strike now ppid t =
     (let strike = (case t ppid of Some s \<Rightarrow> s | None \<Rightarrow> \<lparr>st_count = 0, first_strike = now\<rparr>)
      in if now - first_strike strike > nanos 2
         then (False, t(ppid \<mapsto> \<lparr>st_count = 1, first_strike = now\<rparr>))
         else (let strike' = strike\<lparr>st_count := st_count strike + 1\<rparr>
               in if st_count strike' \<ge> 3 then (True, t(ppid := None))
                  else (False, t(ppid \<mapsto> strike'))))"

section \<open>Eradicating a process tree\<close>

definition worker_effects :: "u32 \<Rightarrow> process \<Rightarrow> effect list" where
  "worker_effects target p =
     (if p_parent p = Some target
      then [Kill (p_pid p),
            Stdout (str ''Bouclier Bleu [REMEDIATION]: Collateral worker terminated -> PID: ''
              @ show_u32 (p_pid p))]
      else [])"

definition orchestrator_effects :: "event_env \<Rightarrow> u32 \<Rightarrow> effect list" where
  "orchestrator_effects env target =
     (case List.find (\<lambda>p. p_pid p = target) (processes env) of
        None \<Rightarrow> []
      | Some par \<Rightarrow>
          (let current_epoch = epoch_secs (kill_now_ns env)
           in if p_start_time par > 0 \<and> p_start_time par < current_epoch
              then [Kill (p_pid par)]
              else [Stderr (str ''Bouclier Bleu [WARNING]: Aborted orchestrator termination. PID ''
                      @ show_u32 target @ str '' was recycled.'')]))"

definition neutralize_threat_tree :: "event_env \<Rightarrow> u32 \<Rightarrow> effect list" where
  "neutralize_threat_tree env target_ppid =
     concat (map (worker_effects target_ppid) (processes env)) @ orchestrator_effects env target_ppid"

section \<open>The handler and the module\<close>

text \<open>
  \<open>PoisonError::into_inner\<close> yields the guard and leaves the mutex poisoned, so the
  recovery runs again for every later event.
\<close>

definition lock_tracker :: "'g tracked_scheme \<Rightarrow> effect list \<times> tracker" where
  "lock_tracker g =
     (if g_tracker_poisoned g
      then ([Stderr (str ''Bouclier Bleu [Warning]: Strike tracker mutex was poisoned. Recovering state.'')],
            \<lambda>_. None)
      else ([], g_tracker g))"

definition rename_handler ::
    "event_env \<Rightarrow> rename_alert \<Rightarrow> 'g tracked_scheme \<Rightarrow> effect list \<times> 'g tracked_scheme" where
  "rename_handler env a g =
     (case lock_tracker g of (e0, t0) \<Rightarrow>
      let t1 = prune_strikes (prune_now env) t0;
          now = instant_now env;
          e1 = [Stderr (str ''Bouclier Bleu [FATAL]: PID '' @ show_u32 (rename_pid a)
                  @ str '' triggered ransomware entropy heuristic on target: '' @ rename_full_path a)]
      in case register_strike now (rename_ppid a) t1 of
           (reached, t2) \<Rightarrow>
             (let e2 = (if reached
                        then Stdout (str ''Bouclier Bleu [FATAL]: PPID '' @ show_u32 (rename_ppid a)
                               @ str '' crossed heuristic threshold (3 strikes/2s). Executing tree eradication.'')
                             # neutralize_threat_tree env (rename_ppid a)
                        else [])
              in (e0 @ e1 @ e2, g\<lparr>g_tracker := t2\<rparr>)))"

definition rename_entropy_spec :: "(rename_alert, 'g tracked_scheme, 'm, 'p) module_spec" where
  "rename_entropy_spec =
     \<lparr>ms_name = str ''Ransomware Rename Entropy Monitor'', ms_slug = str ''rename_entropy'',
      ms_mitre = [str ''T1486''],
      ms_parser = rename_try_from_bytes, ms_fields = rename_fields, ms_handler = rename_handler,
      ms_xattr = None,
      ms_dynamic = Some
        \<lparr>dw_map_name = str ''protected_dirs'',
         dw_target_paths = [str ''/home'', str ''/var'', str ''/etc'', str ''/opt''],
         dw_entry_type = EtDirectory, dw_min_capacity = 8192, dw_ignore_hidden = True,
         dw_allow_hidden = [str ''.ssh'', str ''.gnupg'', str ''.aws'', str ''.kube'',
           str ''.docker'', str ''.config'']\<rparr>,
      ms_capacities = None, ms_init = None\<rparr>"

section \<open>The parser against the kernel's layout\<close>

definition rename_view :: "endian \<Rightarrow> u8 list \<Rightarrow> rename_alert" where
  "rename_view en d =
     \<lparr>rename_pid = u32_field en 0 d, rename_ppid = u32_field en 4 d,
      rename_full_path = trim_end_by is_slash (cstr_field 8 4096 d) @ str ''/'' @ cstr_field 4104 256 d\<rparr>"

definition rename_warnings :: "u8 list \<Rightarrow> effect list" where
  "rename_warnings d = cstr_warnings 8 4096 d @ cstr_warnings 4104 256 d"

text \<open>\<open>struct rename_alert\<close> of \<open>bpf/rename_entropy.bpf.c\<close>.\<close>

record rename_struct =
  rs_pid :: u32
  rs_ppid :: u32
  rs_dir_path :: "u8 list"
  rs_file_name :: "u8 list"

definition rename_image :: "endian \<Rightarrow> rename_struct \<Rightarrow> u8 list" where
  "rename_image en c =
     u32_to_ne_bytes en (rs_pid c) @ u32_to_ne_bytes en (rs_ppid c) @ rs_dir_path c @ rs_file_name c"

definition rename_sized :: "rename_struct \<Rightarrow> bool" where
  "rename_sized c \<longleftrightarrow> length (rs_dir_path c) = 4096 \<and> length (rs_file_name c) = 256"

text \<open>The parser joins the two strings, without the slashes the first one ends with.\<close>

definition rename_meaning :: "rename_struct \<Rightarrow> rename_alert" where
  "rename_meaning c =
     \<lparr>rename_pid = rs_pid c, rename_ppid = rs_ppid c,
      rename_full_path = trim_end_by is_slash (shown (c_string (rs_dir_path c))) @ str ''/''
        @ shown (c_string (rs_file_name c))\<rparr>"

definition rename_grumbles :: "rename_struct \<Rightarrow> effect list" where
  "rename_grumbles c = noise (c_string (rs_dir_path c)) @ noise (c_string (rs_file_name c))"

interpretation rename_layout: alert_layout "rename_try_from_bytes en" 4360 "rename_view en" rename_warnings
  "rename_image en" rename_sized rename_meaning rename_grumbles for en
  by unfold_locales
    (auto simp: rename_try_from_bytes_def rename_view_def rename_warnings_def rename_image_def
      rename_sized_def rename_meaning_def rename_grumbles_def reader_simps field_append layout_simps
      dest!: subsetD [OF noise_stderr])

interpretation rename_events: event_module rename_entropy_spec en 4360 "rename_view en" rename_warnings for en
  by (simp add: event_module_def rename_entropy_spec_def rename_layout.alert_parser_axioms)

section \<open>The tracker's invariant\<close>

definition tracker_inv :: "tracker \<Rightarrow> bool" where
  "tracker_inv t \<longleftrightarrow> (\<forall>p s. t p = Some s \<longrightarrow> st_count s = 1 \<or> st_count s = 2)"

lemma tracker_inv_empty [simp]: "tracker_inv (\<lambda>_. None)"
  by (simp add: tracker_inv_def)

lemma prune_strikes_Some:
  "prune_strikes clock t p = Some s \<longleftrightarrow> t p = Some s \<and> clock p - first_strike s < nanos 5"
  by (auto simp: prune_strikes_def split: option.splits)

lemma prune_strikes_inv: "tracker_inv t \<Longrightarrow> tracker_inv (prune_strikes clock t)"
  unfolding tracker_inv_def prune_strikes_Some by blast

lemma register_strike_other:
  "p \<noteq> ppid \<Longrightarrow> snd (register_strike now ppid t) p = t p"
  by (simp add: register_strike_def Let_def)

text \<open>The four outcomes of an event for its own parent process, under the invariant.\<close>

lemma register_strike_cases:
  assumes "tracker_inv t"
  obtains
    (first) "t ppid = None" "register_strike now ppid t = (False, t(ppid \<mapsto> \<lparr>st_count = 1, first_strike = now\<rparr>))"
  | (expired) s where "t ppid = Some s" "now - first_strike s > nanos 2"
      "register_strike now ppid t = (False, t(ppid \<mapsto> \<lparr>st_count = 1, first_strike = now\<rparr>))"
  | (second) s where "t ppid = Some s" "now - first_strike s \<le> nanos 2" "st_count s = 1"
      "register_strike now ppid t = (False, t(ppid \<mapsto> s\<lparr>st_count := 2\<rparr>))"
  | (third) s where "t ppid = Some s" "now - first_strike s \<le> nanos 2" "st_count s = 2"
      "register_strike now ppid t = (True, t(ppid := None))"
proof (cases "t ppid")
  case None
  have "\<not> (3 :: u32) \<le> 1" by (simp add: word_le_nat_alt)
  with None first show thesis by (simp add: register_strike_def)
next
  case (Some s)
  with assms have "st_count s = 1 \<or> st_count s = 2" by (auto simp: tracker_inv_def)
  with Some expired second third show thesis
    by (cases "now - first_strike s > nanos 2") (auto simp: register_strike_def Let_def)
qed

lemma register_strike_inv: "tracker_inv t \<Longrightarrow> tracker_inv (snd (register_strike now ppid t))"
  by (rule register_strike_cases [of t ppid now]) (auto simp: tracker_inv_def split: if_splits)

lemma lock_tracker_inv: "tracker_inv (g_tracker g) \<Longrightarrow> tracker_inv (snd (lock_tracker g))"
  by (simp add: lock_tracker_def)

section \<open>One event\<close>

definition strikes_seen :: "event_env \<Rightarrow> 'g tracked_scheme \<Rightarrow> tracker" where
  "strikes_seen env g = prune_strikes (prune_now env) (snd (lock_tracker g))"

definition reaches :: "event_env \<Rightarrow> rename_alert \<Rightarrow> 'g tracked_scheme \<Rightarrow> bool" where
  "reaches env a g = fst (register_strike (instant_now env) (rename_ppid a) (strikes_seen env g))"

lemma rename_handler_state:
  "snd (rename_handler env a g) =
     g\<lparr>g_tracker := snd (register_strike (instant_now env) (rename_ppid a) (strikes_seen env g))\<rparr>"
  by (simp add: rename_handler_def strikes_seen_def Let_def split: prod.splits)

lemma rename_handler_inv:
  "tracker_inv (g_tracker g) \<Longrightarrow> tracker_inv (g_tracker (snd (rename_handler env a g)))"
  by (simp add: rename_handler_state strikes_seen_def lock_tracker_inv prune_strikes_inv register_strike_inv)

text \<open>Which processes the eradication of a tree kills.\<close>

definition tree_kills :: "event_env \<Rightarrow> u32 \<Rightarrow> u32 set" where
  "tree_kills env target =
     {p_pid p | p. p \<in> set (processes env) \<and> p_parent p = Some target} \<union>
     {w. w = target \<and> (\<exists>p. List.find (\<lambda>p. p_pid p = target) (processes env) = Some p \<and>
            0 < p_start_time p \<and> p_start_time p < epoch_secs (kill_now_ns env))}"

lemma find_pid: "List.find (\<lambda>p. p_pid p = target) ps = Some p \<Longrightarrow> p_pid p = target"
  by (auto simp: find_Some_iff)

lemma neutralize_kills: "Kill w \<in> set (neutralize_threat_tree env target) \<longleftrightarrow> w \<in> tree_kills env target"
proof -
  have "Kill w \<in> set (concat (map (worker_effects target) (processes env))) \<longleftrightarrow>
      (\<exists>p \<in> set (processes env). p_parent p = Some target \<and> w = p_pid p)"
    by (auto simp: worker_effects_def split: if_splits)
  moreover have "Kill w \<in> set (orchestrator_effects env target) \<longleftrightarrow>
      w = target \<and> (\<exists>p. List.find (\<lambda>p. p_pid p = target) (processes env) = Some p \<and>
            0 < p_start_time p \<and> p_start_time p < epoch_secs (kill_now_ns env))"
  proof (cases "List.find (\<lambda>p. p_pid p = target) (processes env)")
    case None
    then show ?thesis by (simp add: orchestrator_effects_def)
  next
    case (Some q)
    then show ?thesis using find_pid [OF Some] by (auto simp: orchestrator_effects_def Let_def)
  qed
  ultimately show ?thesis by (auto simp: neutralize_threat_tree_def tree_kills_def)
qed

lemma rename_handler_kills:
  "Kill w \<in> set (fst (rename_handler env a g)) \<longleftrightarrow> reaches env a g \<and> w \<in> tree_kills env (rename_ppid a)"
  by (auto simp: rename_handler_def reaches_def strikes_seen_def lock_tracker_def Let_def neutralize_kills
      split: prod.splits if_splits)

section \<open>Sequences of events\<close>

fun handle_all ::
    "(event_env \<times> rename_alert) list \<Rightarrow> 'g tracked_scheme \<Rightarrow> effect list \<times> 'g tracked_scheme" where
  "handle_all [] g = ([], g)"
| "handle_all ((env, a) # evs) g =
     (case rename_handler env a g of
        (e, g1) \<Rightarrow> (case handle_all evs g1 of (e', g2) \<Rightarrow> (e @ e', g2)))"

lemma handle_all_Cons:
  "snd (handle_all ((env, a) # evs) g) = snd (handle_all evs (snd (rename_handler env a g)))"
  by (simp add: case_prod_beta)

lemma handle_all_append:
  "snd (handle_all (xs @ ys) g) = snd (handle_all ys (snd (handle_all xs g)))"
proof (induction xs arbitrary: g)
  case (Cons ev xs)
  then show ?case by (cases ev) (simp add: handle_all_Cons del: handle_all.simps(2))
qed simp

lemma handle_all_inv:
  "tracker_inv (g_tracker g) \<Longrightarrow> tracker_inv (g_tracker (snd (handle_all evs g)))"
proof (induction evs arbitrary: g)
  case Nil
  then show ?case by simp
next
  case (Cons ev evs)
  obtain env a where ev: "ev = (env, a)" by fastforce
  show ?case
    using Cons.IH [OF rename_handler_inv [OF Cons.prems, of env a]]
    by (simp add: ev handle_all_Cons del: handle_all.simps(2))
qed

text \<open>
  What an entry remembers of the past: one strike is an event at its first instant, two
  are a later event within two seconds of it as well.
\<close>

definition struck :: "(event_env \<times> rename_alert) list \<Rightarrow> nat \<Rightarrow> u32 \<Rightarrow> nat \<Rightarrow> bool" where
  "struck evs i p t \<longleftrightarrow>
     i < length evs \<and> rename_ppid (snd (evs ! i)) = p \<and> instant_now (fst (evs ! i)) = t"

definition remembers :: "(event_env \<times> rename_alert) list \<Rightarrow> tracker \<Rightarrow> bool" where
  "remembers evs t \<longleftrightarrow>
     (\<forall>p s. t p = Some s \<longrightarrow>
        (\<exists>i. struck evs i p (first_strike s) \<and>
          (st_count s = 2 \<longrightarrow> (\<exists>j u. i < j \<and> struck evs j p u \<and> u - first_strike s \<le> nanos 2))))"

lemma struck_snoc: "struck evs i p t \<Longrightarrow> struck (evs @ [ev]) i p t"
  by (auto simp: struck_def nth_append)

lemma struck_last: "struck (evs @ [(env, a)]) (length evs) (rename_ppid a) (instant_now env)"
  by (simp add: struck_def)

lemma struck_bound: "struck evs i p t \<Longrightarrow> i < length evs"
  by (simp add: struck_def)

lemma remembers_weaken: "remembers evs t \<Longrightarrow> remembers (evs @ [ev]) t"
  unfolding remembers_def by (meson struck_snoc)

lemma remembers_prune: "remembers evs t \<Longrightarrow> remembers evs (prune_strikes clock t)"
  by (simp add: remembers_def prune_strikes_Some)

lemma remembers_update:
  assumes "remembers evs t"
    and "\<And>s. v = Some s \<Longrightarrow> \<exists>i. struck evs i p (first_strike s) \<and>
          (st_count s = 2 \<longrightarrow> (\<exists>j u. i < j \<and> struck evs j p u \<and> u - first_strike s \<le> nanos 2))"
  shows "remembers evs (t(p := v))"
  using assms unfolding remembers_def by auto

lemma remembers_register:
  assumes "tracker_inv t" "remembers evs t"
  shows "remembers (evs @ [(env, a)]) (snd (register_strike (instant_now env) (rename_ppid a) t))"
proof -
  note w = remembers_weaken [OF assms(2), of "(env, a)"]
  note l = struck_last [of evs env a]
  show ?thesis
  proof (rule register_strike_cases [OF assms(1), of "rename_ppid a" "instant_now env"], goal_cases)
    case 1
    show ?case unfolding 1 snd_conv by (rule remembers_update [OF w]) (use l in auto)
  next
    case (2 s)
    show ?case unfolding 2(3) snd_conv by (rule remembers_update [OF w]) (use l in auto)
  next
    case (3 s)
    obtain i where i: "struck evs i (rename_ppid a) (first_strike s)"
      using assms(2) 3(1) by (auto simp: remembers_def)
    have "\<exists>i. struck (evs @ [(env, a)]) i (rename_ppid a) (first_strike s) \<and>
        (\<exists>j u. i < j \<and> struck (evs @ [(env, a)]) j (rename_ppid a) u \<and> u - first_strike s \<le> nanos 2)"
      using struck_snoc [OF i] struck_bound [OF i] l 3(2) by blast
    then show ?case unfolding 3(4) snd_conv by (intro remembers_update [OF w]) force
  next
    case (4 s)
    show ?case unfolding 4(4) snd_conv by (rule remembers_update [OF w]) simp
  qed
qed

lemma handle_all_remembers:
  assumes "g_tracker g = (\<lambda>_. None)"
  shows "remembers evs (g_tracker (snd (handle_all evs g)))"
proof (induction evs rule: rev_induct)
  case Nil
  then show ?case using assms by (simp add: remembers_def)
next
  case (snoc ev evs)
  obtain env a where ev: "ev = (env, a)" by fastforce
  define h where "h = snd (handle_all evs g)"
  have "tracker_inv (g_tracker h)" unfolding h_def using assms by (intro handle_all_inv) simp
  then have "tracker_inv (strikes_seen env h)"
    by (simp add: strikes_seen_def lock_tracker_inv prune_strikes_inv)
  moreover have "remembers evs (strikes_seen env h)"
    using snoc unfolding strikes_seen_def h_def [symmetric]
    by (intro remembers_prune) (auto simp: lock_tracker_def remembers_def)
  ultimately have "remembers (evs @ [(env, a)]) (g_tracker (snd (rename_handler env a h)))"
    unfolding rename_handler_state by (simp add: remembers_register)
  then show ?case by (simp add: handle_all_append ev h_def handle_all_Cons del: handle_all.simps(2))
qed

text \<open>No false positive: a threshold reached means three events within two seconds.\<close>

lemma reaches_three:
  assumes "g_tracker g = (\<lambda>_. None)" and "reaches env a (snd (handle_all evs g))"
  obtains i j t u where "i < j" and "struck evs i (rename_ppid a) t" and "struck evs j (rename_ppid a) u"
    and "u - t \<le> nanos 2" and "instant_now env - t \<le> nanos 2"
proof -
  define h where "h = snd (handle_all evs g)"
  have inv: "tracker_inv (strikes_seen env h)"
    unfolding h_def strikes_seen_def using assms(1)
    by (intro prune_strikes_inv lock_tracker_inv handle_all_inv) simp
  have "remembers evs (strikes_seen env h)"
    using handle_all_remembers [OF assms(1), of evs] unfolding strikes_seen_def h_def [symmetric]
    by (intro remembers_prune) (auto simp: lock_tracker_def remembers_def)
  moreover from assms(2) obtain s where "strikes_seen env h (rename_ppid a) = Some s"
    "instant_now env - first_strike s \<le> nanos 2" "st_count s = 2"
    unfolding reaches_def h_def [symmetric]
    by (cases rule: register_strike_cases [OF inv, of "rename_ppid a" "instant_now env"]) auto
  ultimately show thesis using that unfolding remembers_def by metis
qed

section \<open>Reaching the threshold\<close>

text \<open>Events of other parent processes leave an entry alone while it is younger than five seconds.\<close>

lemma handle_other:
  assumes "rename_ppid a \<noteq> p" and "\<not> g_tracker_poisoned g" and "g_tracker g p = Some s"
    and "prune_now env p - first_strike s < nanos 5"
  shows "g_tracker (snd (rename_handler env a g)) p = Some s"
  using assms by (simp add: rename_handler_state strikes_seen_def lock_tracker_def
      register_strike_other prune_strikes_Some)

lemma rename_handler_poisoned [simp]:
  "g_tracker_poisoned (snd (rename_handler env a g)) = g_tracker_poisoned g"
  by (simp add: rename_handler_state)

lemma handle_all_poisoned [simp]:
  "g_tracker_poisoned (snd (handle_all evs g)) = g_tracker_poisoned g"
proof (induction evs arbitrary: g)
  case (Cons ev evs)
  then show ?case by (cases ev) (simp add: handle_all_Cons del: handle_all.simps(2))
qed simp

definition spared :: "u32 \<Rightarrow> nat \<Rightarrow> (event_env \<times> rename_alert) list \<Rightarrow> bool" where
  "spared p t evs \<longleftrightarrow> (\<forall>(env, a) \<in> set evs. rename_ppid a \<noteq> p \<and> prune_now env p - t < nanos 5)"

lemma handle_all_other:
  "spared p (first_strike s) evs \<Longrightarrow> \<not> g_tracker_poisoned g \<Longrightarrow> g_tracker g p = Some s \<Longrightarrow>
   g_tracker (snd (handle_all evs g)) p = Some s"
proof (induction evs arbitrary: g)
  case (Cons ev evs)
  obtain env a where ev: "ev = (env, a)" by fastforce
  with Cons.prems have "g_tracker (snd (rename_handler env a g)) p = Some s"
    by (intro handle_other) (auto simp: spared_def)
  with Cons ev show ?case by (simp add: handle_all_Cons spared_def del: handle_all.simps(2))
qed simp

lemma handle_first:
  assumes "\<not> g_tracker_poisoned g" and "g_tracker g (rename_ppid a) = None"
  shows "g_tracker (snd (rename_handler env a g)) (rename_ppid a) =
    Some \<lparr>st_count = 1, first_strike = instant_now env\<rparr>"
proof -
  have "strikes_seen env g (rename_ppid a) = None"
    using assms by (simp add: strikes_seen_def lock_tracker_def prune_strikes_def)
  moreover have "\<not> (3 :: u32) \<le> 1" by (simp add: word_le_nat_alt)
  ultimately show ?thesis by (simp add: rename_handler_state register_strike_def)
qed

lemma handle_second:
  assumes "\<not> g_tracker_poisoned g"
    and "g_tracker g (rename_ppid a) = Some \<lparr>st_count = 1, first_strike = t\<rparr>"
    and "instant_now env - t \<le> nanos 2" and "prune_now env (rename_ppid a) - t < nanos 5"
  shows "g_tracker (snd (rename_handler env a g)) (rename_ppid a) = Some \<lparr>st_count = 2, first_strike = t\<rparr>"
proof -
  have "strikes_seen env g (rename_ppid a) = Some \<lparr>st_count = 1, first_strike = t\<rparr>"
    using assms by (simp add: strikes_seen_def lock_tracker_def prune_strikes_Some)
  with assms(3) show ?thesis by (simp add: rename_handler_state register_strike_def Let_def)
qed

lemma handle_third:
  assumes "\<not> g_tracker_poisoned g"
    and "g_tracker g (rename_ppid a) = Some \<lparr>st_count = 2, first_strike = t\<rparr>"
    and "instant_now env - t \<le> nanos 2" and "prune_now env (rename_ppid a) - t < nanos 5"
  shows "reaches env a g" and "g_tracker (snd (rename_handler env a g)) (rename_ppid a) = None"
proof -
  have "strikes_seen env g (rename_ppid a) = Some \<lparr>st_count = 2, first_strike = t\<rparr>"
    using assms by (simp add: strikes_seen_def lock_tracker_def prune_strikes_Some)
  with assms(3) show "reaches env a g" "g_tracker (snd (rename_handler env a g)) (rename_ppid a) = None"
    by (simp_all add: reaches_def rename_handler_state register_strike_def Let_def)
qed

text \<open>The third event of a parent process without an entry, within two seconds of the first.\<close>

lemma three_strikes:
  assumes start: "\<not> g_tracker_poisoned g" "g_tracker g p = None"
    and p: "rename_ppid a1 = p" "rename_ppid a2 = p" "rename_ppid a3 = p"
    and o1: "spared p (instant_now env1) others1" and o2: "spared p (instant_now env1) others2"
    and t2: "instant_now env2 - instant_now env1 \<le> nanos 2" "prune_now env2 p - instant_now env1 < nanos 5"
    and t3: "instant_now env3 - instant_now env1 \<le> nanos 2" "prune_now env3 p - instant_now env1 < nanos 5"
  shows "reaches env3 a3 (snd (handle_all ((env1, a1) # others1 @ (env2, a2) # others2) g))"
proof -
  define g1 where "g1 = snd (handle_all others1 (snd (rename_handler env1 a1 g)))"
  define g2 where "g2 = snd (handle_all others2 (snd (rename_handler env2 a2 g1)))"
  have "g_tracker (snd (rename_handler env1 a1 g)) p = Some \<lparr>st_count = 1, first_strike = instant_now env1\<rparr>"
    using handle_first [of g a1 env1] start p by simp
  then have g1: "g_tracker g1 p = Some \<lparr>st_count = 1, first_strike = instant_now env1\<rparr>"
    unfolding g1_def using o1 start by (intro handle_all_other) simp_all
  moreover have ok1: "\<not> g_tracker_poisoned g1" using start by (simp add: g1_def)
  ultimately have "g_tracker (snd (rename_handler env2 a2 g1)) p =
      Some \<lparr>st_count = 2, first_strike = instant_now env1\<rparr>"
    using handle_second [of g1 a2 "instant_now env1" env2] p t2 by simp
  then have "g_tracker g2 p = Some \<lparr>st_count = 2, first_strike = instant_now env1\<rparr>"
    unfolding g2_def using o2 ok1 by (intro handle_all_other) simp_all
  moreover have "\<not> g_tracker_poisoned g2" using ok1 by (simp add: g2_def)
  ultimately have "reaches env3 a3 g2"
    using handle_third(1) [of g2 a3 "instant_now env1" env3] p t3 by simp
  then show ?thesis
    by (simp add: handle_all_Cons handle_all_append g1_def g2_def del: handle_all.simps(2))
qed

text \<open>A poisoned mutex is never cleared: the tracker starts empty at every event.\<close>

lemma poisoned_never_reaches: "g_tracker_poisoned g \<Longrightarrow> \<not> reaches env a g"
proof -
  have "\<not> (3 :: u32) \<le> 1" by (simp add: word_le_nat_alt)
  then show "g_tracker_poisoned g \<Longrightarrow> \<not> reaches env a g"
    by (simp add: reaches_def strikes_seen_def lock_tracker_def prune_strikes_def register_strike_def)
qed

section \<open>An example run\<close>

definition demo_env :: "nat \<Rightarrow> event_env" where
  "demo_env t =
     \<lparr>sys_now_ns = 1700000000000000000 + int t, to_json = (\<lambda>_. Some (str ''{}'')), write_fault = None,
      instant_now = t, prune_now = (\<lambda>_. t), kill_now_ns = 1700000000000000000,
      processes = [\<lparr>p_pid = 50, p_parent = Some 40, p_start_time = 1699999000\<rparr>,
        \<lparr>p_pid = 51, p_parent = Some 1, p_start_time = 1699999000\<rparr>,
        \<lparr>p_pid = 40, p_parent = Some 1, p_start_time = 1699990000\<rparr>]\<rparr>"

definition demo_alert :: "u32 \<Rightarrow> rename_alert" where
  "demo_alert ppid = \<lparr>rename_pid = 50, rename_ppid = ppid, rename_full_path = str ''/home/u/x''\<rparr>"

definition demo_globals :: tracked where
  "demo_globals = \<lparr>g_os = quiet_os, g_sink = None, g_sink_poisoned = False,
     g_tracker = (\<lambda>_. None), g_tracker_poisoned = False\<rparr>"

lemma demo_simps [simp]:
  "instant_now (demo_env t) = t" "prune_now (demo_env t) p = t"
  "rename_ppid (demo_alert p) = p"
  by (simp_all add: demo_env_def demo_alert_def)

lemma demo_tree: "50 \<in> tree_kills (demo_env t) 40"
proof -
  have "\<lparr>p_pid = 50, p_parent = Some 40, p_start_time = 1699999000\<rparr> \<in> set (processes (demo_env t))"
    by (simp add: demo_env_def)
  then show ?thesis unfolding tree_kills_def by force
qed

section \<open>Properties\<close>

text \<open>
  C3: when a parent process without an entry in the strike tracker, whose lock no panic has
  poisoned, triggers three alerts within two seconds, whatever alerts of other parents come in
  between, the handler of the third one kills exactly the parent's direct children and, unless
  its start time shows a recycled process id, the parent itself.
\<close>

theorem three_strikes_kill:
  assumes "\<not> g_tracker_poisoned g" and "g_tracker g p = None"
    and "rename_ppid a1 = p" "rename_ppid a2 = p" "rename_ppid a3 = p"
    and "spared p (instant_now env1) others1" and "spared p (instant_now env1) others2"
    and "instant_now env2 - instant_now env1 \<le> nanos 2" "prune_now env2 p - instant_now env1 < nanos 5"
    and "instant_now env3 - instant_now env1 \<le> nanos 2" "prune_now env3 p - instant_now env1 < nanos 5"
  shows "Kill w \<in> set (fst (rename_handler env3 a3
      (snd (handle_all ((env1, a1) # others1 @ (env2, a2) # others2) g)))) \<longleftrightarrow> w \<in> tree_kills env3 p"
  unfolding rename_handler_kills using three_strikes [OF assms] assms(5) by simp

theorem three_strikes_kill_witness:
  "Kill 50 \<in> set (fst (rename_handler (demo_env (nanos 2)) (demo_alert 40)
     (snd (handle_all ((demo_env 0, demo_alert 40) # [(demo_env 500, demo_alert 7)]
        @ (demo_env (nanos 1), demo_alert 40) # []) demo_globals))))"
proof -
  show ?thesis
    by (subst three_strikes_kill [where p = 40])
      (simp_all add: demo_tree demo_globals_def spared_def nanos_def)
qed

text \<open>
  No tree is killed on less. Starting from an empty tracker, if the handler kills any
  process for an alert, two earlier alerts of the same parent process were handled, the
  first of them and the present one at most two seconds apart.
\<close>

theorem kill_needs_three:
  assumes "g_tracker g = (\<lambda>_. None)"
    and "Kill w \<in> set (fst (rename_handler env a (snd (handle_all evs g))))"
  shows "\<exists>i j t u. i < j \<and> struck evs i (rename_ppid a) t \<and> struck evs j (rename_ppid a) u \<and>
    u - t \<le> nanos 2 \<and> instant_now env - t \<le> nanos 2"
proof -
  from assms(2) have "reaches env a (snd (handle_all evs g))"
    by (simp add: rename_handler_kills)
  from reaches_three [OF assms(1) this] show ?thesis by metis
qed

theorem kill_needs_three_witness:
  "\<exists>i j t u. i < j \<and>
     struck [(demo_env 0, demo_alert 40), (demo_env 5, demo_alert 40)] i 40 t \<and>
     struck [(demo_env 0, demo_alert 40), (demo_env 5, demo_alert 40)] j 40 u \<and>
     u - t \<le> nanos 2 \<and> instant_now (demo_env 9) - t \<le> nanos 2"
proof -
  have seen: "reaches (demo_env 9) (demo_alert 40)
      (snd (handle_all ((demo_env 0, demo_alert 40) # [] @ (demo_env 5, demo_alert 40) # []) demo_globals))"
    by (rule three_strikes [where p = 40])
      (simp_all add: demo_globals_def spared_def nanos_def)
  have "Kill 50 \<in> set (fst (rename_handler (demo_env 9) (demo_alert 40)
      (snd (handle_all [(demo_env 0, demo_alert 40), (demo_env 5, demo_alert 40)] demo_globals))))"
    using seen by (simp add: rename_handler_kills demo_tree)
  from kill_needs_three [OF _ this] show ?thesis
    by (simp add: demo_globals_def)
qed

text \<open>
  Whatever sequence of alerts is handled, every entry of the tracker has a count of one
  or two, so the counter neither wraps nor stays at the threshold.
\<close>

theorem tracker_counts:
  assumes "g_tracker g = (\<lambda>_. None)" and "g_tracker (snd (handle_all evs g)) p = Some s"
  shows "st_count s = 1 \<or> st_count s = 2"
proof -
  have "tracker_inv (g_tracker (snd (handle_all evs g)))"
    using assms(1) by (intro handle_all_inv) simp
  with assms(2) show ?thesis by (auto simp: tracker_inv_def)
qed

theorem tracker_counts_witness:
  "\<exists>s. g_tracker (snd (handle_all [(demo_env 0, demo_alert 40)] demo_globals)) 40 = Some s \<and>
     (st_count s = 1 \<or> st_count s = 2)"
proof -
  have "g_tracker (snd (handle_all [(demo_env 0, demo_alert 40)] demo_globals)) 40 \<noteq> None"
    by (simp add: rename_handler_def lock_tracker_def prune_strikes_def register_strike_def
        demo_globals_def nanos_def Let_def word_le_nat_alt)
  then obtain s where "g_tracker (snd (handle_all [(demo_env 0, demo_alert 40)] demo_globals)) 40 = Some s"
    by blast
  with tracker_counts [of demo_globals "[(demo_env 0, demo_alert 40)]" 40 s] show ?thesis
    by (simp add: demo_globals_def)
qed

text \<open>
  The window is not a sliding one. Alerts of one parent at 0, 1.9, 2.1 and 2.2 seconds
  contain three within 0.3 seconds, and none of the four handlers kills anything.
\<close>

theorem window_is_tumbling:
  "set (fst (handle_all
     [(demo_env 0, demo_alert 40), (demo_env 1900000000, demo_alert 40),
      (demo_env 2100000000, demo_alert 40), (demo_env 2200000000, demo_alert 40)] demo_globals))
     \<inter> range Kill = {}"
proof -
  have "\<not> (3 :: u32) \<le> 1" "\<not> (3 :: u32) \<le> 2" by (simp_all add: word_le_nat_alt)
  then show ?thesis
    by (auto simp: rename_handler_def lock_tracker_def prune_strikes_def register_strike_def
        demo_env_def demo_alert_def demo_globals_def nanos_def Let_def)
qed

text \<open>
  Once a panic has poisoned the tracker's mutex, the recovery code runs for every alert
  and starts from an empty map each time: no sequence of alerts kills anything again.
\<close>

theorem poisoned_tracker_never_kills:
  assumes "g_tracker_poisoned g"
  shows "Kill w \<notin> set (fst (handle_all evs g))"
  using assms
proof (induction evs arbitrary: g)
  case Nil
  then show ?case by simp
next
  case (Cons ev evs)
  obtain env a where ev: "ev = (env, a)" by fastforce
  have "Kill w \<notin> set (fst (rename_handler env a g))"
    using poisoned_never_reaches [OF Cons.prems] by (simp add: rename_handler_kills)
  moreover have "Kill w \<notin> set (fst (handle_all evs (snd (rename_handler env a g))))"
    using Cons by simp
  ultimately show ?case by (simp add: ev case_prod_beta)
qed

theorem poisoned_tracker_never_kills_witness:
  "Kill 50 \<notin> set (fst (handle_all
     [(demo_env 0, demo_alert 40), (demo_env 5, demo_alert 40), (demo_env 9, demo_alert 40)]
     (demo_globals\<lparr>g_tracker_poisoned := True\<rparr>)))"
  by (rule poisoned_tracker_never_kills) simp

end
