(* ===== verification/BB_Shield.thy ===== *)
theory BB_Shield
  imports BB_Security_Module
begin

text \<open>
  \<open>modules/src/shield.rs\<close>: the alert of the self-defence hooks, its parser with the kernel's
  layout, the handler, the fixed map size and the initialisation that protects the daemon's files.
\<close>

record shield_alert =
  shield_pid :: u32
  shield_action_type :: u32
  shield_target :: rstr

definition shield_try_from_bytes :: "endian \<Rightarrow> u8 list \<Rightarrow> shield_alert io" where
  "shield_try_from_bytes en d =
     (if length d < 4104 then fail min_size_error
      else bind_io (read_u32 en (reader_new d)) (\<lambda>(pid, r).
           bind_io (read_u32 en r) (\<lambda>(action_type, r).
           bind_io (read_string 4096 r) (\<lambda>(target, r).
           ret \<lparr>shield_pid = pid, shield_action_type = action_type, shield_target = target\<rparr>))))"

definition shield_fields :: "shield_alert \<Rightarrow> json_fields" where
  "shield_fields a =
     [(str ''pid'', JNum (unat (shield_pid a))),
      (str ''action_type'', JNum (unat (shield_action_type a))),
      (str ''target'', JStr (shield_target a))]"

definition shield_action_str :: "u32 \<Rightarrow> rstr" where
  "shield_action_str action_type =
     (if action_type = 1 then str ''FILE_TAMPER''
      else if action_type = 2 then str ''BPF_TAMPER''
      else if action_type = 3 then str ''SYSLOG_LEAK''
      else str ''UNKNOWN_VIOLATION'')"

definition shield_handler :: "event_env \<Rightarrow> shield_alert \<Rightarrow> 'g \<Rightarrow> effect list \<times> 'g" where
  "shield_handler env a g =
     ([Stdout (str ''Bouclier Bleu [SHIELD]: Blocked unauthorized action [''
         @ shield_action_str (shield_action_type a) @ str ''] by PID '' @ show_u32 (shield_pid a)
         @ str '' on target: '' @ shield_target a)], g)"

definition shield_capacities :: "host \<Rightarrow> effect list \<times> capacities" where
  "shield_capacities h = ([], [(str ''protected_files'', 2)])"

definition shield_target_files :: "rstr list" where
  "shield_target_files = [str ''/etc/bouclier-bleu/config.toml'', str ''/usr/bin/bouclier-bleu-core'']"

fun shield_protect ::
    "endian \<Rightarrow> host \<Rightarrow> 'm bpf_api \<Rightarrow> rstr list \<Rightarrow> 'm \<Rightarrow> effect list \<times> 'm" where
  "shield_protect en h api [] m = ([], m)"
| "shield_protect en h api (path # paths) m =
     (case get_secure_hardware_key en h path of
        None \<Rightarrow> shield_protect en h api paths m
      | Some key_bytes \<Rightarrow>
          (case map_update api key_bytes protected_value m of
             Inl e \<Rightarrow>
               (case shield_protect en h api paths m of
                  (out, m2) \<Rightarrow>
                    (Stderr (str ''Bouclier Bleu [WARNING]: Could not protect '' @ path @ str '': '' @ e) # out,
                     m2))
           | Inr m1 \<Rightarrow> shield_protect en h api paths m1))"

definition shield_init :: "('m, 'p) init_fun" where
  "shield_init su p =
     (case mp_get_map (su_provider su) (str ''protected_files'') p of
        Inl e \<Rightarrow> ([], Inl e, p)
      | Inr m \<Rightarrow>
          (case shield_protect (su_endian su) (su_host su) (su_api su) shield_target_files m of
             (out, m') \<Rightarrow> (out, Inr (), mp_store (su_provider su) (str ''protected_files'') m' p)))"

definition shield_spec :: "(shield_alert, 'g globals_scheme, 'm, 'p) module_spec" where
  "shield_spec =
     \<lparr>ms_name = str ''Self-Defense Architecture'', ms_slug = str ''shield'',
      ms_mitre = [str ''T1562.001'', str ''T1014'', str ''T082''],
      ms_parser = shield_try_from_bytes, ms_fields = shield_fields, ms_handler = shield_handler,
      ms_xattr = None,
      ms_dynamic = None,
      ms_capacities = Some shield_capacities, ms_init = Some shield_init\<rparr>"

section \<open>The parser against the kernel's layout\<close>

definition shield_view :: "endian \<Rightarrow> u8 list \<Rightarrow> shield_alert" where
  "shield_view en d =
     \<lparr>shield_pid = u32_field en 0 d,
      shield_action_type = u32_field en 4 d,
      shield_target = cstr_field 8 4096 d\<rparr>"

definition shield_warnings :: "u8 list \<Rightarrow> effect list" where
  "shield_warnings d = cstr_warnings 8 4096 d"

text \<open>\<open>struct shield_alert\<close> of \<open>bpf/shield.bpf.c\<close>.\<close>

record shield_struct =
  ss_pid :: u32
  ss_action_type :: u32
  ss_target :: "u8 list"

definition shield_image :: "endian \<Rightarrow> shield_struct \<Rightarrow> u8 list" where
  "shield_image en c =
     u32_to_ne_bytes en (ss_pid c) @ u32_to_ne_bytes en (ss_action_type c) @ ss_target c"

definition shield_sized :: "shield_struct \<Rightarrow> bool" where
  "shield_sized c \<longleftrightarrow> length (ss_target c) = 4096"

definition shield_meaning :: "shield_struct \<Rightarrow> shield_alert" where
  "shield_meaning c =
     \<lparr>shield_pid = ss_pid c,
      shield_action_type = ss_action_type c,
      shield_target = shown (c_string (ss_target c))\<rparr>"

definition shield_grumbles :: "shield_struct \<Rightarrow> effect list" where
  "shield_grumbles c = noise (c_string (ss_target c))"

interpretation shield_layout: alert_layout "shield_try_from_bytes en" 4104 "shield_view en" shield_warnings
  "shield_image en" shield_sized shield_meaning shield_grumbles for en
  by unfold_locales
    (auto simp: shield_try_from_bytes_def shield_view_def shield_warnings_def shield_image_def
      shield_sized_def shield_meaning_def shield_grumbles_def reader_simps field_append layout_simps
      dest!: subsetD [OF noise_stderr])

interpretation shield_events: event_module shield_spec en 4104 "shield_view en" shield_warnings for en
  by (simp add: event_module_def shield_spec_def shield_layout.alert_parser_axioms)

section \<open>What the initialisation protects\<close>

lemma shield_protect_room:
  assumes "bpf_hash_ok api n" "finite (map_keys api m)" "card (map_keys api m) + length paths \<le> n"
  shows "\<exists>m'. shield_protect en h api paths m = ([], m') \<and>
    (\<forall>k. map_lookup api k m' =
       (if k \<in> path_keys en h paths then Some protected_value else map_lookup api k m))"
  using assms(2,3)
proof (induction paths arbitrary: m)
  case Nil
  then show ?case by simp
next
  case (Cons p ps)
  show ?case
  proof (cases "get_secure_hardware_key en h p")
    case None
    with Cons.IH [of m] Cons.prems show ?thesis by simp
  next
    case (Some key)
    from Cons.prems have "key \<in> map_keys api m \<or> card (map_keys api m) < n" by simp
    then obtain m1 where m1: "map_update api key protected_value m = Inr m1"
      and fin: "finite (map_keys api m1)" and "card (map_keys api m1) \<le> Suc (card (map_keys api m))"
      by (rule map_update_room [OF bpf_hash_room [OF assms(1)] Cons.prems(1)])
    with Cons.prems have "card (map_keys api m1) + length ps \<le> n" by simp
    from Cons.IH [OF fin this] obtain m' where m': "shield_protect en h api ps m1 = ([], m')"
      "\<And>k. map_lookup api k m' =
         (if k \<in> path_keys en h ps then Some protected_value else map_lookup api k m1)"
      by blast
    with Some m1 show ?thesis using map_update_lookup [OF assms(1) m1] by auto
  qed
qed

lemma shield_init_ok:
  "(\<exists>out p'. shield_init su p = (out, Inr (), p')) \<longleftrightarrow>
   (\<exists>m. mp_get_map (su_provider su) (str ''protected_files'') p = Inr m)"
  by (auto simp: shield_init_def split: sum.splits prod.splits)

lemma shield_init_fresh:
  assumes "mp_get_map (su_provider su) (str ''protected_files'') p = Inr m"
    and "map_keys (su_api su) m = {}" and "bpf_hash_ok (su_api su) 2"
  obtains m' where
    "shield_init su p = ([], Inr (), mp_store (su_provider su) (str ''protected_files'') m' p)"
    and "map_keys (su_api su) m' = path_keys (su_endian su) (su_host su) shield_target_files"
    and "\<And>k. map_lookup (su_api su) k m' =
      (if k \<in> path_keys (su_endian su) (su_host su) shield_target_files then Some protected_value else None)"
proof -
  obtain m' where m': "shield_protect (su_endian su) (su_host su) (su_api su) shield_target_files m = ([], m')"
    "\<And>k. map_lookup (su_api su) k m' =
       (if k \<in> path_keys (su_endian su) (su_host su) shield_target_files then Some protected_value
        else map_lookup (su_api su) k m)"
    using shield_protect_room [OF assms(3), of m shield_target_files "su_endian su" "su_host su"] assms(2)
    by (auto simp: shield_target_files_def)
  have "map_keys (su_api su) m' = path_keys (su_endian su) (su_host su) shield_target_files"
    using m'(2) assms(2) by (auto simp: map_keys_def)
  moreover have "map_lookup (su_api su) k m = None" for k using assms(2) by (auto simp: map_keys_def)
  ultimately show thesis using m' assms(1) that by (simp add: shield_init_def)
qed

section \<open>Properties\<close>

text \<open>
  Two entries, the capacity the module asks for, are enough: on an empty map the
  initialisation succeeds without a warning and protects every core file that exists.
\<close>

theorem shield_init_protects:
  assumes "mp_get_map (su_provider su) (str ''protected_files'') p = Inr m"
    and "map_keys (su_api su) m = {}"
    and "bpf_hash_ok (su_api su) (unat (the (map_of (snd (shield_capacities (su_host su))) (str ''protected_files''))))"
  shows "\<exists>m'. shield_init su p = ([], Inr (), mp_store (su_provider su) (str ''protected_files'') m' p) \<and>
    map_keys (su_api su) m' = path_keys (su_endian su) (su_host su) shield_target_files"
proof -
  have "bpf_hash_ok (su_api su) 2" using assms(3) by (simp add: shield_capacities_def)
  from shield_init_fresh [OF assms(1,2) this] show ?thesis by metis
qed

definition shield_demo_ctx :: "((u8 list \<times> u8 list) list, (u8 list \<times> u8 list) list) init_ctx" where
  "shield_demo_ctx =
     \<lparr>su_endian = Little,
      su_host = \<lparr>walk = (\<lambda>_ _. []),
        openat = (\<lambda>_ p. Some \<lparr>of_meta = Some \<lparr>md_ino = of_nat (length p), md_dev = 2050\<rparr>, of_xattr = (\<lambda>_. None)\<rparr>),
        read_to_string = (\<lambda>_. None), parse_toml = (\<lambda>_. None)\<rparr>,
      su_api = hash_map 2,
      su_provider = \<lparr>mp_get_map = (\<lambda>_ p. Inr p), mp_store = (\<lambda>_ m _. m)\<rparr>\<rparr>"

theorem shield_init_protects_witness:
  "\<exists>m'. shield_init shield_demo_ctx [] = ([], Inr (), m') \<and>
     map_keys (hash_map 2) m' = path_keys Little (su_host shield_demo_ctx) shield_target_files"
proof -
  have "map_keys (hash_map 2) [] = {}" by (simp add: map_keys_def hash_map_def)
  then show ?thesis
    using shield_init_protects [of shield_demo_ctx "[]" "[]"] hash_map_ok [of 2]
    by (simp add: shield_demo_ctx_def shield_capacities_def)
qed

end
