(* ===== verification/BB_Mount_Secure.thy ===== *)
theory BB_Mount_Secure
  imports BB_Security_Module
begin

text \<open>
  \<open>modules/src/mount_secure.rs\<close>: the alert of the removable-media hook, its parser with the
  kernel's layout, the handler and the module.
\<close>

record mount_alert =
  mount_pid :: u32
  mount_dev_name :: rstr
  mount_fs_type :: rstr
  mount_mount_point :: rstr

definition mount_try_from_bytes :: "endian \<Rightarrow> u8 list \<Rightarrow> mount_alert io" where
  "mount_try_from_bytes en d =
     (if length d < 836 then fail min_size_error
      else bind_io (read_u32 en (reader_new d)) (\<lambda>(pid, r).
           bind_io (read_string 256 r) (\<lambda>(dev_name, r).
           bind_io (read_string 64 r) (\<lambda>(fs_type, r).
           bind_io (read_string 512 r) (\<lambda>(mount_point, r).
           ret \<lparr>mount_pid = pid, mount_dev_name = dev_name, mount_fs_type = fs_type, mount_mount_point = mount_point\<rparr>)))))"

definition mount_fields :: "mount_alert \<Rightarrow> json_fields" where
  "mount_fields a =
     [(str ''pid'', JNum (unat (mount_pid a))),
      (str ''dev_name'', JStr (mount_dev_name a)),
      (str ''fs_type'', JStr (mount_fs_type a)),
      (str ''mount_point'', JStr (mount_mount_point a))]"

definition mount_handler :: "event_env \<Rightarrow> mount_alert \<Rightarrow> 'g \<Rightarrow> effect list \<times> 'g" where
  "mount_handler env a g =
     ([Stdout (str ''Bouclier Bleu [BLOCK]: PID '' @ show_u32 (mount_pid a)
         @ str '' attempted insecure mount of '' @ mount_dev_name a @ str '' (''
         @ mount_fs_type a @ str '') at '' @ quoted (mount_mount_point a)
         @ str ''. Enforcing MS_NOEXEC, MS_NOSUID, MS_NODEV.'')], g)"

definition mount_secure_spec :: "(mount_alert, 'g globals_scheme, 'm, 'p) module_spec" where
  "mount_secure_spec =
     \<lparr>ms_name = str ''Removable Media Neutralizer'', ms_slug = str ''mount_secure'',
      ms_mitre = [str ''T1200'', str ''T1548.001'', str ''T1204.002'', str ''T1068'', str ''T1091''],
      ms_parser = mount_try_from_bytes, ms_fields = mount_fields, ms_handler = mount_handler,
      ms_xattr = None,
      ms_dynamic = None,
      ms_capacities = None, ms_init = None\<rparr>"

section \<open>The parser against the kernel's layout\<close>

definition mount_view :: "endian \<Rightarrow> u8 list \<Rightarrow> mount_alert" where
  "mount_view en d =
     \<lparr>mount_pid = u32_field en 0 d,
      mount_dev_name = cstr_field 4 256 d,
      mount_fs_type = cstr_field 260 64 d,
      mount_mount_point = cstr_field 324 512 d\<rparr>"

definition mount_warnings :: "u8 list \<Rightarrow> effect list" where
  "mount_warnings d = cstr_warnings 4 256 d @ cstr_warnings 260 64 d @ cstr_warnings 324 512 d"

text \<open>\<open>struct mount_alert\<close> of \<open>bpf/mount_secure.bpf.c\<close>.\<close>

record mount_struct =
  ms_pid :: u32
  ms_dev_name :: "u8 list"
  ms_fs_type :: "u8 list"
  ms_mount_point :: "u8 list"

definition mount_image :: "endian \<Rightarrow> mount_struct \<Rightarrow> u8 list" where
  "mount_image en c =
     u32_to_ne_bytes en (ms_pid c) @ ms_dev_name c @ ms_fs_type c @ ms_mount_point c"

definition mount_sized :: "mount_struct \<Rightarrow> bool" where
  "mount_sized c \<longleftrightarrow> length (ms_dev_name c) = 256 \<and> length (ms_fs_type c) = 64 \<and> length (ms_mount_point c) = 512"

definition mount_meaning :: "mount_struct \<Rightarrow> mount_alert" where
  "mount_meaning c =
     \<lparr>mount_pid = ms_pid c,
      mount_dev_name = shown (c_string (ms_dev_name c)),
      mount_fs_type = shown (c_string (ms_fs_type c)),
      mount_mount_point = shown (c_string (ms_mount_point c))\<rparr>"

definition mount_grumbles :: "mount_struct \<Rightarrow> effect list" where
  "mount_grumbles c = noise (c_string (ms_dev_name c)) @ noise (c_string (ms_fs_type c)) @ noise (c_string (ms_mount_point c))"

interpretation mount_layout: alert_layout "mount_try_from_bytes en" 836 "mount_view en" mount_warnings
  "mount_image en" mount_sized mount_meaning mount_grumbles for en
  by unfold_locales
    (auto simp: mount_try_from_bytes_def mount_view_def mount_warnings_def mount_image_def
      mount_sized_def mount_meaning_def mount_grumbles_def reader_simps field_append layout_simps
      dest!: subsetD [OF noise_stderr])

interpretation mount_events: event_module mount_secure_spec en 836 "mount_view en" mount_warnings for en
  by (simp add: event_module_def mount_secure_spec_def mount_layout.alert_parser_axioms)

end
