(* ===== verification/BB_Strict_Wx.thy ===== *)
theory BB_Strict_Wx
  imports BB_Security_Module
begin

text \<open>
  \<open>modules/src/strict_wx.rs\<close>: the alert of the W^X hooks, its parser with the kernel's layout,
  the handler and the module with its opt-in watchlist.
\<close>

record strict_wx_alert =
  wx_pid :: u32
  wx_syscall :: rstr

definition wx_try_from_bytes :: "endian \<Rightarrow> u8 list \<Rightarrow> strict_wx_alert io" where
  "wx_try_from_bytes en d =
     (if length d < 20 then fail min_size_error
      else bind_io (read_u32 en (reader_new d)) (\<lambda>(pid, r).
           bind_io (read_string 16 r) (\<lambda>(syscall, r).
           ret \<lparr>wx_pid = pid, wx_syscall = syscall\<rparr>)))"

definition wx_fields :: "strict_wx_alert \<Rightarrow> json_fields" where
  "wx_fields a =
     [(str ''pid'', JNum (unat (wx_pid a))),
      (str ''syscall'', JStr (wx_syscall a))]"

definition wx_handler :: "event_env \<Rightarrow> strict_wx_alert \<Rightarrow> 'g \<Rightarrow> effect list \<times> 'g" where
  "wx_handler env a g =
     ([Stdout (str ''Bouclier Bleu [BLOCK]: PID '' @ show_u32 (wx_pid a)
         @ str '' attempted shellcode injection via PROT_WRITE | PROT_EXEC on '' @ wx_syscall a
         @ str ''.'')], g)"

definition strict_wx_spec :: "(strict_wx_alert, 'g globals_scheme, 'm, 'p) module_spec" where
  "strict_wx_spec =
     \<lparr>ms_name = str ''Strict Write XOR Execute (W^X)'', ms_slug = str ''strict_wx'',
      ms_mitre = [str ''T1055'', str ''T1620'', str ''T1027.002''],
      ms_parser = wx_try_from_bytes, ms_fields = wx_fields, ms_handler = wx_handler,
      ms_xattr = Some
        \<lparr>xw_map_name = str ''strict_wx_binaries'', xw_attribute = str ''user.bouclier.strict_wx'',
         xw_target_paths = [str ''/bin'', str ''/sbin'', str ''/usr/bin'', str ''/usr/sbin'', str ''/opt'']\<rparr>,
      ms_dynamic = None,
      ms_capacities = None, ms_init = None\<rparr>"

section \<open>The parser against the kernel's layout\<close>

definition wx_view :: "endian \<Rightarrow> u8 list \<Rightarrow> strict_wx_alert" where
  "wx_view en d =
     \<lparr>wx_pid = u32_field en 0 d,
      wx_syscall = cstr_field 4 16 d\<rparr>"

definition wx_warnings :: "u8 list \<Rightarrow> effect list" where
  "wx_warnings d = cstr_warnings 4 16 d"

text \<open>\<open>struct strict_wx_alert\<close> of \<open>bpf/strict_wx.bpf.c\<close>.\<close>

record wx_struct =
  ws_pid :: u32
  ws_syscall :: "u8 list"

definition wx_image :: "endian \<Rightarrow> wx_struct \<Rightarrow> u8 list" where
  "wx_image en c =
     u32_to_ne_bytes en (ws_pid c) @ ws_syscall c"

definition wx_sized :: "wx_struct \<Rightarrow> bool" where
  "wx_sized c \<longleftrightarrow> length (ws_syscall c) = 16"

definition wx_meaning :: "wx_struct \<Rightarrow> strict_wx_alert" where
  "wx_meaning c =
     \<lparr>wx_pid = ws_pid c,
      wx_syscall = shown (c_string (ws_syscall c))\<rparr>"

definition wx_grumbles :: "wx_struct \<Rightarrow> effect list" where
  "wx_grumbles c = noise (c_string (ws_syscall c))"

interpretation wx_layout: alert_layout "wx_try_from_bytes en" 20 "wx_view en" wx_warnings
  "wx_image en" wx_sized wx_meaning wx_grumbles for en
  by unfold_locales
    (auto simp: wx_try_from_bytes_def wx_view_def wx_warnings_def wx_image_def
      wx_sized_def wx_meaning_def wx_grumbles_def reader_simps field_append layout_simps
      dest!: subsetD [OF noise_stderr])

interpretation wx_events: event_module strict_wx_spec en 20 "wx_view en" wx_warnings for en
  by (simp add: event_module_def strict_wx_spec_def wx_layout.alert_parser_axioms)

end
