(* ===== verification/BB_Ptrace_Block.thy ===== *)
theory BB_Ptrace_Block
  imports BB_Security_Module
begin

text \<open>
  \<open>modules/src/ptrace_block.rs\<close>: the alert of the ptrace hooks, its parser with the kernel's
  layout, the handler, and the initialisation that fails when no credential process could be
  protected.
\<close>

record ptrace_alert =
  ptrace_pid :: u32
  ptrace_target_pid :: u32
  ptrace_action_type :: u32
  ptrace_target_comm :: rstr

definition ptrace_try_from_bytes :: "endian \<Rightarrow> u8 list \<Rightarrow> ptrace_alert io" where
  "ptrace_try_from_bytes en d =
     (if length d < 28 then fail min_size_error
      else bind_io (read_u32 en (reader_new d)) (\<lambda>(pid, r).
           bind_io (read_u32 en r) (\<lambda>(target_pid, r).
           bind_io (read_u32 en r) (\<lambda>(action_type, r).
           bind_io (read_string 16 r) (\<lambda>(raw_target_comm, r).
           ret \<lparr>ptrace_pid = pid, ptrace_target_pid = target_pid, ptrace_action_type = action_type, ptrace_target_comm = trim_nul raw_target_comm\<rparr>)))))"

definition ptrace_fields :: "ptrace_alert \<Rightarrow> json_fields" where
  "ptrace_fields a =
     [(str ''pid'', JNum (unat (ptrace_pid a))),
      (str ''target_pid'', JNum (unat (ptrace_target_pid a))),
      (str ''action_type'', JNum (unat (ptrace_action_type a))),
      (str ''target_comm'', JStr (ptrace_target_comm a))]"

definition ACTION_CRED_DUMP :: u32 where "ACTION_CRED_DUMP = 1"
definition ACTION_INJECTION :: u32 where "ACTION_INJECTION = 2"
definition ACTION_PROC_MEM :: u32 where "ACTION_PROC_MEM = 3"

declare ACTION_CRED_DUMP_def [simp] ACTION_INJECTION_def [simp] ACTION_PROC_MEM_def [simp]

definition ptrace_action_str :: "u32 \<Rightarrow> rstr" where
  "ptrace_action_str action_type =
     (if action_type = ACTION_CRED_DUMP then str ''CREDENTIAL_DUMP''
      else if action_type = ACTION_INJECTION then str ''PROCESS_INJECTION''
      else if action_type = ACTION_PROC_MEM then str ''PROC_MEM_TAMPER''
      else str ''UNKNOWN_VIOLATION'')"

definition ptrace_handler :: "event_env \<Rightarrow> ptrace_alert \<Rightarrow> 'g \<Rightarrow> effect list \<times> 'g" where
  "ptrace_handler env a g =
     ([Stdout (str ''Bouclier Bleu [BLOCK]: PID '' @ show_u32 (ptrace_pid a) @ str '' attempted [''
         @ ptrace_action_str (ptrace_action_type a) @ str ''] against target ''
         @ quoted (ptrace_target_comm a) @ str '' (PID '' @ show_u32 (ptrace_target_pid a)
         @ str '').'')], g)"

definition ptrace_capacities :: "host \<Rightarrow> effect list \<times> capacities" where
  "ptrace_capacities h = ([], [(str ''protected_processes'', 256)])"

definition ptrace_target_binaries :: "rstr list" where
  "ptrace_target_binaries = map str
     [''/usr/sbin/sshd'', ''/usr/bin/sshd'', ''/usr/sbin/sshd-session'', ''/usr/bin/sshd-session'',
      ''/usr/bin/passwd'', ''/usr/bin/su'', ''/usr/bin/sudo'',
      ''/sbin/pam_timestamp_check'', ''/usr/sbin/pam_timestamp_check'', ''/sbin/unix_chkpwd'',
      ''/usr/sbin/unix_chkpwd'',
      ''/usr/sbin/sssd'', ''/usr/bin/sssd'', ''/usr/lib/systemd/systemd-logind'',
      ''/usr/lib/polkit-1/polkitd'', ''/usr/libexec/polkit-1/polkitd'',
      ''/usr/bin/gnome-keyring-daemon'', ''/usr/bin/kwalletd5'', ''/usr/bin/gpg-agent'',
      ''/usr/sbin/gdm3'', ''/usr/sbin/gdm'', ''/usr/bin/gdm'', ''/usr/sbin/lightdm'',
      ''/usr/bin/lightdm'', ''/usr/bin/sddm'']"

text \<open>The counter \<open>protection_count\<close> is at most the number of binaries and cannot wrap.\<close>

fun ptrace_protect ::
    "endian \<Rightarrow> host \<Rightarrow> 'm bpf_api \<Rightarrow> rstr list \<Rightarrow> nat \<Rightarrow> 'm \<Rightarrow> effect list \<times> nat \<times> 'm" where
  "ptrace_protect en h api [] protection_count m = ([], protection_count, m)"
| "ptrace_protect en h api (path # paths) protection_count m =
     (case get_secure_hardware_key en h path of
        None \<Rightarrow> ptrace_protect en h api paths protection_count m
      | Some key_bytes \<Rightarrow>
          (case map_update api key_bytes protected_value m of
             Inl e \<Rightarrow>
               (case ptrace_protect en h api paths protection_count m of
                  (out, n, m2) \<Rightarrow>
                    (Stderr (str ''Bouclier Bleu [WARNING]: Could not protect credential process ''
                       @ path @ str '': '' @ e) # out, n, m2))
           | Inr m1 \<Rightarrow>
               (case ptrace_protect en h api paths (protection_count + 1) m1 of
                  (out, n, m2) \<Rightarrow>
                    (Stdout (str ''Bouclier Bleu [Setup]: Anti-dumping memory protection activated for ''
                       @ path) # out, n, m2))))"

definition ptrace_init :: "('m, 'p) init_fun" where
  "ptrace_init su p =
     (case mp_get_map (su_provider su) (str ''protected_processes'') p of
        Inl e \<Rightarrow> ([], Inl e, p)
      | Inr m \<Rightarrow>
          (case ptrace_protect (su_endian su) (su_host su) (su_api su) ptrace_target_binaries 0 m of
             (out, protection_count, m') \<Rightarrow>
               (let p' = mp_store (su_provider su) (str ''protected_processes'') m' p
                in if protection_count = 0
                   then (out @ [Stderr (str ''Bouclier Bleu [CRITICAL]: No credential processes could be protected!'')],
                         Inl (str ''Credential protection initialization failed: Watchlist empty''), p')
                   else (out, Inr (), p'))))"

definition ptrace_block_spec :: "(ptrace_alert, 'g globals_scheme, 'm, 'p) module_spec" where
  "ptrace_block_spec =
     \<lparr>ms_name = str ''Process Injection Prevention'', ms_slug = str ''ptrace_block'',
      ms_mitre = [str ''T1055.008'', str ''T1003.007'', str ''T1068''],
      ms_parser = ptrace_try_from_bytes, ms_fields = ptrace_fields, ms_handler = ptrace_handler,
      ms_xattr = None,
      ms_dynamic = None,
      ms_capacities = Some ptrace_capacities, ms_init = Some ptrace_init\<rparr>"

section \<open>The parser against the kernel's layout\<close>

definition ptrace_view :: "endian \<Rightarrow> u8 list \<Rightarrow> ptrace_alert" where
  "ptrace_view en d =
     \<lparr>ptrace_pid = u32_field en 0 d,
      ptrace_target_pid = u32_field en 4 d,
      ptrace_action_type = u32_field en 8 d,
      ptrace_target_comm = cstr_field 12 16 d\<rparr>"

definition ptrace_warnings :: "u8 list \<Rightarrow> effect list" where
  "ptrace_warnings d = cstr_warnings 12 16 d"

text \<open>\<open>struct ptrace_alert\<close> of \<open>bpf/ptrace_block.bpf.c\<close>.\<close>

record ptrace_struct =
  ps_pid :: u32
  ps_target_pid :: u32
  ps_action_type :: u32
  ps_target_comm :: "u8 list"

definition ptrace_image :: "endian \<Rightarrow> ptrace_struct \<Rightarrow> u8 list" where
  "ptrace_image en c =
     u32_to_ne_bytes en (ps_pid c) @ u32_to_ne_bytes en (ps_target_pid c) @ u32_to_ne_bytes en (ps_action_type c) @ ps_target_comm c"

definition ptrace_sized :: "ptrace_struct \<Rightarrow> bool" where
  "ptrace_sized c \<longleftrightarrow> length (ps_target_comm c) = 16"

definition ptrace_meaning :: "ptrace_struct \<Rightarrow> ptrace_alert" where
  "ptrace_meaning c =
     \<lparr>ptrace_pid = ps_pid c,
      ptrace_target_pid = ps_target_pid c,
      ptrace_action_type = ps_action_type c,
      ptrace_target_comm = shown (c_string (ps_target_comm c))\<rparr>"

definition ptrace_grumbles :: "ptrace_struct \<Rightarrow> effect list" where
  "ptrace_grumbles c = noise (c_string (ps_target_comm c))"

interpretation ptrace_layout: alert_layout "ptrace_try_from_bytes en" 28 "ptrace_view en" ptrace_warnings
  "ptrace_image en" ptrace_sized ptrace_meaning ptrace_grumbles for en
  by unfold_locales
    (auto simp: ptrace_try_from_bytes_def ptrace_view_def ptrace_warnings_def ptrace_image_def
      ptrace_sized_def ptrace_meaning_def ptrace_grumbles_def reader_simps field_append layout_simps
      dest!: subsetD [OF noise_stderr])

interpretation ptrace_events: event_module ptrace_block_spec en 28 "ptrace_view en" ptrace_warnings for en
  by (simp add: event_module_def ptrace_block_spec_def ptrace_layout.alert_parser_axioms)

section \<open>What the initialisation protects\<close>

lemma ptrace_protect_count:
  "ptrace_protect en h api paths c m = (out, n, m') \<Longrightarrow> c \<le> n \<and> n \<le> c + length paths"
proof (induction paths arbitrary: c m out)
  case Nil
  then show ?case by simp
next
  case (Cons p ps)
  then show ?case
    by (fastforce split: option.splits sum.splits prod.splits)
qed

lemma ptrace_protect_lookup:
  assumes "bpf_hash_ok api cap" "ptrace_protect en h api paths c m = (out, n, m')"
  shows "map_lookup api k m' = map_lookup api k m \<or>
    (k \<in> path_keys en h paths \<and> map_lookup api k m' = Some protected_value)"
  using assms(2)
proof (induction paths arbitrary: c m out)
  case Nil
  then show ?case by simp
next
  case (Cons p ps)
  show ?case
  proof (cases "get_secure_hardware_key en h p")
    case None
    with Cons show ?thesis by auto
  next
    case (Some key)
    show ?thesis
    proof (cases "map_update api key protected_value m")
      case (Inl e)
      with Some Cons show ?thesis by (auto split: prod.splits)
    next
      case (Inr m1)
      with Some Cons.prems obtain o1 where "ptrace_protect en h api ps (c + 1) m1 = (o1, n, m')"
        by (auto split: prod.splits)
      with Some show ?thesis
        using Cons.IH [of "c + 1" m1 o1] map_update_lookup [OF assms(1) Inr, of k] by (auto split: if_splits)
    qed
  qed
qed

lemma ptrace_protect_room:
  assumes "bpf_hash_ok api n" "finite (map_keys api m)" "card (map_keys api m) + length paths \<le> n"
  shows "\<exists>out m'. ptrace_protect en h api paths c m =
      (out, c + length (List.map_filter (get_secure_hardware_key en h) paths), m') \<and>
    (\<forall>k. map_lookup api k m' =
       (if k \<in> path_keys en h paths then Some protected_value else map_lookup api k m))"
  using assms(2,3)
proof (induction paths arbitrary: m c)
  case Nil
  then show ?case by (simp add: List.map_filter_def)
next
  case (Cons p ps)
  show ?case
  proof (cases "get_secure_hardware_key en h p")
    case None
    with Cons.IH [of m] Cons.prems show ?thesis by (simp add: List.map_filter_def)
  next
    case (Some key)
    from Cons.prems have "key \<in> map_keys api m \<or> card (map_keys api m) < n" by simp
    then obtain m1 where m1: "map_update api key protected_value m = Inr m1"
      and fin: "finite (map_keys api m1)" and "card (map_keys api m1) \<le> Suc (card (map_keys api m))"
      by (rule map_update_room [OF bpf_hash_room [OF assms(1)] Cons.prems(1)])
    with Cons.prems have "card (map_keys api m1) + length ps \<le> n" by simp
    from Cons.IH [OF fin this, of "c + 1"] obtain out m' where m': "ptrace_protect en h api ps (c + 1) m1 =
        (out, c + 1 + length (List.map_filter (get_secure_hardware_key en h) ps), m')"
      "\<And>k. map_lookup api k m' =
         (if k \<in> path_keys en h ps then Some protected_value else map_lookup api k m1)"
      by blast
    with Some m1 show ?thesis using map_update_lookup [OF assms(1) m1]
      by (auto simp: List.map_filter_def)
  qed
qed

lemma length_ptrace_target_binaries [simp]: "length ptrace_target_binaries = 25"
  by (simp add: ptrace_target_binaries_def)

lemma ptrace_init_fresh:
  assumes "mp_get_map (su_provider su) (str ''protected_processes'') p = Inr m"
    and "map_keys (su_api su) m = {}" and "bpf_hash_ok (su_api su) 256"
  obtains out m' where
    "ptrace_init su p =
       (out,
        if path_keys (su_endian su) (su_host su) ptrace_target_binaries = {}
        then Inl (str ''Credential protection initialization failed: Watchlist empty'')
        else Inr (),
        mp_store (su_provider su) (str ''protected_processes'') m' p)"
    and "map_keys (su_api su) m' = path_keys (su_endian su) (su_host su) ptrace_target_binaries"
    and "\<And>k. map_lookup (su_api su) k m' =
      (if k \<in> path_keys (su_endian su) (su_host su) ptrace_target_binaries then Some protected_value else None)"
proof -
  obtain out m' where m': "ptrace_protect (su_endian su) (su_host su) (su_api su) ptrace_target_binaries 0 m =
      (out, length (List.map_filter (get_secure_hardware_key (su_endian su) (su_host su)) ptrace_target_binaries), m')"
    "\<And>k. map_lookup (su_api su) k m' =
       (if k \<in> path_keys (su_endian su) (su_host su) ptrace_target_binaries then Some protected_value
        else map_lookup (su_api su) k m)"
    using ptrace_protect_room [OF assms(3), of m ptrace_target_binaries "su_endian su" "su_host su" 0] assms(2)
    by auto
  have keys: "map_keys (su_api su) m' = path_keys (su_endian su) (su_host su) ptrace_target_binaries"
    using m'(2) assms(2) by (auto simp: map_keys_def)
  have "path_keys (su_endian su) (su_host su) ptrace_target_binaries = {} \<longleftrightarrow>
      List.map_filter (get_secure_hardware_key (su_endian su) (su_host su)) ptrace_target_binaries = []"
    by (simp add: path_keys_def)
  with m'(1) assms(1) have run: "ptrace_init su p =
       (fst (ptrace_init su p),
        if path_keys (su_endian su) (su_host su) ptrace_target_binaries = {}
        then Inl (str ''Credential protection initialization failed: Watchlist empty'')
        else Inr (),
        mp_store (su_provider su) (str ''protected_processes'') m' p)"
    by (simp add: ptrace_init_def Let_def)
  have "map_lookup (su_api su) k m = None" for k using assms(2) by (auto simp: map_keys_def)
  then show thesis using that [OF run keys] m'(2) by simp
qed

section \<open>Properties\<close>

text \<open>
  On an empty map of 256 entries the initialisation fails exactly when none of the
  listed credential binaries can be opened; otherwise the map holds the hardware keys of
  all that can, and nothing else.
\<close>

theorem ptrace_init_protects:
  assumes "mp_get_map (su_provider su) (str ''protected_processes'') p = Inr m"
    and "map_keys (su_api su) m = {}" and "bpf_hash_ok (su_api su) 256"
  shows "(fst (snd (ptrace_init su p)) = Inr () \<longleftrightarrow>
      (\<exists>b \<in> set ptrace_target_binaries. get_secure_hardware_key (su_endian su) (su_host su) b \<noteq> None)) \<and>
    (\<exists>m'. snd (snd (ptrace_init su p)) = mp_store (su_provider su) (str ''protected_processes'') m' p \<and>
       map_keys (su_api su) m' = path_keys (su_endian su) (su_host su) ptrace_target_binaries)"
proof (rule ptrace_init_fresh [OF assms], goal_cases)
  case (1 out m')
  then show ?case by (auto simp: path_keys_empty_iff)
qed

definition ptrace_demo_ctx :: "((u8 list \<times> u8 list) list, (u8 list \<times> u8 list) list) init_ctx" where
  "ptrace_demo_ctx =
     \<lparr>su_endian = Little,
      su_host = \<lparr>walk = (\<lambda>_ _. []),
        openat = (\<lambda>_ p. if p = str ''/usr/bin/sudo''
           then Some \<lparr>of_meta = Some \<lparr>md_ino = 42, md_dev = 2050\<rparr>, of_xattr = (\<lambda>_. None)\<rparr> else None),
        read_to_string = (\<lambda>_. None), parse_toml = (\<lambda>_. None)\<rparr>,
      su_api = hash_map 256,
      su_provider = \<lparr>mp_get_map = (\<lambda>_ p. Inr p), mp_store = (\<lambda>_ m _. m)\<rparr>\<rparr>"

theorem ptrace_init_protects_witness: "fst (snd (ptrace_init ptrace_demo_ctx [])) = Inr ()"
proof -
  have "get_secure_hardware_key Little (su_host ptrace_demo_ctx) (str ''/usr/bin/sudo'') \<noteq> None"
    by (simp add: get_secure_hardware_key_def ptrace_demo_ctx_def)
  moreover have "str ''/usr/bin/sudo'' \<in> set ptrace_target_binaries"
    by (simp add: ptrace_target_binaries_def)
  moreover have "map_keys (hash_map 256) [] = {}" by (simp add: map_keys_def hash_map_def)
  ultimately show ?thesis
    using ptrace_init_protects [of ptrace_demo_ctx "[]" "[]"] hash_map_ok
    by (auto simp: ptrace_demo_ctx_def)
qed

end
