(* ===== verification/BB_Dump_Restrict.thy ===== *)
theory BB_Dump_Restrict
  imports BB_Security_Module
begin

text \<open>
  \<open>modules/src/dump_restrict.rs\<close>: the alert of the core-dump hooks, its parser with the
  kernel's layout, the handler, and the initialisation that indexes the piped core-dump handler.
\<close>

record dump_alert =
  dump_pid :: u32
  dump_uid :: u32
  dump_action_type :: u32
  dump_comm :: rstr

definition dump_try_from_bytes :: "endian \<Rightarrow> u8 list \<Rightarrow> dump_alert io" where
  "dump_try_from_bytes en d =
     (if length d < 28 then fail min_size_error
      else bind_io (read_u32 en (reader_new d)) (\<lambda>(pid, r).
           bind_io (read_u32 en r) (\<lambda>(uid, r).
           bind_io (read_u32 en r) (\<lambda>(action_type, r).
           bind_io (read_string 16 r) (\<lambda>(raw_comm, r).
           ret \<lparr>dump_pid = pid, dump_uid = uid, dump_action_type = action_type, dump_comm = trim_nul raw_comm\<rparr>)))))"

definition dump_fields :: "dump_alert \<Rightarrow> json_fields" where
  "dump_fields a =
     [(str ''pid'', JNum (unat (dump_pid a))),
      (str ''uid'', JNum (unat (dump_uid a))),
      (str ''action_type'', JNum (unat (dump_action_type a))),
      (str ''comm'', JStr (dump_comm a))]"

definition ACTION_COREDUMP_FILE :: u32 where "ACTION_COREDUMP_FILE = 1"
definition ACTION_PRCTL_TAMPER :: u32 where "ACTION_PRCTL_TAMPER = 2"
definition ACTION_PIPED_HANDLER :: u32 where "ACTION_PIPED_HANDLER = 3"

declare ACTION_COREDUMP_FILE_def [simp] ACTION_PRCTL_TAMPER_def [simp]
  ACTION_PIPED_HANDLER_def [simp]

definition dump_action_str :: "u32 \<Rightarrow> rstr" where
  "dump_action_str action_type =
     (if action_type = ACTION_COREDUMP_FILE then str ''COREDUMP_GENERATION''
      else if action_type = ACTION_PRCTL_TAMPER then str ''PRCTL_DUMPABLE_TAMPER''
      else if action_type = ACTION_PIPED_HANDLER then str ''PIPED_COREDUMP_HANDLER''
      else str ''UNKNOWN_VIOLATION'')"

definition dump_handler :: "event_env \<Rightarrow> dump_alert \<Rightarrow> 'g \<Rightarrow> effect list \<times> 'g" where
  "dump_handler env a g =
     ([Stdout (str ''Bouclier Bleu [BLOCK]: PID '' @ show_u32 (dump_pid a) @ str '' (UID ''
         @ show_u32 (dump_uid a) @ str '') attempted ['' @ dump_action_str (dump_action_type a)
         @ str ''] via process '' @ quoted (dump_comm a) @ str ''.'')], g)"

definition dump_capacities :: "host \<Rightarrow> effect list \<times> capacities" where
  "dump_capacities h = ([], [(str ''protected_files'', 16)])"

text \<open>The path of the handler in a piped \<open>core_pattern\<close>, without its arguments.\<close>

definition piped_handler :: "rstr \<Rightarrow> rstr option" where
  "piped_handler core_pattern =
     (case trim_by is_whitespace core_pattern of
        [] \<Rightarrow> None
      | c # stripped \<Rightarrow>
          if c \<noteq> 124 then None
          else (let path_str = (case split_whitespace stripped of [] \<Rightarrow> [] | w # _ \<Rightarrow> w)
                in if path_str = [] then None else Some path_str))"

definition dump_init :: "('m, 'p) init_fun" where
  "dump_init su p =
     (case mp_get_map (su_provider su) (str ''protected_files'') p of
        Inl e \<Rightarrow> ([], Inl e, p)
      | Inr m \<Rightarrow>
          (case read_to_string (su_host su) (str ''/proc/sys/kernel/core_pattern'') of
             None \<Rightarrow> ([], Inr (), p)
           | Some core_pattern \<Rightarrow>
               (case piped_handler core_pattern of
                  None \<Rightarrow> ([], Inr (), p)
                | Some path_str \<Rightarrow>
                    (case get_secure_hardware_key (su_endian su) (su_host su) path_str of
                       None \<Rightarrow>
                         ([Stdout (str ''Bouclier Bleu [Warning]: Could not resolve hardware key for piped handler ''
                             @ quoted path_str @ str ''.'')], Inr (), p)
                     | Some key_bytes \<Rightarrow>
                         (case map_update (su_api su) key_bytes protected_value m of
                            Inl e \<Rightarrow> ([], Inl (str ''Failed to update protected_files map: '' @ e), p)
                          | Inr m' \<Rightarrow>
                              ([Stdout (str ''Bouclier Bleu [Setup]: Core dump piped handler ''
                                  @ quoted path_str @ str '' indexed.'')],
                               Inr (), mp_store (su_provider su) (str ''protected_files'') m' p))))))"

definition dump_restrict_spec :: "(dump_alert, 'g globals_scheme, 'm, 'p) module_spec" where
  "dump_restrict_spec =
     \<lparr>ms_name = str ''Unprivileged Dump Restriction'', ms_slug = str ''dump_restrict'',
      ms_mitre = [str ''T1003'', str ''T1068''],
      ms_parser = dump_try_from_bytes, ms_fields = dump_fields, ms_handler = dump_handler,
      ms_xattr = None,
      ms_dynamic = None,
      ms_capacities = Some dump_capacities, ms_init = Some dump_init\<rparr>"

section \<open>The parser against the kernel's layout\<close>

definition dump_view :: "endian \<Rightarrow> u8 list \<Rightarrow> dump_alert" where
  "dump_view en d =
     \<lparr>dump_pid = u32_field en 0 d,
      dump_uid = u32_field en 4 d,
      dump_action_type = u32_field en 8 d,
      dump_comm = cstr_field 12 16 d\<rparr>"

definition dump_warnings :: "u8 list \<Rightarrow> effect list" where
  "dump_warnings d = cstr_warnings 12 16 d"

text \<open>\<open>struct dump_alert\<close> of \<open>bpf/dump_restrict.bpf.c\<close>.\<close>

record dump_struct =
  ds_pid :: u32
  ds_uid :: u32
  ds_action_type :: u32
  ds_comm :: "u8 list"

definition dump_image :: "endian \<Rightarrow> dump_struct \<Rightarrow> u8 list" where
  "dump_image en c =
     u32_to_ne_bytes en (ds_pid c) @ u32_to_ne_bytes en (ds_uid c) @ u32_to_ne_bytes en (ds_action_type c) @ ds_comm c"

definition dump_sized :: "dump_struct \<Rightarrow> bool" where
  "dump_sized c \<longleftrightarrow> length (ds_comm c) = 16"

definition dump_meaning :: "dump_struct \<Rightarrow> dump_alert" where
  "dump_meaning c =
     \<lparr>dump_pid = ds_pid c,
      dump_uid = ds_uid c,
      dump_action_type = ds_action_type c,
      dump_comm = shown (c_string (ds_comm c))\<rparr>"

definition dump_grumbles :: "dump_struct \<Rightarrow> effect list" where
  "dump_grumbles c = noise (c_string (ds_comm c))"

interpretation dump_layout: alert_layout "dump_try_from_bytes en" 28 "dump_view en" dump_warnings
  "dump_image en" dump_sized dump_meaning dump_grumbles for en
  by unfold_locales
    (auto simp: dump_try_from_bytes_def dump_view_def dump_warnings_def dump_image_def
      dump_sized_def dump_meaning_def dump_grumbles_def reader_simps field_append layout_simps
      dest!: subsetD [OF noise_stderr])

interpretation dump_events: event_module dump_restrict_spec en 28 "dump_view en" dump_warnings for en
  by (simp add: event_module_def dump_restrict_spec_def dump_layout.alert_parser_axioms)

section \<open>The handler named by a core pattern\<close>

lemma piped_handler_word:
  "piped_handler s = Some w \<Longrightarrow> w \<noteq> [] \<and> (\<forall>c \<in> set w. \<not> is_whitespace c)"
proof -
  have head: "u \<noteq> [] \<and> (\<forall>c \<in> set u. \<not> is_whitespace c)" if "split_whitespace t = u # us" for t u us
    using split_whitespace_pieces [of u t] that by simp
  show "piped_handler s = Some w \<Longrightarrow> w \<noteq> [] \<and> (\<forall>c \<in> set w. \<not> is_whitespace c)"
    using head by (auto simp: piped_handler_def Let_def split: list.splits if_splits)
qed

text \<open>
  A piped pattern yields the program's path, whatever follows it after a blank.
\<close>

lemma piped_handler_args:
  assumes "w \<noteq> []" and "\<forall>c \<in> set w. \<not> is_whitespace c" and "\<forall>c \<in> set pre. is_whitespace c"
  shows "piped_handler (pre @ 124 # w @ 32 # args) = Some w"
proof -
  have bar: "\<not> is_whitespace 124" and sp: "is_whitespace 32" by (simp_all add: is_whitespace_def)
  have start: "trim_start_by is_whitespace (pre @ 124 # w @ 32 # args) = 124 # w @ 32 # args"
    using assms(3) bar by (induction pre) (simp_all add: trim_start_by_def)
  have head: "trim_end_by is_whitespace (124 # w) = 124 # w"
    using assms(2) bar by (intro trim_end_by_no_sep) simp
  have first: "split_whitespace w = [w]" "\<And>t. split_whitespace (w @ 32 # t) = w # split_whitespace t"
    using assms sp by (simp_all add: split_whitespace_def split_on_no_sep split_on_sep_append)
  obtain t where t: "32 # args = trim_end_by is_whitespace (32 # args) @ t"
    using trim_end_by_prefix by blast
  have "trim_end_by is_whitespace (124 # w @ 32 # args) =
      (if trim_end_by is_whitespace (32 # args) = [] then 124 # w
       else 124 # w @ trim_end_by is_whitespace (32 # args))"
    using trim_end_by_append [of is_whitespace "124 # w" "32 # args"] head by simp
  then consider "trim_by is_whitespace (pre @ 124 # w @ 32 # args) = 124 # w"
    | u where "trim_by is_whitespace (pre @ 124 # w @ 32 # args) = 124 # w @ 32 # u"
    using t by (cases "trim_end_by is_whitespace (32 # args)")
      (auto simp: trim_by_def start split: if_splits)
  then show ?thesis
    using first assms(1) by cases (simp_all add: piped_handler_def Let_def)
qed

text \<open>Without the pipe character the initialisation has nothing to do.\<close>

lemma piped_handler_file: "c \<noteq> 124 \<Longrightarrow> \<not> is_whitespace c \<Longrightarrow> piped_handler (c # s) = None"
proof -
  assume c: "c \<noteq> 124" "\<not> is_whitespace c"
  then have "trim_by is_whitespace (c # s) = trim_end_by is_whitespace ([c] @ s)"
    by (simp add: trim_by_def trim_start_by_def)
  also have "\<dots> = (if trim_end_by is_whitespace s = [] then [c] else c # trim_end_by is_whitespace s)"
    unfolding trim_end_by_append using c trim_end_by_no_sep [of "[c]" is_whitespace] by simp
  finally show ?thesis using c by (simp add: piped_handler_def)
qed

lemma dump_init_error:
  assumes "mp_get_map (su_provider su) (str ''protected_files'') p = Inr m"
    and "bpf_hash_ok (su_api su) 16" and "map_keys (su_api su) m = {}"
  shows "fst (snd (dump_init su p)) = Inr ()"
proof -
  have "\<exists>m'. map_update (su_api su) k v m = Inr m'" for k v
    by (rule map_update_room [OF bpf_hash_room [OF assms(2)], of m k v]) (simp_all add: assms(3))
  then have "map_update (su_api su) k v m \<noteq> Inl e" for k v e
    by (metis sum.simps(4))
  then show ?thesis using assms(1)
    by (auto simp: dump_init_def split: option.splits sum.splits)
qed

section \<open>Properties\<close>

text \<open>
  From a piped core pattern, after any blanks and before any arguments, exactly the
  handler's path is taken for the watchlist.
\<close>

theorem piped_handler_path:
  assumes "w \<noteq> []" and "\<forall>c \<in> set w. \<not> is_whitespace c" and "\<forall>c \<in> set pre. is_whitespace c"
  shows "piped_handler (pre @ 124 # w @ 32 # args) = Some w"
  using assms by (rule piped_handler_args)

theorem piped_handler_path_witness:
  "piped_handler ([32] @ 124 # str ''/usr/lib/systemd/systemd-coredump'' @ 32 # str ''%P %u %g'') =
     Some (str ''/usr/lib/systemd/systemd-coredump'')"
  by (rule piped_handler_path) (simp_all add: str_def is_whitespace_def)

end
