(* ===== verification/BB_Userns_Restrict.thy ===== *)
theory BB_Userns_Restrict
  imports BB_Security_Module
begin

text \<open>
  \<open>modules/src/userns_restrict.rs\<close>: the alert of the namespace hooks, its parser with the
  kernel's layout, the handler and the module.
\<close>

record userns_alert =
  userns_pid :: u32
  userns_action_type :: u32
  userns_target :: rstr

definition userns_try_from_bytes :: "endian \<Rightarrow> u8 list \<Rightarrow> userns_alert io" where
  "userns_try_from_bytes en d =
     (if length d < 72 then fail min_size_error
      else bind_io (read_u32 en (reader_new d)) (\<lambda>(pid, r).
           bind_io (read_u32 en r) (\<lambda>(action_type, r).
           bind_io (read_string 64 r) (\<lambda>(raw_target, r).
           ret \<lparr>userns_pid = pid, userns_action_type = action_type, userns_target = trim_nul raw_target\<rparr>))))"

definition userns_fields :: "userns_alert \<Rightarrow> json_fields" where
  "userns_fields a =
     [(str ''pid'', JNum (unat (userns_pid a))),
      (str ''action_type'', JNum (unat (userns_action_type a))),
      (str ''target'', JStr (userns_target a))]"

definition ACTION_USERNS_CREATE :: u32 where "ACTION_USERNS_CREATE = 1"
definition ACTION_CAP_SYS_ADMIN :: u32 where "ACTION_CAP_SYS_ADMIN = 2"
definition ACTION_MOUNT_DEV :: u32 where "ACTION_MOUNT_DEV = 3"

declare ACTION_USERNS_CREATE_def [simp] ACTION_CAP_SYS_ADMIN_def [simp]
  ACTION_MOUNT_DEV_def [simp]

definition userns_action_str :: "u32 \<Rightarrow> rstr" where
  "userns_action_str action_type =
     (if action_type = ACTION_USERNS_CREATE then str ''USER_NAMESPACE_CREATION''
      else if action_type = ACTION_CAP_SYS_ADMIN then str ''CAP_SYS_ADMIN_ACQUISITION''
      else if action_type = ACTION_MOUNT_DEV then str ''PHYSICAL_DEVICE_MOUNT''
      else str ''UNKNOWN_VIOLATION'')"

definition userns_handler :: "event_env \<Rightarrow> userns_alert \<Rightarrow> 'g \<Rightarrow> effect list \<times> 'g" where
  "userns_handler env a g =
     ([Stdout (str ''Bouclier Bleu [BLOCK]: PID '' @ show_u32 (userns_pid a)
         @ str '' attempted container escape primitive ['' @ userns_action_str (userns_action_type a)
         @ str ''] targeting: '' @ userns_target a @ str ''.'')], g)"

definition userns_restrict_spec :: "(userns_alert, 'g globals_scheme, 'm, 'p) module_spec" where
  "userns_restrict_spec =
     \<lparr>ms_name = str ''Namespace Escape Monitor'', ms_slug = str ''userns_restrict'',
      ms_mitre = [str ''T1611'', str ''T1068'', str ''T1610'', str ''T1612''],
      ms_parser = userns_try_from_bytes, ms_fields = userns_fields, ms_handler = userns_handler,
      ms_xattr = None,
      ms_dynamic = None,
      ms_capacities = None, ms_init = None\<rparr>"

section \<open>The parser against the kernel's layout\<close>

definition userns_view :: "endian \<Rightarrow> u8 list \<Rightarrow> userns_alert" where
  "userns_view en d =
     \<lparr>userns_pid = u32_field en 0 d,
      userns_action_type = u32_field en 4 d,
      userns_target = cstr_field 8 64 d\<rparr>"

definition userns_warnings :: "u8 list \<Rightarrow> effect list" where
  "userns_warnings d = cstr_warnings 8 64 d"

text \<open>\<open>struct userns_alert\<close> of \<open>bpf/userns_restrict.bpf.c\<close>.\<close>

record userns_struct =
  us_pid :: u32
  us_action_type :: u32
  us_target :: "u8 list"

definition userns_image :: "endian \<Rightarrow> userns_struct \<Rightarrow> u8 list" where
  "userns_image en c =
     u32_to_ne_bytes en (us_pid c) @ u32_to_ne_bytes en (us_action_type c) @ us_target c"

definition userns_sized :: "userns_struct \<Rightarrow> bool" where
  "userns_sized c \<longleftrightarrow> length (us_target c) = 64"

definition userns_meaning :: "userns_struct \<Rightarrow> userns_alert" where
  "userns_meaning c =
     \<lparr>userns_pid = us_pid c,
      userns_action_type = us_action_type c,
      userns_target = shown (c_string (us_target c))\<rparr>"

definition userns_grumbles :: "userns_struct \<Rightarrow> effect list" where
  "userns_grumbles c = noise (c_string (us_target c))"

interpretation userns_layout: alert_layout "userns_try_from_bytes en" 72 "userns_view en" userns_warnings
  "userns_image en" userns_sized userns_meaning userns_grumbles for en
  by unfold_locales
    (auto simp: userns_try_from_bytes_def userns_view_def userns_warnings_def userns_image_def
      userns_sized_def userns_meaning_def userns_grumbles_def reader_simps field_append layout_simps
      dest!: subsetD [OF noise_stderr])

interpretation userns_events: event_module userns_restrict_spec en 72 "userns_view en" userns_warnings for en
  by (simp add: event_module_def userns_restrict_spec_def userns_layout.alert_parser_axioms)

end
