(* ===== verification/BB_Madvise_Ratelimit.thy ===== *)
theory BB_Madvise_Ratelimit
  imports BB_Security_Module
begin

text \<open>
  \<open>modules/src/madvise_ratelimit.rs\<close>: the alert of the madvise tracepoint, its parser with the
  kernel's layout, the handler and the module.
\<close>

record madvise_alert =
  madvise_pid :: u32
  madvise_tid :: u32
  madvise_count :: u32
  madvise_action_type :: u32
  madvise_comm :: rstr

definition madvise_try_from_bytes :: "endian \<Rightarrow> u8 list \<Rightarrow> madvise_alert io" where
  "madvise_try_from_bytes en d =
     (if length d < 32 then fail min_size_error
      else bind_io (read_u32 en (reader_new d)) (\<lambda>(pid, r).
           bind_io (read_u32 en r) (\<lambda>(tid, r).
           bind_io (read_u32 en r) (\<lambda>(count, r).
           bind_io (read_u32 en r) (\<lambda>(action_type, r).
           bind_io (read_string 16 r) (\<lambda>(raw_comm, r).
           ret \<lparr>madvise_pid = pid, madvise_tid = tid, madvise_count = count, madvise_action_type = action_type, madvise_comm = trim_nul raw_comm\<rparr>))))))"

definition madvise_fields :: "madvise_alert \<Rightarrow> json_fields" where
  "madvise_fields a =
     [(str ''pid'', JNum (unat (madvise_pid a))),
      (str ''tid'', JNum (unat (madvise_tid a))),
      (str ''count'', JNum (unat (madvise_count a))),
      (str ''action_type'', JNum (unat (madvise_action_type a))),
      (str ''comm'', JStr (madvise_comm a))]"

definition ACTION_MADVISE_SPAM :: u32 where "ACTION_MADVISE_SPAM = 1"

declare ACTION_MADVISE_SPAM_def [simp]

definition madvise_action_str :: "u32 \<Rightarrow> rstr" where
  "madvise_action_str action_type =
     (if action_type = ACTION_MADVISE_SPAM then str ''MADVISE_RACE_CONDITION''
      else str ''UNKNOWN_VIOLATION'')"

definition madvise_handler :: "event_env \<Rightarrow> madvise_alert \<Rightarrow> 'g \<Rightarrow> effect list \<times> 'g" where
  "madvise_handler env a g =
     ([Stdout (str ''Bouclier Bleu [BLOCK]: Process '' @ quoted (madvise_comm a) @ str '' (PID ''
         @ show_u32 (madvise_pid a) @ str '', TID '' @ show_u32 (madvise_tid a)
         @ str '') neutralized for attempting ['' @ madvise_action_str (madvise_action_type a)
         @ str ''] with '' @ show_u32 (madvise_count a) @ str '' loop iterations.'')], g)"

definition madvise_ratelimit_spec :: "(madvise_alert, 'g globals_scheme, 'm, 'p) module_spec" where
  "madvise_ratelimit_spec =
     \<lparr>ms_name = str ''Race Condition Mitigator'', ms_slug = str ''madvise_ratelimit'',
      ms_mitre = [str ''T1068''],
      ms_parser = madvise_try_from_bytes, ms_fields = madvise_fields, ms_handler = madvise_handler,
      ms_xattr = None,
      ms_dynamic = None,
      ms_capacities = None, ms_init = None\<rparr>"

section \<open>The parser against the kernel's layout\<close>

definition madvise_view :: "endian \<Rightarrow> u8 list \<Rightarrow> madvise_alert" where
  "madvise_view en d =
     \<lparr>madvise_pid = u32_field en 0 d,
      madvise_tid = u32_field en 4 d,
      madvise_count = u32_field en 8 d,
      madvise_action_type = u32_field en 12 d,
      madvise_comm = cstr_field 16 16 d\<rparr>"

definition madvise_warnings :: "u8 list \<Rightarrow> effect list" where
  "madvise_warnings d = cstr_warnings 16 16 d"

text \<open>\<open>struct madvise_alert\<close> of \<open>bpf/madvise_ratelimit.bpf.c\<close>.\<close>

record madvise_struct =
  as_pid :: u32
  as_tid :: u32
  as_count :: u32
  as_action_type :: u32
  as_comm :: "u8 list"

definition madvise_image :: "endian \<Rightarrow> madvise_struct \<Rightarrow> u8 list" where
  "madvise_image en c =
     u32_to_ne_bytes en (as_pid c) @ u32_to_ne_bytes en (as_tid c) @ u32_to_ne_bytes en (as_count c) @ u32_to_ne_bytes en (as_action_type c) @ as_comm c"

definition madvise_sized :: "madvise_struct \<Rightarrow> bool" where
  "madvise_sized c \<longleftrightarrow> length (as_comm c) = 16"

definition madvise_meaning :: "madvise_struct \<Rightarrow> madvise_alert" where
  "madvise_meaning c =
     \<lparr>madvise_pid = as_pid c,
      madvise_tid = as_tid c,
      madvise_count = as_count c,
      madvise_action_type = as_action_type c,
      madvise_comm = shown (c_string (as_comm c))\<rparr>"

definition madvise_grumbles :: "madvise_struct \<Rightarrow> effect list" where
  "madvise_grumbles c = noise (c_string (as_comm c))"

interpretation madvise_layout: alert_layout "madvise_try_from_bytes en" 32 "madvise_view en" madvise_warnings
  "madvise_image en" madvise_sized madvise_meaning madvise_grumbles for en
  by unfold_locales
    (auto simp: madvise_try_from_bytes_def madvise_view_def madvise_warnings_def madvise_image_def
      madvise_sized_def madvise_meaning_def madvise_grumbles_def reader_simps field_append layout_simps
      dest!: subsetD [OF noise_stderr])

interpretation madvise_events: event_module madvise_ratelimit_spec en 32 "madvise_view en" madvise_warnings for en
  by (simp add: event_module_def madvise_ratelimit_spec_def madvise_layout.alert_parser_axioms)

end
