(* ===== verification/BB_Io_Restrict.thy ===== *)
theory BB_Io_Restrict
  imports BB_Security_Module
begin

text \<open>
  \<open>modules/src/io_restrict.rs\<close>: the alert of the I/O hooks, its parser, the handler, the opt-in
  watchlist and the sizing of \<open>pipe_taint_map\<close> from the configuration file. The parser does not
  follow the structure the kernel program writes; the last section states how they differ.
\<close>

record io_alert =
  io_pid :: u32
  io_action_type :: u32
  io_syscall :: rstr

definition io_try_from_bytes :: "endian \<Rightarrow> u8 list \<Rightarrow> io_alert io" where
  "io_try_from_bytes en d =
     (if length d < 24 then fail min_size_error
      else bind_io (read_u32 en (reader_new d)) (\<lambda>(pid, r).
           bind_io (read_u32 en r) (\<lambda>(action_type, r).
           bind_io (read_string 16 r) (\<lambda>(raw_syscall, r).
           ret \<lparr>io_pid = pid, io_action_type = action_type, io_syscall = trim_nul raw_syscall\<rparr>))))"

definition io_fields :: "io_alert \<Rightarrow> json_fields" where
  "io_fields a =
     [(str ''pid'', JNum (unat (io_pid a))),
      (str ''action_type'', JNum (unat (io_action_type a))),
      (str ''syscall'', JStr (io_syscall a))]"

definition ACTION_IO_URING :: u32 where "ACTION_IO_URING = 1"
definition ACTION_VMSPLICE :: u32 where "ACTION_VMSPLICE = 2"
definition ACTION_SPLICE :: u32 where "ACTION_SPLICE = 3"
definition ACTION_SPLICE_FLAGS :: u32 where "ACTION_SPLICE_FLAGS = 4"
definition ACTION_SPLICE_TAINT :: u32 where "ACTION_SPLICE_TAINT = 5"
definition ACTION_MAP_EXHAUSTED :: u32 where "ACTION_MAP_EXHAUSTED = 6"

declare ACTION_IO_URING_def [simp] ACTION_VMSPLICE_def [simp] ACTION_SPLICE_def [simp]
  ACTION_SPLICE_FLAGS_def [simp] ACTION_SPLICE_TAINT_def [simp] ACTION_MAP_EXHAUSTED_def [simp]

definition io_action_str :: "u32 \<Rightarrow> rstr" where
  "io_action_str action_type =
     (if action_type = ACTION_IO_URING then str ''ASYNC_IO_SETUP''
      else if action_type = ACTION_VMSPLICE then str ''ZERO_COPY_VMSPLICE''
      else if action_type = ACTION_SPLICE then str ''ZERO_COPY_SPLICE''
      else if action_type = ACTION_SPLICE_FLAGS then str ''RESTRICTED_SPLICE_FLAGS''
      else if action_type = ACTION_SPLICE_TAINT then str ''TAINTED_PIPELINE_VIOLATION''
      else if action_type = ACTION_MAP_EXHAUSTED then str ''MAP_CAPACITY_EXHAUSTED''
      else str ''UNKNOWN_IO_VIOLATION'')"

definition io_handler :: "event_env \<Rightarrow> io_alert \<Rightarrow> 'g \<Rightarrow> effect list \<times> 'g" where
  "io_handler env a g =
     (if io_action_type a = ACTION_MAP_EXHAUSTED
      then ([Stdout (str ''Bouclier Bleu [WARN]: PID '' @ show_u32 (io_pid a)
               @ str '' degraded visibility. Taint map full ['' @ io_action_str (io_action_type a)
               @ str ''] via '' @ io_syscall a @ str ''.'')], g)
      else ([Stdout (str ''Bouclier Bleu [BLOCK]: PID '' @ show_u32 (io_pid a)
               @ str '' attempted restricted I/O primitive ['' @ io_action_str (io_action_type a)
               @ str ''] via '' @ io_syscall a @ str ''.'')], g))"

text \<open>The immediately called closure: a chain of \<open>?\<close> over options; \<open>size as u32\<close> truncates.\<close>

definition io_extracted_size :: "host \<Rightarrow> u32 option" where
  "io_extracted_size h =
     Option.bind (read_to_string h (str ''/etc/bouclier-bleu/config.toml'')) (\<lambda>config_str.
     Option.bind (parse_toml h config_str) (\<lambda>config.
     Option.bind (toml_get (str ''modules'') config) (\<lambda>modules.
     Option.bind (toml_get (str ''io_restrict_map_size'') modules) (\<lambda>v.
     Option.bind (as_integer v) (\<lambda>size. Some (ucast size))))))"

definition io_pipe_map_size :: "host \<Rightarrow> u32" where
  "io_pipe_map_size h =
     (case io_extracted_size h of None \<Rightarrow> 8192 | Some sz \<Rightarrow> max sz 1024)"

definition io_capacities :: "host \<Rightarrow> effect list \<times> capacities" where
  "io_capacities h =
     ([Stdout (str ''Bouclier Bleu [Setup]: Scaling pipe_taint_map to '' @ show_u32 (io_pipe_map_size h)
         @ str '' entries based on configuration.'')],
      [(str ''pipe_taint_map'', io_pipe_map_size h)])"

definition io_restrict_spec :: "(io_alert, 'g globals_scheme, 'm, 'p) module_spec" where
  "io_restrict_spec =
     \<lparr>ms_name = str ''I/O Confinement Monitor'', ms_slug = str ''io_restrict'',
      ms_mitre = [str ''T1486'', str ''T1068''],
      ms_parser = io_try_from_bytes, ms_fields = io_fields, ms_handler = io_handler,
      ms_xattr = Some
        \<lparr>xw_map_name = str ''io_restrict_binaries'', xw_attribute = str ''user.bouclier.io_restrict'',
         xw_target_paths = [str ''/bin'', str ''/sbin'', str ''/usr/bin'', str ''/usr/sbin'', str ''/opt'']\<rparr>,
      ms_dynamic = None,
      ms_capacities = Some io_capacities, ms_init = None\<rparr>"

section \<open>The parser against the kernel's layout\<close>

definition io_view :: "endian \<Rightarrow> u8 list \<Rightarrow> io_alert" where
  "io_view en d =
     \<lparr>io_pid = u32_field en 0 d,
      io_action_type = u32_field en 4 d,
      io_syscall = cstr_field 8 16 d\<rparr>"

definition io_warnings :: "u8 list \<Rightarrow> effect list" where
  "io_warnings d = cstr_warnings 8 16 d"

interpretation io_layout: alert_parser "io_try_from_bytes en" 24 "io_view en" io_warnings for en
  by unfold_locales
    (auto simp: io_try_from_bytes_def io_view_def io_warnings_def
      reader_simps field_append dest!: subsetD [OF cstr_warnings_stderr])

interpretation io_events: event_module io_restrict_spec en 24 "io_view en" io_warnings for en
  by (simp add: event_module_def io_restrict_spec_def io_layout.alert_parser_axioms)

section \<open>The configured map size\<close>

lemma io_pipe_map_size_floor: "1024 \<le> io_pipe_map_size h"
  by (auto simp: io_pipe_map_size_def word_le_nat_alt max_def split: option.splits)

lemma io_extracted_size_eq:
  assumes "read_to_string h (str ''/etc/bouclier-bleu/config.toml'') = Some s"
    and "parse_toml h s = Some (TTable kvs)" and "map_of kvs (str ''modules'') = Some (TTable ms)"
    and "map_of ms (str ''io_restrict_map_size'') = Some (TInteger i)"
  shows "io_extracted_size h = Some (ucast i)"
  using assms by (simp add: io_extracted_size_def toml_get_def as_integer_def)

text \<open>The cast keeps the low 32 bits: a negative size becomes one of more than two billion entries.\<close>

lemma io_negative_size:
  assumes "io_extracted_size h = Some (ucast (- 1 :: 64 word))"
  shows "io_pipe_map_size h = 0xFFFFFFFF"
proof -
  have "(ucast (- 1 :: 64 word) :: u32) = - 1"
    by (rule bit_word_eqI) (simp add: bit_simps)
  also have "\<dots> = 0xFFFFFFFF" by simp
  finally show ?thesis using assms by (simp add: io_pipe_map_size_def max_def)
qed

section \<open>The kernel's structure\<close>

text \<open>
  \<open>struct io_restrict_alert\<close> of \<open>bpf/io_restrict.bpf.c\<close> has a thread-group id before the
  three fields the parser expects.
\<close>

definition io_kernel_record :: "endian \<Rightarrow> u32 \<Rightarrow> u32 \<Rightarrow> u32 \<Rightarrow> rstr \<Rightarrow> u8 list" where
  "io_kernel_record en tgid pid action_type sc =
     u32_to_ne_bytes en tgid @ u32_to_ne_bytes en pid @ u32_to_ne_bytes en action_type @
     c_char_array 16 sc"

lemma io_view_kernel_record:
  assumes "fits_array 16 sc"
  shows "io_pid (io_view en (io_kernel_record en tgid pid action_type sc)) = tgid"
    and "io_action_type (io_view en (io_kernel_record en tgid pid action_type sc)) = pid"
    and "length (io_kernel_record en tgid pid action_type sc) = 28"
  using assms by (simp_all add: io_view_def io_kernel_record_def layout_simps)

section \<open>Properties\<close>

text \<open>
  A record as the kernel program writes it is accepted and misread: the thread-group id
  is reported as the process, the process id is taken for the action. For every process
  id above six the operator is told of an unknown violation, whatever the hook blocked.
\<close>

theorem io_record_misread:
  assumes "fits_array 16 sc"
  shows "\<exists>a. snd (io_try_from_bytes en (io_kernel_record en tgid pid action sc)) = Inr a \<and>
    io_pid a = tgid \<and> io_action_type a = pid \<and>
    (6 < pid \<longrightarrow> io_action_str (io_action_type a) = str ''UNKNOWN_IO_VIOLATION'')"
proof -
  let ?d = "io_kernel_record en tgid pid action sc"
  have "snd (io_try_from_bytes en ?d) = Inr (io_view en ?d)"
    using io_layout.parse_full [of ?d en] io_view_kernel_record(3) [OF assms] by simp
  moreover have "io_action_str pid = str ''UNKNOWN_IO_VIOLATION''" if "6 < pid"
    using that by (auto simp: io_action_str_def word_less_nat_alt)
  ultimately show ?thesis using io_view_kernel_record(1,2) [OF assms] by auto
qed

theorem io_record_misread_witness:
  "\<exists>a. snd (io_try_from_bytes Little (io_kernel_record Little 900 901 2 (str ''vmsplice''))) = Inr a \<and>
    io_pid a = 900 \<and> io_action_type a = 901 \<and>
    io_action_str (io_action_type a) = str ''UNKNOWN_IO_VIOLATION''"
proof -
  have "fits_array 16 (str ''vmsplice'')"
    by (simp add: fits_array_def printable_def str_def)
  from io_record_misread [OF this, of Little 900 901 2] show ?thesis by simp
qed

text \<open>
  The map that tracks tainted pipes has at least 1024 entries, whatever the
  configuration says; but the size is cut to 32 bits first, so that -1 asks for the
  largest size there is and not for the minimum.
\<close>

theorem io_map_size:
  "1024 \<le> io_pipe_map_size h \<and>
   (io_extracted_size h = Some (ucast (- 1 :: 64 word)) \<longrightarrow> io_pipe_map_size h = 0xFFFFFFFF)"
  using io_pipe_map_size_floor io_negative_size by blast

definition io_demo_host :: host where
  "io_demo_host =
     \<lparr>walk = (\<lambda>_ _. []), openat = (\<lambda>_ _. None), read_to_string = (\<lambda>_. Some []),
      parse_toml = (\<lambda>_. Some (TTable [(str ''modules'',
        TTable [(str ''io_restrict_map_size'', TInteger (- 1))])]))\<rparr>"

theorem io_map_size_witness: "io_pipe_map_size io_demo_host = 0xFFFFFFFF"
proof -
  have "io_extracted_size io_demo_host = Some (ucast (- 1 :: 64 word))"
    by (rule io_extracted_size_eq [of _ "[]" "[(str ''modules'', TTable [(str ''io_restrict_map_size'', TInteger (- 1))])]"
          "[(str ''io_restrict_map_size'', TInteger (- 1))]"])
      (simp_all add: io_demo_host_def)
  then show ?thesis using io_map_size [of io_demo_host] by blast
qed

end
