(* ===== verification/BB_Registry.thy ===== *)
theory BB_Registry
  imports BB_Exec_Block BB_Rename_Entropy BB_Shield BB_Mount_Secure BB_Strict_Wx BB_Ptrace_Block
    BB_Dump_Restrict BB_Userns_Restrict BB_Madvise_Ratelimit BB_Io_Restrict
begin

text \<open>
  \<open>build_registry\<close> of \<open>modules/src/common/macros.rs\<close>: the ten modules behind one object
  type, and what holds of all of them: their identifiers are distinct, none panics on any
  payload, the lines they log have distinct keys. \<open>find_module\<close> and \<open>toggle_module_in\<close> are
  the registry searches the daemon makes by slug.
\<close>

type_synonym ('g, 'm, 'p) registry = "('g, 'm, 'p) security_module list"

definition build_registry :: "('g tracked_scheme, 'm, 'p) registry" where
  "build_registry =
     [new_module exec_block_spec,
      new_module rename_entropy_spec,
      new_module shield_spec,
      new_module mount_secure_spec,
      new_module strict_wx_spec,
      new_module ptrace_block_spec,
      new_module dump_restrict_spec,
      new_module userns_restrict_spec,
      new_module madvise_ratelimit_spec,
      new_module io_restrict_spec]"

text \<open>\<open>registry.iter().find(|m| m.slug() == target)\<close>.\<close>

definition find_module :: "rstr \<Rightarrow> ('g, 'm, 'p) registry \<Rightarrow> ('g, 'm, 'p) security_module option" where
  "find_module target reg = List.find (\<lambda>m. sm_slug m = target) reg"

text \<open>The objects are shared: a toggle through one reference is seen through every other.\<close>

fun toggle_module_in :: "rstr \<Rightarrow> bool \<Rightarrow> ('g, 'm, 'p) registry \<Rightarrow> effect list \<times> ('g, 'm, 'p) registry" where
  "toggle_module_in target b [] = ([], [])"
| "toggle_module_in target b (m # ms) =
     (if sm_slug m = target then (case toggle b m of (e, m') \<Rightarrow> (e, m' # ms))
      else (case toggle_module_in target b ms of (e, ms') \<Rightarrow> (e, m # ms')))"

section \<open>The modules' identifiers\<close>

lemmas module_spec_defs =
  exec_block_spec_def rename_entropy_spec_def shield_spec_def mount_secure_spec_def
  strict_wx_spec_def ptrace_block_spec_def dump_restrict_spec_def userns_restrict_spec_def
  madvise_ratelimit_spec_def io_restrict_spec_def

lemma registry_slugs:
  "map sm_slug build_registry = map str
     [''exec_block'', ''rename_entropy'', ''shield'', ''mount_secure'', ''strict_wx'',
      ''ptrace_block'', ''dump_restrict'', ''userns_restrict'', ''madvise_ratelimit'', ''io_restrict'']"
  by (simp add: build_registry_def new_module_def module_spec_defs)

lemma registry_distinct: "distinct (map sm_slug build_registry)"
  unfolding registry_slugs by simp

lemma registry_inactive: "m \<in> set build_registry \<Longrightarrow> \<not> status m"
  by (auto simp: build_registry_def)

section \<open>Every module, on every payload\<close>

lemmas events_no_panic =
  exec_events.event_no_panic rename_events.event_no_panic shield_events.event_no_panic
  mount_events.event_no_panic wx_events.event_no_panic ptrace_events.event_no_panic
  dump_events.event_no_panic userns_events.event_no_panic madvise_events.event_no_panic
  io_events.event_no_panic

text \<open>A registry that runs the code of \<open>build_registry\<close>, with any of its flags set.\<close>

definition flagless :: "('g, 'm, 'p) security_module \<Rightarrow> ('g, 'm, 'p) security_module" where
  "flagless m = m\<lparr>is_active := False\<rparr>"

definition same_code :: "('g, 'm, 'p) registry \<Rightarrow> ('g, 'm, 'p) registry \<Rightarrow> bool" where
  "same_code reg reg' \<longleftrightarrow> map flagless reg = map flagless reg'"

lemma same_code_refl [simp]: "same_code reg reg"
  by (simp add: same_code_def)

lemma same_code_trans: "same_code a b \<Longrightarrow> same_code b c \<Longrightarrow> same_code a c"
  by (simp add: same_code_def)

lemma flagless_simps [simp]:
  "sm_slug (flagless m) = sm_slug m" "sm_name (flagless m) = sm_name m"
  "sm_event (flagless m) = sm_event m" "sm_init (flagless m) = sm_init m"
  "sm_map_capacities (flagless m) = sm_map_capacities m"
  "flagless (snd (toggle b m)) = flagless m"
  by (simp_all add: flagless_def toggle_def)

lemma same_code_toggle: "same_code reg (snd (toggle_module_in target b reg))"
proof (induction reg)
  case (Cons m reg)
  have "flagless (m\<lparr>is_active := b\<rparr>) = flagless m" by (simp add: flagless_def)
  with Cons show ?case by (auto simp: same_code_def toggle_def split: prod.splits)
qed simp

lemma same_code_slugs: "same_code reg reg' \<Longrightarrow> map sm_slug reg' = map sm_slug reg"
proof -
  have slugs: "map sm_slug r = map sm_slug (map flagless r)" for r :: "('g, 'm, 'p) registry"
    by simp
  show "same_code reg reg' \<Longrightarrow> map sm_slug reg' = map sm_slug reg"
    unfolding same_code_def slugs [of reg] slugs [of reg'] by simp
qed

lemma same_code_member:
  assumes "same_code reg reg'" "m' \<in> set reg'"
  shows "\<exists>m \<in> set reg. flagless m = flagless m'"
proof -
  from assms have "flagless m' \<in> set (map flagless reg)"
    unfolding same_code_def by (metis image_eqI list.set_map)
  then show ?thesis by auto
qed

lemma flagless_event: "flagless m = flagless m' \<Longrightarrow> sm_event m = sm_event m'"
  by (metis flagless_simps(3))

lemma built_event_no_panic:
  "m \<in> set build_registry \<Longrightarrow> fst (snd (sm_event m en env d g)) = Inr ()"
  unfolding build_registry_def list.set insert_iff empty_iff
  by (elim disjE) (simp_all add: events_no_panic)

lemma registry_no_panic:
  assumes "same_code build_registry reg" "m \<in> set reg"
  shows "fst (snd (process_event m en env d g)) = Inr ()"
proof -
  obtain m0 where m0: "m0 \<in> set build_registry" "flagless m0 = flagless m"
    using same_code_member [OF assms] by blast
  have "sm_event m = sm_event m0" using flagless_event [OF m0(2)] by simp
  with built_event_no_panic [OF m0(1)] show ?thesis by (simp add: process_event_def)
qed

section \<open>Properties\<close>

text \<open>
  Each parser accepts exactly the payloads of at least its structure's size; for any
  other the answer is the one fixed error. No payload makes a parser panic.
\<close>

theorem parsers_accept:
  "((\<exists>a. snd (exec_try_from_bytes en d) = Inr a) \<longleftrightarrow> 4100 \<le> length d) \<and>
   ((\<exists>a. snd (rename_try_from_bytes en d) = Inr a) \<longleftrightarrow> 4360 \<le> length d) \<and>
   ((\<exists>a. snd (shield_try_from_bytes en d) = Inr a) \<longleftrightarrow> 4104 \<le> length d) \<and>
   ((\<exists>a. snd (mount_try_from_bytes en d) = Inr a) \<longleftrightarrow> 836 \<le> length d) \<and>
   ((\<exists>a. snd (wx_try_from_bytes en d) = Inr a) \<longleftrightarrow> 20 \<le> length d) \<and>
   ((\<exists>a. snd (ptrace_try_from_bytes en d) = Inr a) \<longleftrightarrow> 28 \<le> length d) \<and>
   ((\<exists>a. snd (dump_try_from_bytes en d) = Inr a) \<longleftrightarrow> 28 \<le> length d) \<and>
   ((\<exists>a. snd (userns_try_from_bytes en d) = Inr a) \<longleftrightarrow> 72 \<le> length d) \<and>
   ((\<exists>a. snd (madvise_try_from_bytes en d) = Inr a) \<longleftrightarrow> 32 \<le> length d) \<and>
   ((\<exists>a. snd (io_try_from_bytes en d) = Inr a) \<longleftrightarrow> 24 \<le> length d) \<and>
   (snd (exec_try_from_bytes en d) = Inl e \<longleftrightarrow> length d < 4100 \<and> e = Fail min_size_error) \<and>
   (snd (rename_try_from_bytes en d) = Inl e \<longleftrightarrow> length d < 4360 \<and> e = Fail min_size_error) \<and>
   (snd (shield_try_from_bytes en d) = Inl e \<longleftrightarrow> length d < 4104 \<and> e = Fail min_size_error) \<and>
   (snd (mount_try_from_bytes en d) = Inl e \<longleftrightarrow> length d < 836 \<and> e = Fail min_size_error) \<and>
   (snd (wx_try_from_bytes en d) = Inl e \<longleftrightarrow> length d < 20 \<and> e = Fail min_size_error) \<and>
   (snd (ptrace_try_from_bytes en d) = Inl e \<longleftrightarrow> length d < 28 \<and> e = Fail min_size_error) \<and>
   (snd (dump_try_from_bytes en d) = Inl e \<longleftrightarrow> length d < 28 \<and> e = Fail min_size_error) \<and>
   (snd (userns_try_from_bytes en d) = Inl e \<longleftrightarrow> length d < 72 \<and> e = Fail min_size_error) \<and>
   (snd (madvise_try_from_bytes en d) = Inl e \<longleftrightarrow> length d < 32 \<and> e = Fail min_size_error) \<and>
   (snd (io_try_from_bytes en d) = Inl e \<longleftrightarrow> length d < 24 \<and> e = Fail min_size_error)"
  by (intro conjI; rule
      exec_layout.parse_accepts_iff exec_layout.parse_error rename_layout.parse_accepts_iff rename_layout.parse_error
      shield_layout.parse_accepts_iff shield_layout.parse_error mount_layout.parse_accepts_iff mount_layout.parse_error
      wx_layout.parse_accepts_iff wx_layout.parse_error ptrace_layout.parse_accepts_iff ptrace_layout.parse_error
      dump_layout.parse_accepts_iff dump_layout.parse_error userns_layout.parse_accepts_iff userns_layout.parse_error
      madvise_layout.parse_accepts_iff madvise_layout.parse_error io_layout.parse_accepts_iff io_layout.parse_error)

text \<open>
  C26: whatever bytes are in the structure a kernel program submits, in either byte order, and
  whatever follows it in the record, nine of the ten parsers return every number of it
  unchanged and of every char array the lossy decoding of the bytes before the first zero,
  each character that is not printable ASCII replaced by a question mark; they print one
  warning per string in which they replaced something, and nothing else.
\<close>

theorem layouts_round_trip:
  "(exec_sized ce \<longrightarrow> exec_try_from_bytes en (exec_image en ce @ x) = (exec_grumbles ce, Inr (exec_meaning ce))) \<and>
   (rename_sized cr \<longrightarrow> rename_try_from_bytes en (rename_image en cr @ x) = (rename_grumbles cr, Inr (rename_meaning cr))) \<and>
   (shield_sized cs \<longrightarrow> shield_try_from_bytes en (shield_image en cs @ x) = (shield_grumbles cs, Inr (shield_meaning cs))) \<and>
   (mount_sized cm \<longrightarrow> mount_try_from_bytes en (mount_image en cm @ x) = (mount_grumbles cm, Inr (mount_meaning cm))) \<and>
   (wx_sized cw \<longrightarrow> wx_try_from_bytes en (wx_image en cw @ x) = (wx_grumbles cw, Inr (wx_meaning cw))) \<and>
   (ptrace_sized cp \<longrightarrow> ptrace_try_from_bytes en (ptrace_image en cp @ x) = (ptrace_grumbles cp, Inr (ptrace_meaning cp))) \<and>
   (dump_sized cd \<longrightarrow> dump_try_from_bytes en (dump_image en cd @ x) = (dump_grumbles cd, Inr (dump_meaning cd))) \<and>
   (userns_sized cu \<longrightarrow> userns_try_from_bytes en (userns_image en cu @ x) = (userns_grumbles cu, Inr (userns_meaning cu))) \<and>
   (madvise_sized ca \<longrightarrow> madvise_try_from_bytes en (madvise_image en ca @ x) = (madvise_grumbles ca, Inr (madvise_meaning ca)))"
  by (intro conjI impI; rule
      exec_layout.parse_image_append rename_layout.parse_image_append shield_layout.parse_image_append
      mount_layout.parse_image_append wx_layout.parse_image_append ptrace_layout.parse_image_append
      dump_layout.parse_image_append userns_layout.parse_image_append madvise_layout.parse_image_append;
      assumption)

lemma example_texts:
  "fits_array 256 (str ''x.locked'')" "fits_array 4096 (str ''/etc/x'')" "fits_array 256 (str ''/dev/sda1'')"
  "fits_array 64 (str ''vfat'')" "fits_array 512 (str ''/media/u'')" "fits_array 16 (str ''mmap'')"
  "fits_array 16 (str ''sshd'')" "fits_array 16 (str ''sh'')" "fits_array 64 (str ''unshare'')"
  "fits_array 16 (str ''cow'')"
  "\<forall>c \<in> set (str ''/tmp/x''). printable c" "\<forall>c \<in> set (str ''/home/u''). printable c"
  by (simp_all add: fits_array_def printable_def str_def)

lemma example_lengths: "length (str ''/tmp/x'') = 6" "length (str ''/home/u'') = 7"
  by (simp_all add: str_def)

lemma example_join: "trim_end_by is_slash (str ''/home/u'') @ str ''/'' @ str ''x.locked'' = str ''/home/u/x.locked''"
  by (simp add: trim_end_by_def is_slash_def str_def)

text \<open>The first two over memory that was not cleared.\<close>

theorem layouts_round_trip_witness:
  "exec_try_from_bytes Little (exec_image Little \<lparr>xs_pid = 7, xs_path = kernel_string (str ''/tmp/x'') @ 0 # replicate 4089 9\<rparr> @ [0]) = ([], Inr \<lparr>exec_pid = 7, exec_path = str ''/tmp/x''\<rparr>) \<and>
   rename_try_from_bytes Little (rename_image Little \<lparr>rs_pid = 7, rs_ppid = 8, rs_dir_path = kernel_string (str ''/home/u'') @ 0 # replicate 4088 9, rs_file_name = c_char_array 256 (str ''x.locked'')\<rparr> @ [0]) = ([], Inr \<lparr>rename_pid = 7, rename_ppid = 8, rename_full_path = str ''/home/u/x.locked''\<rparr>) \<and>
   shield_try_from_bytes Little (shield_image Little \<lparr>ss_pid = 7, ss_action_type = 1, ss_target = c_char_array 4096 (str ''/etc/x'')\<rparr> @ [0]) = ([], Inr \<lparr>shield_pid = 7, shield_action_type = 1, shield_target = str ''/etc/x''\<rparr>) \<and>
   mount_try_from_bytes Little (mount_image Little \<lparr>ms_pid = 7, ms_dev_name = c_char_array 256 (str ''/dev/sda1''), ms_fs_type = c_char_array 64 (str ''vfat''), ms_mount_point = c_char_array 512 (str ''/media/u'')\<rparr> @ [0]) = ([], Inr \<lparr>mount_pid = 7, mount_dev_name = str ''/dev/sda1'', mount_fs_type = str ''vfat'', mount_mount_point = str ''/media/u''\<rparr>) \<and>
   wx_try_from_bytes Little (wx_image Little \<lparr>ws_pid = 7, ws_syscall = c_char_array 16 (str ''mmap'')\<rparr> @ [0]) = ([], Inr \<lparr>wx_pid = 7, wx_syscall = str ''mmap''\<rparr>) \<and>
   ptrace_try_from_bytes Little (ptrace_image Little \<lparr>ps_pid = 7, ps_target_pid = 9, ps_action_type = 2, ps_target_comm = c_char_array 16 (str ''sshd'')\<rparr> @ [0]) = ([], Inr \<lparr>ptrace_pid = 7, ptrace_target_pid = 9, ptrace_action_type = 2, ptrace_target_comm = str ''sshd''\<rparr>) \<and>
   dump_try_from_bytes Little (dump_image Little \<lparr>ds_pid = 7, ds_uid = 1000, ds_action_type = 2, ds_comm = c_char_array 16 (str ''sh'')\<rparr> @ [0]) = ([], Inr \<lparr>dump_pid = 7, dump_uid = 1000, dump_action_type = 2, dump_comm = str ''sh''\<rparr>) \<and>
   userns_try_from_bytes Little (userns_image Little \<lparr>us_pid = 7, us_action_type = 1, us_target = c_char_array 64 (str ''unshare'')\<rparr> @ [0]) = ([], Inr \<lparr>userns_pid = 7, userns_action_type = 1, userns_target = str ''unshare''\<rparr>) \<and>
   madvise_try_from_bytes Little (madvise_image Little \<lparr>as_pid = 7, as_tid = 8, as_count = 1001, as_action_type = 1, as_comm = c_char_array 16 (str ''cow'')\<rparr> @ [0]) = ([], Inr \<lparr>madvise_pid = 7, madvise_tid = 8, madvise_count = 1001, madvise_action_type = 1, madvise_comm = str ''cow''\<rparr>)"
  using layouts_round_trip [where en = Little and x = "[0]" and ce = "\<lparr>xs_pid = 7, xs_path = kernel_string (str ''/tmp/x'') @ 0 # replicate 4089 9\<rparr>"
      and cr = "\<lparr>rs_pid = 7, rs_ppid = 8, rs_dir_path = kernel_string (str ''/home/u'') @ 0 # replicate 4088 9, rs_file_name = c_char_array 256 (str ''x.locked'')\<rparr>"
      and cs = "\<lparr>ss_pid = 7, ss_action_type = 1, ss_target = c_char_array 4096 (str ''/etc/x'')\<rparr>"
      and cm = "\<lparr>ms_pid = 7, ms_dev_name = c_char_array 256 (str ''/dev/sda1''), ms_fs_type = c_char_array 64 (str ''vfat''), ms_mount_point = c_char_array 512 (str ''/media/u'')\<rparr>"
      and cw = "\<lparr>ws_pid = 7, ws_syscall = c_char_array 16 (str ''mmap'')\<rparr>"
      and cp = "\<lparr>ps_pid = 7, ps_target_pid = 9, ps_action_type = 2, ps_target_comm = c_char_array 16 (str ''sshd'')\<rparr>"
      and cd = "\<lparr>ds_pid = 7, ds_uid = 1000, ds_action_type = 2, ds_comm = c_char_array 16 (str ''sh'')\<rparr>"
      and cu = "\<lparr>us_pid = 7, us_action_type = 1, us_target = c_char_array 64 (str ''unshare'')\<rparr>"
      and ca = "\<lparr>as_pid = 7, as_tid = 8, as_count = 1001, as_action_type = 1, as_comm = c_char_array 16 (str ''cow'')\<rparr>"]
  by (simp add: exec_sized_def exec_meaning_def exec_grumbles_def rename_sized_def rename_meaning_def rename_grumbles_def shield_sized_def shield_meaning_def shield_grumbles_def mount_sized_def mount_meaning_def mount_grumbles_def wx_sized_def wx_meaning_def wx_grumbles_def ptrace_sized_def ptrace_meaning_def ptrace_grumbles_def dump_sized_def dump_meaning_def dump_grumbles_def userns_sized_def userns_meaning_def userns_grumbles_def madvise_sized_def madvise_meaning_def madvise_grumbles_def
      shown_literal example_texts shown_kernel_string noise_kernel_string kernel_string_nonzero example_lengths
      example_join del: append_Cons)

text \<open>
  The flattened envelope of every module has distinct keys: no field of an alert
  collides with the envelope's own.
\<close>

theorem envelope_keys_distinct:
  "distinct (map fst (enveloped_fields (e\<lparr>payload := exec_fields a0\<rparr>))) \<and>
   distinct (map fst (enveloped_fields (e\<lparr>payload := rename_fields a1\<rparr>))) \<and>
   distinct (map fst (enveloped_fields (e\<lparr>payload := shield_fields a2\<rparr>))) \<and>
   distinct (map fst (enveloped_fields (e\<lparr>payload := mount_fields a3\<rparr>))) \<and>
   distinct (map fst (enveloped_fields (e\<lparr>payload := wx_fields a4\<rparr>))) \<and>
   distinct (map fst (enveloped_fields (e\<lparr>payload := ptrace_fields a5\<rparr>))) \<and>
   distinct (map fst (enveloped_fields (e\<lparr>payload := dump_fields a6\<rparr>))) \<and>
   distinct (map fst (enveloped_fields (e\<lparr>payload := userns_fields a7\<rparr>))) \<and>
   distinct (map fst (enveloped_fields (e\<lparr>payload := madvise_fields a8\<rparr>))) \<and>
   distinct (map fst (enveloped_fields (e\<lparr>payload := io_fields a9\<rparr>)))"
  by (simp add: enveloped_fields_def exec_fields_def rename_fields_def shield_fields_def mount_fields_def
      wx_fields_def ptrace_fields_def dump_fields_def userns_fields_def madvise_fields_def io_fields_def)

end
