(* ===== verification/BB_Bpf_Manager.thy ===== *)
theory BB_Bpf_Manager
  imports BB_Registry
begin

text \<open>
  \<open>core/src/bpf_manager.rs\<close>: the map provider of the daemon, the kernel-version test that
  chooses between the two generations of VFS hooks, \<open>load_modules\<close> and
  \<open>initialize_active_modules\<close>. The engine is the map from a module's name to its loaded
  skeleton; the registry is passed along because initialisation toggles its flags.
\<close>

section \<open>The map provider\<close>

text \<open>Writing through a handle changes the kernel's map, which the skeleton only refers to.\<close>

definition core_map_provider :: "'m loader \<Rightarrow> ('m, 'm skeleton) map_provider" where
  "core_map_provider ld =
     \<lparr>mp_get_map = (\<lambda>name skel. get_map ld skel name),
      mp_store = (\<lambda>name m skel. skel\<lparr>sk_maps := AList.update name m (sk_maps skel)\<rparr>)\<rparr>"

interpretation core_provider: map_provider_contract "core_map_provider ld" for ld
  by unfold_locales
    (auto simp: core_map_provider_def get_map_def update_conv' split: option.splits if_splits)

section \<open>The kernel version\<close>

text \<open>\<open>str::parse::<u32>\<close>: an optional plus sign, then digits, within 32 bits.\<close>

definition is_digit :: "rchar \<Rightarrow> bool" where
  "is_digit c \<longleftrightarrow> 48 \<le> c \<and> c \<le> 57"

definition digits_value :: "rstr \<Rightarrow> nat" where
  "digits_value s = foldl (\<lambda>acc c. 10 * acc + (c - 48)) 0 s"

definition parse_u32 :: "rstr \<Rightarrow> nat option" where
  "parse_u32 s =
     (let digits = (case s of [] \<Rightarrow> [] | c # cs \<Rightarrow> if c = 43 then cs else s)
      in if digits \<noteq> [] \<and> list_all is_digit digits \<and> digits_value digits < 2 ^ 32
         then Some (digits_value digits) else None)"

definition is_dot :: "rchar \<Rightarrow> bool" where
  "is_dot c \<longleftrightarrow> c = 46"

definition is_post_2025_vfs :: "host \<Rightarrow> bool" where
  "is_post_2025_vfs h =
     (case read_to_string h (str ''/proc/sys/kernel/osrelease'') of
        None \<Rightarrow> True
      | Some s \<Rightarrow>
          (let release = trim_by is_whitespace s;
               parts = split_on is_dot release
           in if length parts < 2 then True
              else (case (parse_u32 (parts ! 0), parse_u32 (parts ! 1)) of
                      (Some major, Some minor) \<Rightarrow> major > 6 \<or> (major = 6 \<and> minor \<ge> 12)
                    | _ \<Rightarrow> True)))"

section \<open>Loading\<close>

type_synonym 'm engine = "(rstr \<times> 'm skeleton) list"

definition get_skeleton :: "'m engine \<Rightarrow> rstr \<Rightarrow> 'm skeleton option" where
  "get_skeleton eng target = map_of eng target"

definition get_capacities ::
    "host \<Rightarrow> rstr \<Rightarrow> ('g, 'm, 'p) registry \<Rightarrow> effect list \<times> capacities" where
  "get_capacities h mod_name reg =
     (case find_module mod_name reg of
        Some user_mod \<Rightarrow> map_capacities user_mod h
      | None \<Rightarrow> ([], []))"

definition hook_autoload :: "rstr \<Rightarrow> bool \<Rightarrow> rstr \<times> bool \<Rightarrow> rstr \<times> bool" where
  "hook_autoload mod_name post_2025 prog =
     (let name = fst prog;
          old_hook = mod_name @ str ''_vfs_mkdir_exit_old'';
          new_hook = mod_name @ str ''_vfs_mkdir_exit_new'';
          old_rename = mod_name @ str ''_vfs_rename_exit_old'';
          new_rename = mod_name @ str ''_vfs_rename_exit_new''
      in if name = new_hook then (name, post_2025)
         else if name = old_hook then (name, \<not> post_2025)
         else if name = new_rename then (name, True)
         else if name = old_rename then (name, False)
         else prog)"

definition pre_load_hook :: "rstr \<Rightarrow> bool \<Rightarrow> open_object \<Rightarrow> rstr + open_object" where
  "pre_load_hook mod_name post_2025 obj =
     Inr (obj\<lparr>oo_progs := map (hook_autoload mod_name post_2025) (oo_progs obj)\<rparr>)"

text \<open>The bullet the log lines begin with is U+00B7.\<close>

definition bullet :: rstr where
  "bullet = [0xB7, 32]"

fun load_each ::
    "host \<Rightarrow> 'm loader \<Rightarrow> ('g, 'm, 'p) registry \<Rightarrow> bool \<Rightarrow> rstr list \<Rightarrow> 'm engine \<Rightarrow>
     effect list \<times> 'm engine" where
  "load_each h ld reg post_2025 [] eng = ([], eng)"
| "load_each h ld reg post_2025 (mod_name # names) eng =
     (case get_capacities h mod_name reg of (e0, capacities) \<Rightarrow>
      case load_module ld mod_name capacities (pre_load_hook mod_name post_2025) of
        Inr skel \<Rightarrow>
          (case load_each h ld reg post_2025 names (AList.update mod_name skel eng) of
             (e2, eng2) \<Rightarrow>
               (e0 @ [Stdout (bullet @ str ''Loaded and Attached eBPF module: '' @ mod_name)] @ e2, eng2))
      | Inl _ \<Rightarrow>
          (case load_each h ld reg post_2025 names eng of
             (e2, eng2) \<Rightarrow>
               (e0 @ [Stderr (bullet @ str ''[Fatal] Failed to load module '' @ mod_name)] @ e2, eng2)))"

section \<open>Initialisation\<close>

text \<open>\<open>daemon_config.modules.get(mod_name).copied().unwrap_or(false)\<close>.\<close>

definition configured :: "(rstr \<Rightarrow> bool option) \<Rightarrow> rstr \<Rightarrow> bool" where
  "configured config_modules mod_name =
     (case config_modules mod_name of Some b \<Rightarrow> b | None \<Rightarrow> False)"

definition core_init_ctx :: "endian \<Rightarrow> host \<Rightarrow> 'm bpf_api \<Rightarrow> 'm loader \<Rightarrow> ('m, 'm skeleton) init_ctx" where
  "core_init_ctx en h api ld =
     \<lparr>su_endian = en, su_host = h, su_api = api, su_provider = core_map_provider ld\<rparr>"

definition initialize_module ::
    "endian \<Rightarrow> host \<Rightarrow> 'm bpf_api \<Rightarrow> 'm loader \<Rightarrow> (rstr \<Rightarrow> bool option) \<Rightarrow> rstr \<Rightarrow> 'm skeleton \<Rightarrow>
     ('g, 'm, 'm skeleton) registry \<Rightarrow>
     effect list \<times> 'm skeleton \<times> ('g, 'm, 'm skeleton) registry" where
  "initialize_module en h api ld config_modules mod_name stored_skel reg =
     (let is_active = configured config_modules mod_name;
          (e1, skel) =
            (case set_module_state en api ld stored_skel mod_name is_active of
               Inr skel \<Rightarrow> ([], skel)
             | Inl e \<Rightarrow>
                 ([Stdout (bullet @ str ''[Warning] Failed to initialize kernel state map for ''
                     @ mod_name @ str '': '' @ e)], stored_skel))
      in case find_module mod_name reg of
           None \<Rightarrow> (e1, skel, reg)
         | Some user_mod \<Rightarrow>
             (case init_module user_mod (core_init_ctx en h api ld) skel of
                (e2, r, skel') \<Rightarrow>
                  (let e3 = (case r of
                               Inr _ \<Rightarrow> []
                             | Inl e \<Rightarrow> [Stderr (bullet @ str ''[Fatal] Module '' @ mod_name
                                           @ str '' initialization failed: '' @ e)])
                   in case toggle_module_in mod_name is_active reg of
                        (e4, reg') \<Rightarrow> (e1 @ e2 @ e3 @ e4, skel', reg'))))"

fun initialize_active_modules ::
    "endian \<Rightarrow> host \<Rightarrow> 'm bpf_api \<Rightarrow> 'm loader \<Rightarrow> (rstr \<Rightarrow> bool option) \<Rightarrow> 'm engine \<Rightarrow>
     ('g, 'm, 'm skeleton) registry \<Rightarrow>
     effect list \<times> 'm engine \<times> ('g, 'm, 'm skeleton) registry" where
  "initialize_active_modules en h api ld config_modules [] reg = ([], [], reg)"
| "initialize_active_modules en h api ld config_modules ((mod_name, stored_skel) # eng) reg =
     (case initialize_module en h api ld config_modules mod_name stored_skel reg of
        (e1, skel, reg1) \<Rightarrow>
          (case initialize_active_modules en h api ld config_modules eng reg1 of
             (e2, eng2, reg2) \<Rightarrow> (e1 @ e2, (mod_name, skel) # eng2, reg2)))"

definition load_modules ::
    "endian \<Rightarrow> host \<Rightarrow> 'm bpf_api \<Rightarrow> 'm loader \<Rightarrow> (rstr \<Rightarrow> bool option) \<Rightarrow>
     ('g, 'm, 'm skeleton) registry \<Rightarrow> 'm engine \<Rightarrow>
     effect list \<times> 'm engine \<times> ('g, 'm, 'm skeleton) registry" where
  "load_modules en h api ld config_modules reg eng =
     (let post_2025 = is_post_2025_vfs h
      in case load_each h ld reg post_2025 (available_modules ld) eng of
           (e1, eng1) \<Rightarrow>
             (case initialize_active_modules en h api ld config_modules eng1 reg of
                (e2, eng2, reg2) \<Rightarrow> (e1 @ e2, eng2, reg2)))"

section \<open>Kernel versions\<close>

lemma digits_value_snoc: "digits_value (s @ [c]) = 10 * digits_value s + (c - 48)"
  by (simp add: digits_value_def)

lemma digits_value_show_nat [simp]: "digits_value (show_nat n) = n"
proof (induction n rule: show_nat.induct)
  case (1 n)
  show ?case
  proof (cases "n < 10")
    case True
    then show ?thesis by (simp add: show_nat.simps [of n] digits_value_def)
  next
    case False
    with 1 show ?thesis by (subst show_nat.simps) (simp add: digits_value_snoc)
  qed
qed

lemma parse_u32_show_nat: "n < 2 ^ 32 \<Longrightarrow> parse_u32 (show_nat n) = Some n"
proof -
  assume n: "n < 2 ^ 32"
  obtain c cs where s: "show_nat n = c # cs" using show_nat_nonempty [of n] by (cases "show_nat n") auto
  have dig: "is_digit x" if "x \<in> set (show_nat n)" for x
    using show_nat_digits [OF that] by (simp add: is_digit_def)
  then have "is_digit c" using s by simp
  then have "c \<noteq> 43" by (auto simp: is_digit_def)
  with n dig s show ?thesis
    using digits_value_show_nat [of n] by (auto simp: parse_u32_def Let_def list_all_iff)
qed

lemma parse_u32_bound: "parse_u32 s = Some n \<Longrightarrow> n < 2 ^ 32"
  by (auto simp: parse_u32_def Let_def split: if_splits)

lemma release_split:
  assumes "\<forall>c \<in> set rest. \<not> is_whitespace c"
  shows "split_on is_dot (trim_by is_whitespace (show_nat major @ 46 # show_nat minor @ 46 # rest @ [10])) =
    show_nat major # show_nat minor # split_on is_dot rest"
proof -
  have dig: "\<not> is_whitespace x \<and> \<not> is_dot x" if "x \<in> set (show_nat n)" for x n
    using show_nat_digits [OF that] by (auto simp: is_whitespace_def is_dot_def)
  define body where "body = show_nat major @ 46 # show_nat minor @ 46 # rest"
  have body: "\<forall>c \<in> set body. \<not> is_whitespace c"
    unfolding body_def using dig assms by (auto simp: is_whitespace_def)
  have "trim_start_by is_whitespace (body @ [10]) = body @ [10]"
  proof -
    have "body \<noteq> []" by (simp add: body_def)
    then obtain b bs where "body = b # bs" by (cases body) auto
    with body show ?thesis by (simp add: trim_start_by_def)
  qed
  moreover have "trim_end_by is_whitespace (body @ [10]) = body"
  proof -
    have "trim_end_by is_whitespace [10] = []" by (simp add: trim_end_by_def is_whitespace_def)
    with trim_end_by_no_sep [OF body] show ?thesis by (simp add: trim_end_by_append)
  qed
  ultimately have "trim_by is_whitespace (body @ [10]) = body"
    by (simp add: trim_by_def)
  moreover have "split_on is_dot body = show_nat major # show_nat minor # split_on is_dot rest"
    unfolding body_def using dig by (simp add: split_on_sep_append is_dot_def)
  ultimately show ?thesis by (simp add: body_def)
qed

lemma post_2025_release:
  assumes "read_to_string h (str ''/proc/sys/kernel/osrelease'') =
      Some (show_nat major @ 46 # show_nat minor @ 46 # rest @ [10])"
    and "\<forall>c \<in> set rest. \<not> is_whitespace c" and "major < 2 ^ 32" and "minor < 2 ^ 32"
  shows "is_post_2025_vfs h \<longleftrightarrow> 6 < major \<or> (major = 6 \<and> 12 \<le> minor)"
  using assms release_split [OF assms(2), of major minor]
  by (auto simp: is_post_2025_vfs_def parse_u32_show_nat Let_def)

section \<open>Loading\<close>

text \<open>What the generated loader promises: a skeleton belongs to the module it was opened for.\<close>

definition loader_ok :: "'m loader \<Rightarrow> bool" where
  "loader_ok ld \<longleftrightarrow>
     (\<forall>name obj skel. load_skel ld name obj = Inr skel \<longrightarrow> sk_module skel = name) \<and>
     (\<forall>skel skel'. attach_skel ld skel = Inr skel' \<longrightarrow> sk_module skel' = sk_module skel)"

text \<open>Every entry of the engine is a skeleton of the module it is filed under.\<close>

definition engine_ok :: "'m loader \<Rightarrow> 'm engine \<Rightarrow> bool" where
  "engine_ok ld eng \<longleftrightarrow>
     distinct (map fst eng) \<and>
     (\<forall>(name, skel) \<in> set eng. sk_module skel = name \<and> name \<in> set (available_modules ld))"

lemma load_module_ok:
  "loader_ok ld \<Longrightarrow> load_module ld name caps hook = Inr skel \<Longrightarrow>
   sk_module skel = name \<and> name \<in> set (available_modules ld)"
  by (auto simp: load_module_def loader_ok_def split: if_splits sum.splits)

lemma engine_ok_update:
  assumes "engine_ok ld eng" "sk_module skel = name" "name \<in> set (available_modules ld)"
  shows "engine_ok ld (AList.update name skel eng)"
proof -
  have "set (AList.update name skel eng) \<subseteq> insert (name, skel) (set eng)"
    by (induction eng) auto
  with assms show ?thesis by (auto simp: engine_ok_def distinct_update)
qed

lemma load_each_ok:
  "loader_ok ld \<Longrightarrow> engine_ok ld eng \<Longrightarrow>
   engine_ok ld (snd (load_each h ld reg post names eng))"
proof (induction names arbitrary: eng)
  case Nil
  then show ?case by simp
next
  case (Cons name names)
  then show ?case
    by (cases "load_module ld name (snd (get_capacities h name reg)) (pre_load_hook name post)")
      (auto simp: engine_ok_update load_module_ok case_prod_beta)
qed

text \<open>Exactly one generation of each paired hook is loaded, the one of the running kernel.\<close>

lemma hook_autoload_pairs:
  "hook_autoload m post (m @ str ''_vfs_mkdir_exit_new'', b) = (m @ str ''_vfs_mkdir_exit_new'', post)"
  "hook_autoload m post (m @ str ''_vfs_mkdir_exit_old'', b) = (m @ str ''_vfs_mkdir_exit_old'', \<not> post)"
  "hook_autoload m post (m @ str ''_vfs_rename_exit_new'', b) = (m @ str ''_vfs_rename_exit_new'', True)"
  "hook_autoload m post (m @ str ''_vfs_rename_exit_old'', b) = (m @ str ''_vfs_rename_exit_old'', False)"
  by (simp_all add: hook_autoload_def)

section \<open>Coherence of the two flags\<close>

text \<open>
  A module's state is kept twice: the flag of the user-space object and entry 0 of the
  skeleton's state map. An entry is coherent when they agree (a skeleton without state
  map has nothing to agree on).
\<close>

definition entry_coherent ::
    "endian \<Rightarrow> 'm bpf_api \<Rightarrow> ('g, 'm, 'p) registry \<Rightarrow> rstr \<Rightarrow> 'm skeleton \<Rightarrow> bool" where
  "entry_coherent en api reg name skel \<longleftrightarrow>
     (\<forall>m b. find_module name reg = Some m \<longrightarrow> kernel_active en api skel = Some b \<longrightarrow> b = status m)"

definition coherent :: "endian \<Rightarrow> 'm bpf_api \<Rightarrow> ('g, 'm, 'p) registry \<Rightarrow> 'm engine \<Rightarrow> bool" where
  "coherent en api reg eng \<longleftrightarrow> (\<forall>(name, skel) \<in> set eng. entry_coherent en api reg name skel)"

lemma find_module_toggle:
  "find_module name (snd (toggle_module_in target b reg)) =
     (if name = target then map_option (\<lambda>m. m\<lparr>is_active := b\<rparr>) (find_module name reg)
      else find_module name reg)"
  by (induction reg) (auto simp: find_module_def toggle_def case_prod_beta)

lemma entry_coherent_other:
  "name \<noteq> target \<Longrightarrow>
   entry_coherent en api (snd (toggle_module_in target b reg)) name skel = entry_coherent en api reg name skel"
  by (simp add: entry_coherent_def find_module_toggle)

lemma entry_coherent_toggled:
  "kernel_active en api skel \<noteq> Some (\<not> b) \<Longrightarrow>
   entry_coherent en api (snd (toggle_module_in name b reg)) name skel"
  by (auto simp: entry_coherent_def find_module_toggle status_def)

subsection \<open>Initialisation leaves the state map alone\<close>

definition keeps_state :: "'m loader \<Rightarrow> ('m, 'm skeleton) init_fun \<Rightarrow> bool" where
  "keeps_state ld f \<longleftrightarrow>
     (\<forall>su p. su_provider su = core_map_provider ld \<longrightarrow>
        sk_module (snd (snd (f su p))) = sk_module p \<and>
        map_of (sk_maps (snd (snd (f su p)))) state_map_name = map_of (sk_maps p) state_map_name)"

lemma store_other:
  "n \<noteq> state_map_name \<Longrightarrow>
   map_of (sk_maps (mp_store (core_map_provider ld) n m p)) state_map_name = map_of (sk_maps p) state_map_name"
  "sk_module (mp_store (core_map_provider ld) n m p) = sk_module p"
  by (simp_all add: core_map_provider_def update_conv')

lemma keeps_state_then: "keeps_state ld f \<Longrightarrow> keeps_state ld k \<Longrightarrow> keeps_state ld (then_init f k)"
  unfolding keeps_state_def then_init_def
  by (intro allI impI) (auto split: prod.splits sum.splits simp: prod_eq_iff)

lemma keeps_state_no_init: "keeps_state ld no_init"
  by (simp add: keeps_state_def no_init_def)

lemma keeps_state_xattr:
  "(\<And>x. xw = Some x \<Longrightarrow> xw_map_name x \<noteq> state_map_name) \<Longrightarrow> keeps_state ld (init_xattr slug xw)"
  by (auto simp: keeps_state_def init_xattr_def store_other split: option.splits sum.splits prod.splits)

lemma keeps_state_dynamic:
  "(\<And>d. dw = Some d \<Longrightarrow> dw_map_name d \<noteq> state_map_name) \<Longrightarrow> keeps_state ld (init_dynamic slug dw)"
  by (auto simp: keeps_state_def init_dynamic_def store_other split: option.splits sum.splits prod.splits)

lemma keeps_state_closures:
  "keeps_state ld shield_init" "keeps_state ld ptrace_init" "keeps_state ld dump_init"
proof -
  have "str ''protected_files'' \<noteq> state_map_name" "str ''protected_processes'' \<noteq> state_map_name"
    by (simp_all add: state_map_name_def)
  then show "keeps_state ld shield_init" "keeps_state ld ptrace_init" "keeps_state ld dump_init"
    by (auto simp: keeps_state_def shield_init_def ptrace_init_def dump_init_def store_other
        Let_def split: option.splits sum.splits prod.splits)
qed

lemma keeps_state_module:
  assumes "\<And>x. ms_xattr spec = Some x \<Longrightarrow> xw_map_name x \<noteq> state_map_name"
    and "\<And>d. ms_dynamic spec = Some d \<Longrightarrow> dw_map_name d \<noteq> state_map_name"
    and "\<And>f. ms_init spec = Some f \<Longrightarrow> keeps_state ld f"
  shows "keeps_state ld (sm_init (new_module spec))"
  using assms
  by (auto simp: module_init_def keeps_state_no_init split: option.split
      intro!: keeps_state_then keeps_state_xattr keeps_state_dynamic)

lemma registry_keeps_state: "list_all (\<lambda>m. keeps_state ld (sm_init m)) build_registry"
  unfolding build_registry_def list.pred_inject
  by (intro conjI TrueI keeps_state_module)
    (auto simp: module_spec_defs state_map_name_def keeps_state_closures)


subsection \<open>Boot\<close>

text \<open>A state map accepts a write of its entry (it is an array map of one entry).\<close>

definition state_writable :: "endian \<Rightarrow> 'm bpf_api \<Rightarrow> 'm skeleton \<Rightarrow> bool" where
  "state_writable en api skel \<longleftrightarrow>
     (\<forall>m v. map_of (sk_maps skel) state_map_name = Some m \<longrightarrow>
        (\<exists>m'. map_update api (state_key en) v m = Inr m'))"

definition inits_keep_state :: "'m loader \<Rightarrow> ('g, 'm, 'm skeleton) registry \<Rightarrow> bool" where
  "inits_keep_state ld reg \<longleftrightarrow> list_all (\<lambda>m. keeps_state ld (sm_init m)) reg"

lemma inits_keep_state_toggle:
  "inits_keep_state ld reg \<Longrightarrow> inits_keep_state ld (snd (toggle_module_in target b reg))"
  by (induction reg) (auto simp: inits_keep_state_def toggle_def case_prod_beta)

lemma find_module_member: "find_module name reg = Some m \<Longrightarrow> m \<in> set reg \<and> sm_slug m = name"
  by (auto simp: find_module_def find_Some_iff)

lemma set_module_state_writable:
  assumes "state_writable en api skel" "sk_module skel = name" "name \<in> set (available_modules ld)"
  shows "\<exists>skel'. set_module_state en api ld skel name a = Inr skel'"
  using assms by (auto simp: set_module_state_def state_writable_def split: option.splits sum.splits)
    (metis sum.simps(4))

lemma kernel_active_keep:
  assumes "map_of (sk_maps skel') state_map_name = map_of (sk_maps skel) state_map_name"
  shows "kernel_active en api skel' = kernel_active en api skel"
  using assms by (simp add: kernel_active_def)

lemma initialize_module_result:
  assumes api: "bpf_api_ok api" and keep: "inits_keep_state ld reg"
    and skel: "state_writable en api stored" "sk_module stored = name" "name \<in> set (available_modules ld)"
    and run: "initialize_module en h api ld cfg name stored reg = (e, skel, reg')"
  shows "sk_module skel = name"
    and "kernel_active en api skel = map_option (\<lambda>_. configured cfg name) (kernel_active en api stored)"
    and "find_module name reg \<noteq> None \<Longrightarrow> reg' = snd (toggle_module_in name (configured cfg name) reg)"
    and "find_module name reg = None \<Longrightarrow> reg' = reg"
    and "flag_written en api (configured cfg name) skel"
proof -
  obtain sk1 where sk1: "set_module_state en api ld stored name (configured cfg name) = Inr sk1"
    using set_module_state_writable [OF skel] by blast
  have act1: "kernel_active en api sk1 = map_option (\<lambda>_. configured cfg name) (kernel_active en api stored)"
    by (rule set_module_state_active [OF api sk1])
  have mod1: "sk_module sk1 = name" using set_module_state_module [OF sk1] by simp
  have written: "flag_written en api (configured cfg name) sk1"
    by (rule set_module_state_written [OF api sk1])
  have "sk_module skel = name \<and>
      map_of (sk_maps skel) state_map_name = map_of (sk_maps sk1) state_map_name \<and>
      (find_module name reg \<noteq> None \<longrightarrow> reg' = snd (toggle_module_in name (configured cfg name) reg)) \<and>
      (find_module name reg = None \<longrightarrow> reg' = reg)"
  proof (cases "find_module name reg")
    case None
    with run sk1 mod1 show ?thesis by (simp add: initialize_module_def Let_def)
  next
    case (Some m)
    then have "keeps_state ld (sm_init m)"
      using keep find_module_member [OF Some] by (auto simp: inits_keep_state_def list_all_iff)
    then have "sk_module (snd (snd (sm_init m (core_init_ctx en h api ld) sk1))) = sk_module sk1 \<and>
        map_of (sk_maps (snd (snd (sm_init m (core_init_ctx en h api ld) sk1)))) state_map_name =
        map_of (sk_maps sk1) state_map_name"
      by (simp add: keeps_state_def core_init_ctx_def)
    with run sk1 mod1 Some show ?thesis
      by (auto simp: initialize_module_def init_module_def Let_def case_prod_beta split: sum.splits prod.splits)
  qed
  with act1 kernel_active_keep written show "sk_module skel = name"
    and "kernel_active en api skel = map_option (\<lambda>_. configured cfg name) (kernel_active en api stored)"
    and "find_module name reg \<noteq> None \<Longrightarrow> reg' = snd (toggle_module_in name (configured cfg name) reg)"
    and "find_module name reg = None \<Longrightarrow> reg' = reg"
    and "flag_written en api (configured cfg name) skel"
    unfolding flag_written_def by metis+
qed

text \<open>After initialisation every loaded module is in the state the configuration asks for, twice.\<close>

definition as_configured ::
    "endian \<Rightarrow> 'm bpf_api \<Rightarrow> (rstr \<Rightarrow> bool option) \<Rightarrow> ('g, 'm, 'p) registry \<Rightarrow> rstr \<times> 'm skeleton \<Rightarrow> bool" where
  "as_configured en api cfg reg entry \<longleftrightarrow>
     sk_module (snd entry) = fst entry \<and>
     flag_written en api (configured cfg (fst entry)) (snd entry) \<and>
     kernel_active en api (snd entry) \<in> {None, Some (configured cfg (fst entry))} \<and>
     (\<forall>m. find_module (fst entry) reg = Some m \<longrightarrow> status m = configured cfg (fst entry))"

lemma initialize_active_modules_result:
  assumes "bpf_api_ok api"
  shows "inits_keep_state ld reg \<Longrightarrow> engine_ok ld eng \<Longrightarrow>
    (\<forall>(name, skel) \<in> set eng. state_writable en api skel) \<Longrightarrow>
    initialize_active_modules en h api ld cfg eng reg = (e, eng', reg') \<Longrightarrow>
    map fst eng' = map fst eng \<and> list_all (as_configured en api cfg reg') eng' \<and>
    (\<forall>n. n \<notin> fst ` set eng \<longrightarrow> find_module n reg' = find_module n reg) \<and> same_code reg reg'"
proof (induction eng arbitrary: reg e eng' reg')
  case Nil
  then show ?case by simp
next
  case (Cons entry eng)
  obtain name stored where entry: "entry = (name, stored)" by fastforce
  obtain e1 skel reg1 where one: "initialize_module en h api ld cfg name stored reg = (e1, skel, reg1)"
    using prod_cases3 by blast
  obtain e2 eng2 where two: "initialize_active_modules en h api ld cfg eng reg1 = (e2, eng2, reg')"
    and eng': "eng' = (name, skel) # eng2"
    using Cons.prems(4) one by (auto simp: entry split: prod.splits)
  have fresh: "name \<notin> fst ` set eng" and avail: "sk_module stored = name" "name \<in> set (available_modules ld)"
    and ok: "engine_ok ld eng"
    using Cons.prems(2) by (auto simp: entry engine_ok_def)
  have wr: "state_writable en api stored" using Cons.prems(3) entry by simp
  note res = initialize_module_result [OF assms Cons.prems(1) wr avail one]
  have reg1: "reg1 = reg \<or> reg1 = snd (toggle_module_in name (configured cfg name) reg)"
    using res(3,4) by blast
  then have keep1: "inits_keep_state ld reg1" and code1: "same_code reg reg1"
    and others: "\<And>n. n \<noteq> name \<Longrightarrow> find_module n reg1 = find_module n reg"
    using Cons.prems(1) inits_keep_state_toggle same_code_toggle by (auto simp: find_module_toggle)
  have here: "find_module name reg1 = Some m \<Longrightarrow> status m = configured cfg name" for m
    using res(3,4) by (cases "find_module name reg") (auto simp: find_module_toggle status_def)
  note IH = Cons.IH [OF keep1 ok _ two]
  have IH': "map fst eng2 = map fst eng" "list_all (as_configured en api cfg reg') eng2"
    "\<And>n. n \<notin> fst ` set eng \<Longrightarrow> find_module n reg' = find_module n reg1" "same_code reg1 reg'"
    using IH Cons.prems(3) by auto
  have "as_configured en api cfg reg' (name, skel)"
    using res(1,2,5) here IH'(3) [OF fresh] by (cases "kernel_active en api stored") (auto simp: as_configured_def)
  with IH' others code1 fresh show ?case
    by (auto simp: eng' entry intro: same_code_trans)
qed


definition loaded_state_ok :: "endian \<Rightarrow> 'm bpf_api \<Rightarrow> 'm loader \<Rightarrow> bool" where
  "loaded_state_ok en api ld \<longleftrightarrow>
     (\<forall>skel skel'. attach_skel ld skel = Inr skel' \<longrightarrow> state_writable en api skel')"

lemma load_each_writable:
  assumes "loaded_state_ok en api ld"
  shows "list_all (\<lambda>x. state_writable en api (snd x)) eng \<Longrightarrow>
    list_all (\<lambda>x. state_writable en api (snd x)) (snd (load_each h ld reg post names eng))"
proof (induction names arbitrary: eng)
  case Nil
  then show ?case by simp
next
  case (Cons name names)
  show ?case
  proof (cases "load_module ld name (snd (get_capacities h name reg)) (pre_load_hook name post)")
    case (Inl e)
    with Cons show ?thesis by (simp add: case_prod_beta)
  next
    case (Inr skel)
    have "state_writable en api skel"
      using Inr assms by (auto simp: load_module_def loaded_state_ok_def split: if_splits sum.splits)
    moreover have "set (AList.update name skel eng) \<subseteq> insert (name, skel) (set eng)"
      by (induction eng) auto
    ultimately have "list_all (\<lambda>x. state_writable en api (snd x)) (AList.update name skel eng)"
      using Cons.prems by (auto simp: list_all_iff)
    with Cons.IH Inr show ?thesis by (simp add: case_prod_beta)
  qed
qed

lemma load_modules_result:
  assumes "bpf_api_ok api" "loader_ok ld" "loaded_state_ok en api ld"
    and "inits_keep_state ld reg0"
    and run: "load_modules en h api ld cfg reg0 [] = (e, eng, reg)"
  shows "list_all (as_configured en api cfg reg) eng" and "engine_ok ld eng" and "same_code reg0 reg"
    and "n \<notin> fst ` set eng \<Longrightarrow> find_module n reg = find_module n reg0"
proof -
  define eng1 where "eng1 = snd (load_each h ld reg0 (is_post_2025_vfs h) (available_modules ld) [])"
  from run obtain e2 where init: "initialize_active_modules en h api ld cfg eng1 reg0 = (e2, eng, reg)"
    by (auto simp: load_modules_def eng1_def Let_def split: prod.splits)
  have ok: "engine_ok ld eng1" unfolding eng1_def
    by (intro load_each_ok assms) (simp add: engine_ok_def)
  have wr: "\<forall>(name, skel) \<in> set eng1. state_writable en api skel"
    using load_each_writable [OF assms(3), of "[]"] unfolding eng1_def list_all_iff by force
  note res = initialize_active_modules_result [OF assms(1,4) ok wr init]
  then show cfgd: "list_all (as_configured en api cfg reg) eng" and "same_code reg0 reg" by blast+
  have keys: "map fst eng = map fst eng1" using res by blast
  then have dom: "fst ` set eng = fst ` set eng1" by (metis list.set_map)
  with res show "n \<notin> fst ` set eng \<Longrightarrow> find_module n reg = find_module n reg0" by blast
  have avail: "fst ` set eng1 \<subseteq> set (available_modules ld)" using ok by (auto simp: engine_ok_def)
  have "sk_module skel = name \<and> name \<in> set (available_modules ld)" if "(name, skel) \<in> set eng" for name skel
  proof -
    have "as_configured en api cfg reg (name, skel)" using cfgd that by (simp add: list_all_iff)
    moreover have "name \<in> fst ` set eng" using that by (metis fst_conv imageI)
    ultimately show ?thesis using avail dom by (auto simp: as_configured_def)
  qed
  moreover have "distinct (map fst eng)" using ok keys by (simp add: engine_ok_def)
  ultimately show "engine_ok ld eng" by (auto simp: engine_ok_def)
qed

lemma build_registry_keeps_state: "inits_keep_state ld build_registry"
  by (simp add: inits_keep_state_def registry_keeps_state)

lemma as_configured_coherent:
  "list_all (as_configured en api cfg reg) eng \<Longrightarrow> coherent en api reg eng"
  by (auto simp: list_all_iff as_configured_def coherent_def entry_coherent_def)

lemma find_module_unique:
  "distinct (map sm_slug reg) \<Longrightarrow> m \<in> set reg \<Longrightarrow> find_module (sm_slug m) reg = Some m"
proof (induction reg)
  case (Cons x reg)
  then show ?case by (cases "x = m") (auto simp: find_module_def rev_image_eqI)
qed simp

text \<open>Capacities and autoload decisions are in place when the kernel is asked to load.\<close>

lemma load_module_steps:
  assumes "load_module ld name caps hook = Inr skel"
  obtains obj obj' sk where "open_skel ld name = Inr obj"
    and "hook (fold set_max_entries caps obj) = Inr obj'" and "load_skel ld name obj' = Inr sk"
    and "attach_skel ld sk = Inr skel"
  using assms by (auto simp: load_module_def split: if_splits sum.splits)

section \<open>An example kernel\<close>

text \<open>Two modules, with empty maps attached.\<close>

definition demo_loader :: "(u8 list \<times> u8 list) list loader" where
  "demo_loader =
     \<lparr>available_modules = [str ''exec_block'', str ''ptrace_block''],
      open_skel = (\<lambda>_. Inr \<lparr>oo_maps = [(str ''protected_dirs'', 1)], oo_progs = []\<rparr>),
      load_skel = (\<lambda>name _. Inr \<lparr>sk_module = name, sk_maps = []\<rparr>),
      attach_skel = (\<lambda>skel. Inr (skel\<lparr>sk_maps :=
        [(state_map_name, []), (str ''alerts'', []), (str ''protected_dirs'', []),
         (str ''protected_processes'', [])]\<rparr>))\<rparr>"

definition bare_host :: host where
  "bare_host =
     \<lparr>walk = (\<lambda>_ _. []), openat = (\<lambda>_ _. None), read_to_string = (\<lambda>_. None), parse_toml = (\<lambda>_. None)\<rparr>"

lemma demo_loader_ok: "loader_ok demo_loader" "loaded_state_ok en (hash_map 8) demo_loader"
  by (auto simp: loader_ok_def loaded_state_ok_def state_writable_def demo_loader_def hash_map_def)

section \<open>Properties\<close>

text \<open>
  C17: after boot a module of the registry is active exactly when its kernel program was
  loaded and the configuration enables it by name, and the flag in the kernel of every
  loaded module agrees, whatever the initialisation hooks did.
\<close>

theorem boot_state:
  assumes "bpf_api_ok api" "loader_ok ld" "loaded_state_ok en api ld"
    and "load_modules en h api ld cfg build_registry [] = (e, eng, reg)"
    and "m \<in> set reg"
  shows "(status m \<longleftrightarrow> sm_slug m \<in> fst ` set eng \<and> cfg (sm_slug m) = Some True) \<and>
    list_all (\<lambda>(name, skel). kernel_active en api skel \<in> {None, Some (configured cfg name)}) eng"
proof -
  note res = load_modules_result [OF assms(1-3) build_registry_keeps_state assms(4)]
  have slugs: "distinct (map sm_slug reg)" using same_code_slugs [OF res(3)] registry_distinct by simp
  note find = find_module_unique [OF slugs assms(5)]
  have "status m \<longleftrightarrow> sm_slug m \<in> fst ` set eng \<and> cfg (sm_slug m) = Some True"
  proof (cases "sm_slug m \<in> fst ` set eng")
    case True
    then obtain skel where "(sm_slug m, skel) \<in> set eng" by auto
    then have "as_configured en api cfg reg (sm_slug m, skel)" using res(1) by (simp add: list_all_iff)
    with find have "status m = configured cfg (sm_slug m)" by (simp add: as_configured_def)
    with True show ?thesis by (simp add: configured_def split: option.split)
  next
    case False
    then have "find_module (sm_slug m) (build_registry :: ('b tracked_scheme, 'a, 'a skeleton) registry) = Some m"
      using res(4) find by simp
    with False registry_inactive find_module_member show ?thesis by blast
  qed
  moreover have "list_all (\<lambda>(name, skel). kernel_active en api skel \<in> {None, Some (configured cfg name)}) eng"
    using res(1) by (auto simp: list_all_iff as_configured_def)
  ultimately show ?thesis by blast
qed

theorem boot_state_witness:
  "\<exists>e eng reg. load_modules Little bare_host (hash_map 8) demo_loader (\<lambda>_. Some True)
      (build_registry :: (tracked, (u8 list \<times> u8 list) list, (u8 list \<times> u8 list) list skeleton) registry) [] = (e, eng, reg) \<and>
    list_all (\<lambda>m. status m \<longleftrightarrow> sm_slug m \<in> fst ` set eng) reg"
proof -
  have ok: "bpf_api_ok (hash_map 8)" using hash_map_ok by (rule bpf_hash_api)
  obtain e eng reg where run: "load_modules Little bare_host (hash_map 8) demo_loader (\<lambda>_. Some True)
      (build_registry :: (tracked, (u8 list \<times> u8 list) list, (u8 list \<times> u8 list) list skeleton) registry) [] = (e, eng, reg)"
    using prod_cases3 by blast
  from boot_state [OF ok demo_loader_ok run] run show ?thesis by (simp add: list_all_iff)
qed

text \<open>
  A kernel object is loaded with the capacities its module asked for in every map it
  has, and with exactly one generation of each paired hook: the new directory hook on
  kernels from 6.12 on, the old one before.
\<close>

theorem load_parameters:
  assumes "load_module ld name caps (pre_load_hook name post) = Inr skel" and "distinct (map fst caps)"
  shows "\<exists>obj obj' sk. open_skel ld name = Inr obj \<and> load_skel ld name obj' = Inr sk \<and>
    attach_skel ld sk = Inr skel \<and>
    oo_progs obj' = map (hook_autoload name post) (oo_progs obj) \<and>
    (\<forall>n. map_of (oo_maps obj') n =
       (if map_of (oo_maps obj) n = None then None
        else case map_of caps n of Some c \<Rightarrow> Some c | None \<Rightarrow> map_of (oo_maps obj) n))"
proof (rule load_module_steps [OF assms(1)])
  fix obj obj' sk
  assume obj: "open_skel ld name = Inr obj" and
    hook: "pre_load_hook name post (fold set_max_entries caps obj) = Inr obj'" and
    rest: "load_skel ld name obj' = Inr sk" "attach_skel ld sk = Inr skel"
  have progs: "oo_progs (fold set_max_entries caps obj) = oo_progs obj"
  proof (induction caps arbitrary: obj)
    case (Cons c caps)
    have "oo_progs (set_max_entries c obj) = oo_progs obj" for obj by (simp add: set_max_entries_def)
    with Cons show ?case by simp
  qed simp
  have maps: "map_of (oo_maps obj') n =
       (if map_of (oo_maps obj) n = None then None
        else case map_of caps n of Some c \<Rightarrow> Some c | None \<Rightarrow> map_of (oo_maps obj) n)" for n
  proof -
    have "oo_maps obj' = oo_maps (fold set_max_entries caps obj)"
      using hook by (auto simp: pre_load_hook_def)
    moreover have "map_of (oo_maps obj) n = None \<Longrightarrow> map_of (oo_maps (fold set_max_entries caps obj)) n = None"
      using fold_set_max_entries_keys [of caps obj] by (metis list.set_map map_of_eq_None_iff)
    ultimately show ?thesis using fold_set_max_entries [OF assms(2), of obj n] by auto
  qed
  have "oo_progs obj' = map (hook_autoload name post) (oo_progs obj)"
    using hook progs by (auto simp: pre_load_hook_def)
  with obj rest maps show ?thesis by blast
qed

theorem load_parameters_witness:
  "\<exists>obj (obj' :: open_object). open_skel demo_loader (str ''exec_block'') = Inr obj \<and>
     oo_progs obj' = map (hook_autoload (str ''exec_block'') True) (oo_progs obj) \<and>
     map_of (oo_maps obj') (str ''protected_dirs'') = Some 8192"
proof -
  obtain skel where loaded: "load_module demo_loader (str ''exec_block'') [(str ''protected_dirs'', 8192)]
      (pre_load_hook (str ''exec_block'') True) = Inr skel"
    by (simp add: load_module_def demo_loader_def pre_load_hook_def)
  have "distinct (map fst [(str ''protected_dirs'', 8192 :: u32)])" by simp
  from load_parameters [OF loaded this] obtain obj and obj' :: open_object where
    obj: "open_skel demo_loader (str ''exec_block'') = Inr obj"
      "oo_progs obj' = map (hook_autoload (str ''exec_block'') True) (oo_progs obj)" and
    maps: "\<forall>n. map_of (oo_maps obj') n =
       (if map_of (oo_maps obj) n = None then None
        else case map_of [(str ''protected_dirs'', 8192)] n of Some c \<Rightarrow> Some c
             | None \<Rightarrow> map_of (oo_maps obj) n)"
    by blast
  have "map_of (oo_maps obj) (str ''protected_dirs'') \<noteq> None"
    using obj(1) by (auto simp: demo_loader_def)
  with maps have "map_of (oo_maps obj') (str ''protected_dirs'') = Some 8192" by simp
  with obj show ?thesis by blast
qed

text \<open>
  For a release string major.minor.rest, ended by a line feed, the newer hooks are
  chosen exactly from version 6.12 on.
\<close>

theorem kernel_version_test:
  assumes "read_to_string h (str ''/proc/sys/kernel/osrelease'') =
      Some (show_nat major @ 46 # show_nat minor @ 46 # rest @ [10])"
    and "\<forall>c \<in> set rest. \<not> is_whitespace c" and "major < 2 ^ 32" and "minor < 2 ^ 32"
  shows "is_post_2025_vfs h \<longleftrightarrow> 6 < major \<or> (major = 6 \<and> 12 \<le> minor)"
  by (rule post_2025_release [OF assms])

theorem kernel_version_test_witness:
  "\<not> is_post_2025_vfs (bare_host\<lparr>read_to_string := (\<lambda>_. Some (show_nat 6 @ 46 # show_nat 8 @ 46 # str ''0-45-generic'' @ [10]))\<rparr>)"
  by (subst kernel_version_test [of _ 6 8 "str ''0-45-generic''"])
    (simp_all add: is_whitespace_def str_def)

text \<open>
  A failing initialisation hook is reported and changes nothing else: a module whose
  watchlist could not be set up is still put into the active state the configuration asks
  for.
\<close>

theorem failed_init_still_enabled:
  assumes "set_module_state en api ld stored name True = Inr skel"
    and "find_module name reg = Some m"
    and "init_module m (core_init_ctx en h api ld) skel = (out, Inl err, skel')"
    and "cfg name = Some True"
  shows "case find_module name (snd (snd (initialize_module en h api ld cfg name stored reg))) of
      Some m' \<Rightarrow> status m' | None \<Rightarrow> False"
proof -
  have "snd (snd (initialize_module en h api ld cfg name stored reg)) = snd (toggle_module_in name True reg)"
    using assms by (simp add: initialize_module_def configured_def Let_def case_prod_beta)
  with assms(2) show ?thesis by (simp add: find_module_toggle status_def)
qed

definition ptrace_only :: "(tracked, (u8 list \<times> u8 list) list, (u8 list \<times> u8 list) list skeleton) registry" where
  "ptrace_only = [new_module ptrace_block_spec]"

theorem failed_init_still_enabled_witness:
  "case find_module (str ''ptrace_block'') (snd (snd (initialize_module Little bare_host (hash_map 8)
       demo_loader (\<lambda>_. Some True) (str ''ptrace_block'')
       \<lparr>sk_module = str ''ptrace_block'', sk_maps = [(str ''protected_processes'', [])]\<rparr>
       ptrace_only))) of
     Some m' \<Rightarrow> status m' | None \<Rightarrow> False"
proof -
  let ?sk = "\<lparr>sk_module = str ''ptrace_block'', sk_maps = [(str ''protected_processes'', [])]\<rparr>"
  have state: "set_module_state Little (hash_map 8) demo_loader ?sk (str ''ptrace_block'') True = Inr ?sk"
    by (simp add: set_module_state_def demo_loader_def state_map_name_def)
  obtain m where find: "find_module (str ''ptrace_block'') ptrace_only = Some m"
    and m: "m = new_module ptrace_block_spec"
    by (simp add: find_module_def ptrace_only_def) (simp add: ptrace_block_spec_def)
  let ?ctx = "core_init_ctx Little bare_host (hash_map 8) demo_loader"
  have get: "mp_get_map (su_provider ?ctx) (str ''protected_processes'') ?sk = Inr []"
    by (simp add: core_init_ctx_def core_map_provider_def get_map_def demo_loader_def)
  have none: "ptrace_protect Little bare_host (hash_map 8) ps 0 [] = ([], 0, [])" for ps
    by (induction ps) (simp_all add: get_secure_hardware_key_def bare_host_def)
  obtain out err skel' where "init_module m ?ctx ?sk = (out, Inl err, skel')"
    using get none by (simp add: m init_module_def module_init_def ptrace_block_spec_def then_init_def
        init_xattr_def init_dynamic_def ptrace_init_def core_init_ctx_def)
  from failed_init_still_enabled [OF state find this, of "\<lambda>_. Some True"] show ?thesis by simp
qed

end
