(* ===== verification/BB_Actor.thy ===== *)
theory BB_Actor
  imports BB_Bpf_Manager
begin

text \<open>
  \<open>core/src/telemetry.rs\<close> and \<open>core/src/actor.rs\<close>: the ring-buffer callbacks with their
  panic boundary, the commands of the control plane and the actor's loop, one iteration of
  which waits for a command, drains at most ten more and polls the ring buffer. The
  message types are those of \<open>core/src/ipc/types.rs\<close>.
\<close>

section \<open>Messages\<close>

datatype daemon_cmd = CmdStatus | CmdList | CmdEnable rstr | CmdDisable rstr

text \<open>The single-use reply channel is named by a number.\<close>

record ipc_message =
  msg_cmd :: daemon_cmd
  msg_reply :: nat

section \<open>The telemetry pipeline\<close>

text \<open>Staging: the slugs of the modules whose skeleton has an \<open>alerts\<close> map, with the map.\<close>

fun stage_maps :: "'m loader \<Rightarrow> 'm engine \<Rightarrow> effect list \<times> ('m \<times> rstr) list" where
  "stage_maps ld [] = ([], [])"
| "stage_maps ld ((mod_name, skel) # eng) =
     (case stage_maps ld eng of
        (e, staged) \<Rightarrow>
          (case get_map ld skel (str ''alerts'') of
             Inr alerts_map \<Rightarrow> (e, (alerts_map, mod_name) # staged)
           | Inl _ \<Rightarrow>
               (Stdout (bullet @ str ''[Warning] Standard '' @ quoted (str ''alerts'')
                  @ str '' map not found in module: '' @ mod_name) # e, staged)))"

text \<open>
  Binding: \<open>rb_add\<close> and \<open>rb_build\<close> are \<open>RingBufferBuilder::add\<close> and \<open>build\<close>. The ring
  buffer is represented by the slugs its callbacks were made for.
\<close>

record 'm ringbuf_api =
  rb_add :: "'m \<Rightarrow> bool"
  rb_build :: "rstr list \<Rightarrow> bool"

definition bind_ringbuffer ::
    "'m ringbuf_api \<Rightarrow> ('m \<times> rstr) list \<Rightarrow> effect list \<times> (rstr + rstr list option)" where
  "bind_ringbuffer rb telemetry_maps =
     (if \<exists>(m, slug) \<in> set telemetry_maps. \<not> rb_add rb m
      then ([], Inl (str ''Failed to bind RingBuffer callback''))
      else if telemetry_maps \<noteq> []
      then (if rb_build rb (map snd telemetry_maps)
            then ([], Inr (Some (map snd telemetry_maps)))
            else ([], Inl (str ''Failed to build unified BPF RingBuffer'')))
      else ([Stdout (bullet @ str ''[Info] No telemetry maps found. Operating in silent enforcement mode.'')],
            Inr None))"

definition build_pipeline ::
    "'m ringbuf_api \<Rightarrow> 'm loader \<Rightarrow> 'm engine \<Rightarrow> effect list \<times> (rstr + rstr list option)" where
  "build_pipeline rb ld eng =
     (case stage_maps ld eng of
        (e1, staged) \<Rightarrow> (case bind_ringbuffer rb staged of (e2, r) \<Rightarrow> (e1 @ e2, r)))"

text \<open>The callback bound for a module, with \<open>catch_unwind\<close> around the module's code.\<close>

definition ring_callback ::
    "('g, 'm, 'p) registry \<Rightarrow> rstr \<Rightarrow> endian \<Rightarrow> event_env \<Rightarrow> u8 list \<Rightarrow> 'g \<Rightarrow> effect list \<times> 'g" where
  "ring_callback reg slug en env event_data g =
     (case find_module slug reg of
        None \<Rightarrow> ([], g)
      | Some user_mod \<Rightarrow>
          (case process_event user_mod en env event_data g of
             (e, Inr _, g') \<Rightarrow> (e, g')
           | (e, Inl _, g') \<Rightarrow>
               (e @ [Stderr (bullet @ str ''[Fatal] Module '' @ quoted slug
                       @ str '' panicked during event processing: Any { .. }'')], g')))"

text \<open>
  \<open>rb.poll(0)\<close>: the pending records, each with the slug its map was bound for and the
  readings of the environment while it is handled; \<open>poll_error\<close> is the error it returns.
\<close>

record ring_event =
  ev_slug :: rstr
  ev_env :: event_env
  ev_data :: "u8 list"

fun poll_events ::
    "('g, 'm, 'p) registry \<Rightarrow> endian \<Rightarrow> ring_event list \<Rightarrow> 'g \<Rightarrow> effect list \<times> 'g" where
  "poll_events reg en [] g = ([], g)"
| "poll_events reg en (ev # evs) g =
     (case ring_callback reg (ev_slug ev) en (ev_env ev) (ev_data ev) g of
        (e1, g1) \<Rightarrow> (case poll_events reg en evs g1 of (e2, g2) \<Rightarrow> (e1 @ e2, g2)))"

definition poll_ring ::
    "rstr list option \<Rightarrow> ('g, 'm, 'p) registry \<Rightarrow> endian \<Rightarrow> ring_event list \<Rightarrow> rstr option \<Rightarrow> 'g \<Rightarrow>
     effect list \<times> 'g" where
  "poll_ring ring_buffer reg en evs poll_error g =
     (case ring_buffer of
        None \<Rightarrow> ([], g)
      | Some slugs \<Rightarrow>
          (case poll_events reg en (filter (\<lambda>ev. ev_slug ev \<in> set slugs) evs) g of
             (e, g') \<Rightarrow>
               (case poll_error of
                  None \<Rightarrow> (e, g')
                | Some err \<Rightarrow>
                    (e @ [Stderr (str ''Bouclier Bleu [Warning]: Telemetry poll interrupted: '' @ err)], g'))))"

section \<open>Commands\<close>

text \<open>What the actor owns: the engine (the kernel's side) and the shared registry.\<close>

record ('g, 'm) daemon =
  d_engine :: "'m engine"
  d_registry :: "('g, 'm, 'm skeleton) registry"

definition toggle_module ::
    "endian \<Rightarrow> 'm bpf_api \<Rightarrow> 'm loader \<Rightarrow> rstr \<Rightarrow> bool \<Rightarrow> ('g, 'm) daemon \<Rightarrow>
     effect list \<times> rstr \<times> ('g, 'm) daemon" where
  "toggle_module en api ld target enable d =
     (let state_str = (if enable then str ''ENABLED'' else str ''DISABLED'')
      in case get_skeleton (d_engine d) target of
           Some skel \<Rightarrow>
             (case set_module_state en api ld skel target enable of
                Inr skel' \<Rightarrow>
                  (case toggle_module_in target enable (d_registry d) of
                     (e, reg') \<Rightarrow>
                       (e, str ''SUCCESS: Defense module '' @ quoted target @ str '' '' @ state_str
                             @ str '' via state synchronization'' @ newline,
                        \<lparr>d_engine = AList.update target skel' (d_engine d), d_registry = reg'\<rparr>))
              | Inl e \<Rightarrow>
                  ([], str ''ERROR: Failed to update kernel state for '' @ quoted target @ str '': '' @ e
                         @ newline, d))
         | None \<Rightarrow>
             ([], if enable
                  then str ''ERROR: Module '' @ quoted target
                         @ str '' is not loaded in kernel memory. Check daemon boot logs or restart the service to load new modules.''
                         @ newline
                  else str ''ERROR: Module '' @ quoted target @ str '' is not currently active'' @ newline, d))"

definition list_line :: "('g, 'm, 'p) security_module \<Rightarrow> rstr" where
  "list_line m =
     (let state = (if status m then str ''[ACTIVE]  '' else str ''[INACTIVE]'')
      in str '' '' @ state @ str '' '' @ sm_slug m @ str '' ('' @ sm_name m @ str '')'' @ newline)"

definition list_response :: "('g, 'm, 'p) registry \<Rightarrow> rstr" where
  "list_response reg = str ''MODULE REGISTRY:'' @ newline @ concat (map list_line reg)"

definition status_response :: rstr where
  "status_response = str ''Bouclier Bleu EDR Status: Kernel Engine Running'' @ newline"

definition handle_command ::
    "endian \<Rightarrow> 'm bpf_api \<Rightarrow> 'm loader \<Rightarrow> daemon_cmd \<Rightarrow> ('g, 'm) daemon \<Rightarrow>
     effect list \<times> rstr \<times> ('g, 'm) daemon" where
  "handle_command en api ld cmd d =
     (case cmd of
        CmdStatus \<Rightarrow> ([], status_response, d)
      | CmdList \<Rightarrow> ([], list_response (d_registry d), d)
      | CmdEnable target \<Rightarrow> toggle_module en api ld target True d
      | CmdDisable target \<Rightarrow> toggle_module en api ld target False d)"

section \<open>The loop\<close>

text \<open>
  The command channel holds at most 128 messages (\<open>mpsc::sync_channel(128)\<close> of
  \<open>main\<close>); replies are recorded with the number of their channel. \<open>senders\<close> tells whether
  the control plane still holds the sending end.
\<close>

definition channel_bound :: nat where
  "channel_bound = 128"

record ('g, 'm) system =
  s_daemon :: "('g, 'm) daemon"
  s_globals :: 'g
  s_queue :: "ipc_message list"
  s_senders :: bool
  s_replies :: "(nat \<times> rstr) list"
  s_running :: bool

fun answer_all ::
    "endian \<Rightarrow> 'm bpf_api \<Rightarrow> 'm loader \<Rightarrow> ipc_message list \<Rightarrow> ('g, 'm) daemon \<Rightarrow>
     effect list \<times> (nat \<times> rstr) list \<times> ('g, 'm) daemon" where
  "answer_all en api ld [] d = ([], [], d)"
| "answer_all en api ld (msg # msgs) d =
     (case handle_command en api ld (msg_cmd msg) d of
        (e1, response, d1) \<Rightarrow>
          (case answer_all en api ld msgs d1 of
             (e2, replies, d2) \<Rightarrow> (e1 @ e2, (msg_reply msg, response) # replies, d2)))"

text \<open>What one iteration finds in the ring buffer.\<close>

record ring_state =
  rs_bound :: "rstr list option"
  rs_events :: "ring_event list"
  rs_error :: "rstr option"

definition run_once ::
    "endian \<Rightarrow> 'm bpf_api \<Rightarrow> 'm loader \<Rightarrow> ring_state \<Rightarrow> ('g, 'm) system \<Rightarrow> effect list \<times> ('g, 'm) system" where
  "run_once en api ld rs s =
     (case s_queue s of
        [] \<Rightarrow>
          if \<not> s_senders s
          then ([Stderr (str ''Bouclier Bleu [Fatal]: IPC Control Plane disconnected.'')],
                s\<lparr>s_running := False\<rparr>)
          else (case poll_ring (rs_bound rs) (d_registry (s_daemon s)) en (rs_events rs) (rs_error rs)
                        (s_globals s) of
                  (e, g) \<Rightarrow> (e, s\<lparr>s_globals := g\<rparr>))
      | msg # pending \<Rightarrow>
          (case answer_all en api ld (msg # take 10 pending) (s_daemon s) of
             (e1, replies, d) \<Rightarrow>
               (case poll_ring (rs_bound rs) (d_registry d) en (rs_events rs) (rs_error rs) (s_globals s) of
                  (e2, g) \<Rightarrow>
                    (e1 @ e2,
                     s\<lparr>s_daemon := d, s_globals := g, s_queue := drop 10 pending,
                       s_replies := s_replies s @ replies\<rparr>))))"

text \<open>
  The interleavings: the control plane sends (\<open>try_send\<close> succeeds while there is room) or
  goes away; the actor runs one iteration of its loop while it has not left it.
\<close>

datatype action = Send ipc_message | HangUp | Tick ring_state

inductive system_step ::
    "endian \<Rightarrow> 'm bpf_api \<Rightarrow> 'm loader \<Rightarrow> ('g, 'm) system \<Rightarrow> action \<Rightarrow> effect list \<Rightarrow> ('g, 'm) system \<Rightarrow> bool"
  for en api ld where
  step_send:
    "s_senders s \<Longrightarrow> s_running s \<Longrightarrow> length (s_queue s) < channel_bound \<Longrightarrow>
     system_step en api ld s (Send msg) [] (s\<lparr>s_queue := s_queue s @ [msg]\<rparr>)"
| step_hang_up:
    "s_senders s \<Longrightarrow> system_step en api ld s HangUp [] (s\<lparr>s_senders := False\<rparr>)"
| step_tick:
    "s_running s \<Longrightarrow> run_once en api ld rs s = (e, s') \<Longrightarrow> system_step en api ld s (Tick rs) e s'"

inductive_cases system_stepE [elim!]:
  "system_step en api ld s (Send msg) e s'"
  "system_step en api ld s HangUp e s'"
  "system_step en api ld s (Tick rs) e s'"

inductive reachable ::
    "endian \<Rightarrow> 'm bpf_api \<Rightarrow> 'm loader \<Rightarrow> ('g, 'm) system \<Rightarrow> action list \<Rightarrow> ('g, 'm) system \<Rightarrow> bool"
  for en api ld s0 where
  reach_start: "reachable en api ld s0 [] s0"
| reach_step:
    "reachable en api ld s0 as s \<Longrightarrow> system_step en api ld s a e s' \<Longrightarrow>
     reachable en api ld s0 (as @ [a]) s'"

section \<open>Events\<close>

lemma callback_isolated:
  assumes "same_code build_registry reg"
  shows "ring_callback reg slug en env d g =
    (case find_module slug reg of
       None \<Rightarrow> ([], g)
     | Some m \<Rightarrow> (fst (process_event m en env d g), snd (snd (process_event m en env d g))))"
proof (cases "find_module slug reg")
  case None
  then show ?thesis by (simp add: ring_callback_def)
next
  case (Some m)
  have "fst (snd (process_event m en env d g)) = Inr ()"
    using registry_no_panic [OF assms] find_module_member [OF Some] by blast
  with Some show ?thesis by (cases "process_event m en env d g") (simp add: ring_callback_def)
qed

lemma callback_inactive:
  "find_module slug reg = Some m \<Longrightarrow> \<not> status m \<Longrightarrow> ring_callback reg slug en env d g = ([], g)"
  by (simp add: ring_callback_def process_event_inactive)

section \<open>Commands\<close>

lemma engine_update_mem:
  "(n, sk) \<in> set (AList.update target skel eng) \<Longrightarrow> n \<noteq> target \<Longrightarrow> (n, sk) \<in> set eng"
  by (induction eng) (auto split: if_splits)

lemma engine_update_at:
  "distinct (map fst eng) \<Longrightarrow> (target, sk) \<in> set (AList.update target skel eng) \<Longrightarrow> sk = skel"
  by (metis distinct_update map_of_eq_Some_iff option.inject update_conv' fun_upd_same)

text \<open>The two outcomes of a toggle.\<close>

lemma toggle_module_cases:
  obtains (toggled) skel skel' e reg' where
    "map_of (d_engine d) target = Some skel"
    "set_module_state en api ld skel target b = Inr skel'"
    "toggle_module_in target b (d_registry d) = (e, reg')"
    "snd (snd (toggle_module en api ld target b d)) =
       \<lparr>d_engine = AList.update target skel' (d_engine d), d_registry = reg'\<rparr>"
  | (refused) "snd (snd (toggle_module en api ld target b d)) = d"
    "fst (toggle_module en api ld target b d) = []"
    "take 6 (fst (snd (toggle_module en api ld target b d))) = str ''ERROR:''"
proof (cases "map_of (d_engine d) target")
  case None
  with refused show thesis by (cases b) (simp_all add: toggle_module_def get_skeleton_def str_def)
next
  case (Some skel)
  show thesis
  proof (cases "set_module_state en api ld skel target b")
    case (Inl e)
    with refused Some show thesis by (simp add: toggle_module_def get_skeleton_def str_def)
  next
    case (Inr skel')
    obtain e reg' where "toggle_module_in target b (d_registry d) = (e, reg')" by fastforce
    with Some Inr show thesis
      by (intro toggled) (simp_all add: toggle_module_def get_skeleton_def Let_def)
  qed
qed

definition daemon_ok :: "endian \<Rightarrow> 'm bpf_api \<Rightarrow> 'm loader \<Rightarrow> ('g, 'm) daemon \<Rightarrow> bool" where
  "daemon_ok en api ld d \<longleftrightarrow>
     engine_ok ld (d_engine d) \<and> coherent en api (d_registry d) (d_engine d)"

lemma toggle_module_ok:
  assumes api: "bpf_api_ok api" and ok: "daemon_ok en api ld d"
  shows "daemon_ok en api ld (snd (snd (toggle_module en api ld target b d)))"
proof (rule toggle_module_cases [of d target en api ld b])
  fix skel skel' e reg'
  assume skel: "map_of (d_engine d) target = Some skel"
    and set: "set_module_state en api ld skel target b = Inr skel'"
    and reg: "toggle_module_in target b (d_registry d) = (e, reg')"
    and d': "snd (snd (toggle_module en api ld target b d)) =
       \<lparr>d_engine = AList.update target skel' (d_engine d), d_registry = reg'\<rparr>"
  note eok = ok [unfolded daemon_ok_def, THEN conjunct1]
  have mod: "sk_module skel' = target" "target \<in> set (available_modules ld)"
    using set_module_state_module [OF set] by auto
  have reg': "reg' = snd (toggle_module_in target b (d_registry d))" using reg by simp
  have "entry_coherent en api reg' n sk" if "(n, sk) \<in> set (AList.update target skel' (d_engine d))" for n sk
  proof (cases "n = target")
    case True
    then have sk: "sk = skel'" using engine_update_at that eok by (auto simp: engine_ok_def)
    have "kernel_active en api skel' \<noteq> Some (\<not> b)"
      using set_module_state_active [OF api set] by (cases "kernel_active en api skel") auto
    with True sk reg' show ?thesis by (simp add: entry_coherent_toggled)
  next
    case False
    with engine_update_mem [OF that] ok reg' show ?thesis
      by (auto simp: daemon_ok_def coherent_def entry_coherent_other)
  qed
  with engine_ok_update [OF eok mod] d' show ?thesis
    by (auto simp: daemon_ok_def coherent_def)
next
  assume "snd (snd (toggle_module en api ld target b d)) = d"
  with ok show ?thesis by simp
qed

lemma toggle_module_code:
  "same_code (d_registry d) (d_registry (snd (snd (toggle_module en api ld target b d))))"
  by (rule toggle_module_cases [of d target en api ld b]) (auto, metis same_code_toggle snd_conv)

lemma handle_command_ok:
  "bpf_api_ok api \<Longrightarrow> daemon_ok en api ld d \<Longrightarrow>
   daemon_ok en api ld (snd (snd (handle_command en api ld cmd d))) \<and>
   same_code (d_registry d) (d_registry (snd (snd (handle_command en api ld cmd d))))"
  by (cases cmd) (simp_all add: handle_command_def toggle_module_ok toggle_module_code)

lemma answer_all_ok:
  "bpf_api_ok api \<Longrightarrow> daemon_ok en api ld d \<Longrightarrow>
   daemon_ok en api ld (snd (snd (answer_all en api ld msgs d))) \<and>
   same_code (d_registry d) (d_registry (snd (snd (answer_all en api ld msgs d))))"
proof (induction msgs arbitrary: d)
  case Nil
  then show ?case by simp
next
  case (Cons msg msgs)
  obtain e1 r d1 where one: "handle_command en api ld (msg_cmd msg) d = (e1, r, d1)"
    using prod_cases3 by blast
  from handle_command_ok [OF Cons.prems, of "msg_cmd msg"] one
  have "daemon_ok en api ld d1" "same_code (d_registry d) (d_registry d1)" by simp_all
  with Cons.IH [OF Cons.prems(1), of d1] one show ?case
    by (auto split: prod.splits intro: same_code_trans)
qed

lemma answer_all_replies:
  "map fst (fst (snd (answer_all en api ld msgs d))) = map msg_reply msgs"
  by (induction msgs arbitrary: d) (simp_all add: case_prod_beta)

section \<open>The loop\<close>

lemma run_once_cases:
  obtains (stop) "s_queue s = []" "\<not> s_senders s"
      "snd (run_once en api ld rs s) = s\<lparr>s_running := False\<rparr>"
  | (idle) g where "s_queue s = []" "s_senders s" "snd (run_once en api ld rs s) = s\<lparr>s_globals := g\<rparr>"
  | (busy) msg pending d replies g where "s_queue s = msg # pending"
      "answer_all en api ld (msg # take 10 pending) (s_daemon s) =
         (fst (answer_all en api ld (msg # take 10 pending) (s_daemon s)), replies, d)"
      "snd (run_once en api ld rs s) =
         s\<lparr>s_daemon := d, s_globals := g, s_queue := drop 10 pending, s_replies := s_replies s @ replies\<rparr>"
proof (cases "s_queue s")
  case Nil
  then show thesis using stop idle
    by (cases "s_senders s") (auto simp: run_once_def case_prod_beta)
next
  case (Cons msg pending)
  show thesis
    by (rule busy [OF Cons prod_eqI])
      (simp_all add: run_once_def Cons case_prod_beta del: answer_all.simps)
qed


text \<open>The invariant of the actor and its channel.\<close>

definition system_inv :: "endian \<Rightarrow> 'm bpf_api \<Rightarrow> 'm loader \<Rightarrow> ('g tracked_scheme, 'm) system \<Rightarrow> bool" where
  "system_inv en api ld s \<longleftrightarrow>
     daemon_ok en api ld (s_daemon s) \<and> same_code build_registry (d_registry (s_daemon s)) \<and>
     length (s_queue s) \<le> channel_bound"

lemma run_once_inv:
  assumes "bpf_api_ok api" "system_inv en api ld s"
  shows "system_inv en api ld (snd (run_once en api ld rs s))"
proof (rule run_once_cases [of s en api ld rs])
  fix msg pending d replies g
  assume q: "s_queue s = msg # pending"
    and ans: "answer_all en api ld (msg # take 10 pending) (s_daemon s) =
         (fst (answer_all en api ld (msg # take 10 pending) (s_daemon s)), replies, d)"
    and s': "snd (run_once en api ld rs s) =
         s\<lparr>s_daemon := d, s_globals := g, s_queue := drop 10 pending, s_replies := s_replies s @ replies\<rparr>"
  have d: "snd (snd (answer_all en api ld (msg # take 10 pending) (s_daemon s))) = d"
    by (subst ans) simp
  have "daemon_ok en api ld d \<and> same_code (d_registry (s_daemon s)) (d_registry d)"
    using answer_all_ok [OF assms(1), of en ld "s_daemon s" "msg # take 10 pending"] assms(2)
    unfolding d by (simp add: system_inv_def)
  with assms(2) q s' show ?thesis by (auto simp: system_inv_def intro: same_code_trans)
qed (use assms in \<open>auto simp: system_inv_def\<close>)

lemma system_step_inv:
  assumes "bpf_api_ok api" "system_step en api ld s a e s'" "system_inv en api ld s"
  shows "system_inv en api ld s'"
  using assms(2)
proof cases
  case (step_tick rs)
  with run_once_inv [OF assms(1,3), of rs] show ?thesis by (metis snd_conv)
qed (use assms in \<open>auto simp: system_inv_def\<close>)

lemma reachable_inv:
  assumes "bpf_api_ok api" "reachable en api ld s0 as s" "system_inv en api ld s0"
  shows "system_inv en api ld s"
  using assms(2)
proof induction
  case reach_start
  then show ?case using assms(3) .
next
  case (reach_step as s a e s')
  with system_step_inv [OF assms(1)] show ?case by blast
qed

section \<open>Every command is answered once, in order\<close>

definition sent :: "action list \<Rightarrow> nat list" where
  "sent as = List.map_filter (\<lambda>a. case a of Send msg \<Rightarrow> Some (msg_reply msg) | _ \<Rightarrow> None) as"

definition ticks :: "action list \<Rightarrow> nat" where
  "ticks as = length (filter (\<lambda>a. case a of Tick _ \<Rightarrow> True | _ \<Rightarrow> False) as)"

definition ledger :: "('g, 'm) system \<Rightarrow> nat list" where
  "ledger s = map fst (s_replies s) @ map msg_reply (s_queue s)"

lemma run_once_ledger:
  "ledger (snd (run_once en api ld rs s)) = ledger s \<and>
   length (s_replies (snd (run_once en api ld rs s))) = length (s_replies s) + min 11 (length (s_queue s))"
proof (rule run_once_cases [of s en api ld rs])
  fix msg pending d replies g
  assume q: "s_queue s = msg # pending"
    and ans: "answer_all en api ld (msg # take 10 pending) (s_daemon s) =
         (fst (answer_all en api ld (msg # take 10 pending) (s_daemon s)), replies, d)"
    and s': "snd (run_once en api ld rs s) =
         s\<lparr>s_daemon := d, s_globals := g, s_queue := drop 10 pending, s_replies := s_replies s @ replies\<rparr>"
  have "fst (snd (answer_all en api ld (msg # take 10 pending) (s_daemon s))) = replies"
    by (subst ans) simp
  then have ids: "map fst replies = map msg_reply (msg # take 10 pending)"
    using answer_all_replies [of en api ld "msg # take 10 pending" "s_daemon s"] by simp
  then have "length replies = Suc (min 10 (length pending))"
    by (metis length_map length_Cons length_take min.commute)
  moreover have "map msg_reply (take 10 pending) @ map msg_reply (drop 10 pending) = map msg_reply pending"
    by (metis append_take_drop_id map_append)
  ultimately show ?thesis using ids by (simp add: s' q ledger_def)
qed (auto simp: ledger_def)

lemma reachable_ledger:
  "reachable en api ld s0 as s \<Longrightarrow> ledger s = ledger s0 @ sent as"
proof (induction rule: reachable.induct)
  case reach_start
  then show ?case by (simp add: sent_def List.map_filter_def)
next
  case (reach_step as s a e s')
  from reach_step(2) show ?case
  proof cases
    case (step_tick rs)
    with run_once_ledger [of en api ld rs s] reach_step.IH show ?thesis
      by (simp add: sent_def List.map_filter_def)
  qed (use reach_step.IH in \<open>auto simp: ledger_def sent_def List.map_filter_def\<close>)
qed

text \<open>Each iteration answers up to eleven commands; what was queued is answered after enough of them.\<close>

lemma reachable_progress:
  assumes "reachable en api ld s0 as s"
  shows "min (length (s_replies s0) + length (s_queue s0)) (length (s_replies s0) + 11 * ticks as)
    \<le> length (s_replies s) \<and> length (s_replies s0) + length (s_queue s0) \<le> length (s_replies s) + length (s_queue s)"
  using assms
proof (induction rule: reachable.induct)
  case reach_start
  then show ?case by (simp add: ticks_def)
next
  case (reach_step as s a e s')
  from reach_step(2) show ?case
  proof cases
    case (step_tick rs)
    have s': "s' = snd (run_once en api ld rs s)" using step_tick by simp
    have len: "length (s_replies s') = length (s_replies s) + min 11 (length (s_queue s))"
      using run_once_ledger [of en api ld rs s] s' by simp
    have "length (ledger s') = length (ledger s)" using run_once_ledger [of en api ld rs s] s' by simp
    then have tot: "length (s_replies s') + length (s_queue s') = length (s_replies s) + length (s_queue s)"
      by (simp add: ledger_def)
    have "ticks (as @ [a]) = Suc (ticks as)" using step_tick by (simp add: ticks_def)
    with reach_step.IH len tot show ?thesis by (simp add: min_def split: if_splits)
  qed (use reach_step.IH in \<open>auto simp: ticks_def\<close>)
qed

text \<open>A full channel is answered within twelve iterations, whatever is sent meanwhile.\<close>

lemma answered_within:
  assumes "reachable en api ld s0 as s" "length (s_queue s0) \<le> channel_bound" "12 \<le> ticks as"
  shows "take (length (ledger s0)) (map fst (s_replies s)) = ledger s0"
proof -
  have "length (ledger s0) \<le> length (s_replies s)"
    using reachable_progress [OF assms(1)] assms(2,3)
    by (auto simp: ledger_def channel_bound_def min_def split: if_splits)
  moreover have "take (length (ledger s0)) (ledger s) = ledger s0"
    using reachable_ledger [OF assms(1)] by simp
  ultimately show ?thesis by (simp add: ledger_def)
qed

section \<open>Runs of the loop alone\<close>

text \<open>The loop does not stop while the control plane is there.\<close>

lemma ticking_reachable:
  assumes "s_running s0" "s_senders s0"
  shows "\<exists>s. reachable en api ld s0 (replicate n (Tick rs)) s \<and> s_running s \<and> s_senders s"
proof (induction n)
  case 0
  then show ?case using assms reach_start by fastforce
next
  case (Suc n)
  then obtain s where s: "reachable en api ld s0 (replicate n (Tick rs)) s" "s_running s" "s_senders s" by blast
  obtain e s' where run: "run_once en api ld rs s = (e, s')" by fastforce
  have "s_running s' \<and> s_senders s'"
    by (rule run_once_cases [of s en api ld rs]) (use s run in auto)
  moreover have "reachable en api ld s0 (replicate n (Tick rs) @ [Tick rs]) s'"
    using s run by (blast intro: reach_step step_tick)
  ultimately show ?case by (auto simp: replicate_append_same)
qed

section \<open>Properties\<close>

text \<open>
  C18: the commands waiting in the channel are answered in the order they were sent, each
  exactly once and before any later one, within twelve iterations of the loop, whatever is
  sent in the meantime.
\<close>

theorem commands_answered:
  assumes "reachable en api ld s0 as s" and "length (s_queue s0) \<le> channel_bound" and "12 \<le> ticks as"
  shows "take (length (s_replies s0) + length (s_queue s0)) (map fst (s_replies s)) =
      map fst (s_replies s0) @ map msg_reply (s_queue s0) \<and>
    map fst (s_replies s) @ map msg_reply (s_queue s) =
      map fst (s_replies s0) @ map msg_reply (s_queue s0) @ sent as"
  using answered_within [OF assms] reachable_ledger [OF assms(1)] by (simp add: ledger_def)

definition demo_daemon :: "(tracked, (u8 list \<times> u8 list) list) daemon" where
  "demo_daemon =
     \<lparr>d_engine = [(str ''exec_block'', \<lparr>sk_module = str ''exec_block'', sk_maps =
        [(state_map_name, [(state_key Little, state_val Little False)])]\<rparr>)],
      d_registry = build_registry\<rparr>"

definition demo_system :: "(tracked, (u8 list \<times> u8 list) list) system" where
  "demo_system =
     \<lparr>s_daemon = demo_daemon, s_globals = demo_globals,
      s_queue = [\<lparr>msg_cmd = CmdEnable (str ''exec_block''), msg_reply = 7\<rparr>, \<lparr>msg_cmd = CmdList, msg_reply = 8\<rparr>],
      s_senders = True, s_replies = [], s_running = True\<rparr>"

theorem commands_answered_witness:
  "\<exists>s as. reachable Little (hash_map 1) demo_loader demo_system as s \<and>
     take 2 (map fst (s_replies s)) = [7, 8]"
proof -
  let ?rs = "\<lparr>rs_bound = None, rs_events = [], rs_error = None\<rparr>"
  obtain s where run: "reachable Little (hash_map 1) demo_loader demo_system (replicate 12 (Tick ?rs)) s"
    using ticking_reachable [of demo_system Little "hash_map 1" demo_loader 12 ?rs]
    by (auto simp: demo_system_def)
  have "12 \<le> ticks (replicate 12 (Tick ?rs))" by (simp add: ticks_def)
  moreover have len: "length (s_queue demo_system) \<le> channel_bound"
    by (simp add: demo_system_def channel_bound_def)
  ultimately have "take 2 (map fst (s_replies s)) = [7, 8]"
    using commands_answered [OF run len] by (simp add: demo_system_def numeral_2_eq_2)
  with run show ?thesis by blast
qed

text \<open>
  An enable or disable command that reports success leaves both copies of the module's
  flag at the value asked for and every other module as it was; one that reports an error
  changes nothing.
\<close>

theorem toggle_command:
  assumes "bpf_api_ok api" and "engine_ok ld (d_engine d)"
    and "toggle_module en api ld target b d = (e, response, d')"
  shows "if take 7 response = str ''SUCCESS''
    then (\<exists>skel'. get_skeleton (d_engine d') target = Some skel' \<and>
            kernel_active en api skel' \<in> {None, Some b} \<and>
            (case find_module target (d_registry d') of None \<Rightarrow> True | Some m \<Rightarrow> status m = b)) \<and>
         (\<forall>n. n = target \<or> (get_skeleton (d_engine d') n = get_skeleton (d_engine d) n \<and>
            find_module n (d_registry d') = find_module n (d_registry d)))
    else d' = d"
proof (rule toggle_module_cases [of d target en api ld b])
  fix skel skel' e1 reg'
  assume skel: "map_of (d_engine d) target = Some skel"
    and set: "set_module_state en api ld skel target b = Inr skel'"
    and reg: "toggle_module_in target b (d_registry d) = (e1, reg')"
    and d': "snd (snd (toggle_module en api ld target b d)) =
       \<lparr>d_engine = AList.update target skel' (d_engine d), d_registry = reg'\<rparr>"
  have succ: "take 7 response = str ''SUCCESS''"
    using assms(3) skel set reg by (auto simp: toggle_module_def get_skeleton_def Let_def str_def)
  have reg': "reg' = snd (toggle_module_in target b (d_registry d))" using reg by simp
  have "kernel_active en api skel' \<in> {None, Some b}"
    using set_module_state_active [OF assms(1) set] by (cases "kernel_active en api skel") auto
  with succ d' assms(3) show ?thesis
    by (auto simp: get_skeleton_def update_conv' reg' find_module_toggle status_def split: option.splits)
next
  assume "snd (snd (toggle_module en api ld target b d)) = d"
    and "take 6 (fst (snd (toggle_module en api ld target b d))) = str ''ERROR:''"
  with assms(3) have "d' = d" and err: "take 6 response = str ''ERROR:''" by simp_all
  moreover have "take 7 response \<noteq> str ''SUCCESS''"
  proof
    assume "take 7 response = str ''SUCCESS''"
    then have "take 6 (take 7 response) = take 6 (str ''SUCCESS'')" by simp
    with err show False by (simp add: str_def)
  qed
  ultimately show ?thesis by simp
qed

theorem toggle_command_witness:
  "\<exists>skel'. get_skeleton (d_engine (snd (snd (toggle_module Little (hash_map 1) demo_loader
       (str ''exec_block'') True demo_daemon)))) (str ''exec_block'') = Some skel' \<and>
     kernel_active Little (hash_map 1) skel' \<in> {None, Some True}"
proof -
  have ok: "bpf_api_ok (hash_map 1)" using hash_map_ok by (rule bpf_hash_api)
  have eng: "engine_ok demo_loader (d_engine demo_daemon)"
    by (simp add: engine_ok_def demo_loader_def demo_daemon_def)
  obtain e r d' where run:
    "toggle_module Little (hash_map 1) demo_loader (str ''exec_block'') True demo_daemon = (e, r, d')"
    using prod_cases3 by blast
  have "take 7 (fst (snd (toggle_module Little (hash_map 1) demo_loader (str ''exec_block'') True demo_daemon))) =
      str ''SUCCESS''"
    by (simp add: toggle_module_def get_skeleton_def set_module_state_def demo_daemon_def demo_loader_def
        hash_map_def Let_def case_prod_beta) (simp add: str_def)
  with run have "take 7 r = str ''SUCCESS''" by simp
  with toggle_command [OF ok eng run] run show ?thesis by auto
qed

text \<open>
  C19: no payload, from any module in any state, reaches the panic branch of a ring-buffer
  callback: an active module's code runs to completion and its effects are all there is,
  an inactive or unknown module drops the event.
\<close>

theorem callbacks_never_panic:
  assumes "same_code build_registry reg"
  shows "ring_callback reg slug en env d g =
    (case find_module slug reg of
       None \<Rightarrow> ([], g)
     | Some m \<Rightarrow> (if status m then (fst (sm_event m en env d g), snd (snd (sm_event m en env d g))) else ([], g)))"
  unfolding callback_isolated [OF assms] by (simp add: process_event_def split: option.split)

theorem callbacks_never_panic_witness:
  "ring_callback (snd (toggle_module_in (str ''shield'') True build_registry)) (str ''shield'')
     Little (demo_env 0) [] demo_globals =
   ([parse_failure (str ''shield'') min_size_error], demo_globals)"
proof -
  have find: "find_module (str ''shield'') (snd (toggle_module_in (str ''shield'') True build_registry)) =
      Some (snd (toggle True (new_module shield_spec)))"
    by (simp add: find_module_toggle toggle_def) (simp add: find_module_def build_registry_def module_spec_defs)
  show ?thesis
    unfolding callbacks_never_panic [OF same_code_toggle] find
    by (simp add: shield_events.event_short) (simp add: shield_spec_def)
qed

end
