(* ===== verification/BB_Ipc.thy ===== *)
theory BB_Ipc
  imports BB_Actor
begin

text \<open>
  The control plane: \<open>core/src/ipc/handler.rs\<close> (peer credentials, bounded read, command
  grammar, dispatch to the actor) and the client in \<open>cli/src/main.rs\<close> that writes what it
  reads. A connection is what the kernel and the peer do on the socket, with the time
  each arrival takes.
\<close>

section \<open>Reading a request\<close>

text \<open>
  \<open>Data d bs\<close>: the bytes \<open>bs\<close> after \<open>d\<close> milliseconds of silence; \<open>Eof d\<close>: the peer shut its
  side down; \<open>Broken d e\<close>: an error of the socket. After the last arrival the peer is silent.
\<close>

datatype arrival = Data nat "u8 list" | Eof nat | Broken nat rstr

definition read_timeout_ms :: nat where
  "read_timeout_ms = 1000"

definition would_block :: rstr where
  "would_block = str ''Resource temporarily unavailable (os error 11)''"

text \<open>
  \<open>stream.take(n).read_to_end(&mut buffer)\<close> under \<open>SO_RCVTIMEO\<close>, which bounds every
  single wait; the second component is the time spent.
\<close>

fun read_to_end :: "nat \<Rightarrow> u8 list \<Rightarrow> arrival list \<Rightarrow> (rstr + u8 list) \<times> nat" where
  "read_to_end 0 buffer as = (Inr buffer, 0)"
| "read_to_end (Suc n) buffer [] = (Inl would_block, read_timeout_ms)"
| "read_to_end (Suc n) buffer (Data d bs # as) =
     (if d \<ge> read_timeout_ms then (Inl would_block, read_timeout_ms)
      else (case read_to_end (Suc n - length bs) (buffer @ take (Suc n) bs) as of
              (r, t) \<Rightarrow> (r, d + t)))"
| "read_to_end (Suc n) buffer (Eof d # as) =
     (if d \<ge> read_timeout_ms then (Inl would_block, read_timeout_ms) else (Inr buffer, d))"
| "read_to_end (Suc n) buffer (Broken d e # as) =
     (if d \<ge> read_timeout_ms then (Inl would_block, read_timeout_ms) else (Inl e, d))"

section \<open>The command grammar\<close>

text \<open>
  \<open>str::to_uppercase\<close>, used only to compare with ASCII words: the code points whose
  uppercase is ASCII are the ASCII letters, the dotless i, the long s, the sharp s and the
  Latin ligatures. Any other code point has a non-ASCII uppercase and stands for itself.
\<close>

definition upper_char :: "rchar \<Rightarrow> rstr" where
  "upper_char c =
     (if 97 \<le> c \<and> c \<le> 122 then [c - 32]
      else if c = 0xDF then str ''SS''
      else if c = 0x131 then str ''I''
      else if c = 0x17F then str ''S''
      else if c = 0xFB00 then str ''FF''
      else if c = 0xFB01 then str ''FI''
      else if c = 0xFB02 then str ''FL''
      else if c = 0xFB03 then str ''FFI''
      else if c = 0xFB04 then str ''FFL''
      else if c = 0xFB05 \<or> c = 0xFB06 then str ''ST''
      else [c])"

definition to_uppercase :: "rstr \<Rightarrow> rstr" where
  "to_uppercase s = concat (map upper_char s)"

definition unknown_command :: rstr where
  "unknown_command = str ''Unknown command''"

definition parse_parts :: "rstr list \<Rightarrow> rstr + daemon_cmd option" where
  "parse_parts parts =
     (if parts = [] then Inr None
      else (let verb = to_uppercase (parts ! 0)
            in if verb = str ''STATUS'' then Inr (Some CmdStatus)
               else if verb = str ''LIST'' then Inr (Some CmdList)
               else if verb = str ''ENABLE'' \<and> length parts > 1 then Inr (Some (CmdEnable (parts ! 1)))
               else if verb = str ''DISABLE'' \<and> length parts > 1 then Inr (Some (CmdDisable (parts ! 1)))
               else Inl unknown_command))"

definition parse_command :: "arrival list \<Rightarrow> (rstr + daemon_cmd option) \<times> nat" where
  "parse_command stream =
     (case read_to_end 1024 [] stream of
        (Inl e, t) \<Rightarrow> (Inl (str ''Read error: '' @ e), t)
      | (Inr buffer, t) \<Rightarrow>
          (if buffer = [] then (Inr None, t)
           else (let command_str = trim_by is_whitespace (utf8_lossy buffer);
                     parts = split_whitespace command_str
                 in (parse_parts parts, t))))"

section \<open>A connection\<close>

text \<open>
  \<open>peer\<close>: the credentials the kernel reports, or its error; the two timeouts can fail to be
  set.
\<close>

record connection =
  peer :: "rstr + u32"
  read_timeout_error :: "rstr option"
  write_timeout_error :: "rstr option"
  request :: "arrival list"

text \<open>The outcome of \<open>try_send\<close>, and of the wait of at most five seconds for the reply.\<close>

datatype send_outcome = Replied rstr | NoReply | ChannelFull | ChannelClosed

definition verify_peercred :: "connection \<Rightarrow> rstr + unit" where
  "verify_peercred c =
     (case peer c of
        Inr uid \<Rightarrow>
          if uid \<noteq> 0
          then Inl (str ''SECURITY ALERT: Non-root process (UID: '' @ show_u32 uid
                 @ str '') attempted IPC connection.'')
          else Inr ()
      | Inl e \<Rightarrow>
          Inl (str ''SECURITY ERROR: Kernel failed to yield peer credentials: '' @ e
            @ str ''. Dropping connection.''))"

text \<open>The text that \<open>handle_connection\<close> writes back.\<close>

definition dispatch_command :: "send_outcome \<Rightarrow> rstr" where
  "dispatch_command outcome =
     (case outcome of
        Replied response \<Rightarrow> response
      | NoReply \<Rightarrow> str ''ERROR: Engine operation timed out or panicked.'' @ newline
      | ChannelFull \<Rightarrow> str ''ERROR: Daemon is busy or overwhelmed. Try again later.'' @ newline
      | ChannelClosed \<Rightarrow> str ''FATAL: Core engine has crashed. Channel disconnected.'' @ newline)"

text \<open>
  The same with time: a command is queued and the actor's answer comes after so many
  milliseconds, or never, or the channel refuses it. \<open>recv_timeout\<close> gives up after five seconds.
\<close>

datatype queue_outcome = Queued "(nat \<times> rstr) option" | QueueFull | QueueClosed

definition reply_timeout_ms :: nat where
  "reply_timeout_ms = 5000"

definition await_reply :: "queue_outcome \<Rightarrow> send_outcome \<times> nat" where
  "await_reply q =
     (case q of
        Queued (Some (d, answer)) \<Rightarrow>
          (if d < reply_timeout_ms then (Replied answer, d) else (NoReply, reply_timeout_ms))
      | Queued None \<Rightarrow> (NoReply, reply_timeout_ms)
      | QueueFull \<Rightarrow> (ChannelFull, 0)
      | QueueClosed \<Rightarrow> (ChannelClosed, 0))"

text \<open>What a connection does: its log lines, what is written back, the command it submits.\<close>

record exchange =
  x_effects :: "effect list"
  x_written :: "rstr list"
  x_submitted :: "daemon_cmd option"

definition handle_connection :: "connection \<Rightarrow> (daemon_cmd \<Rightarrow> send_outcome) \<Rightarrow> exchange" where
  "handle_connection c channel =
     (case verify_peercred c of
        Inl e \<Rightarrow>
          \<lparr>x_effects = [Stderr e],
           x_written = [str ''ERROR: Permission denied. Root access required.'' @ newline],
           x_submitted = None\<rparr>
      | Inr _ \<Rightarrow>
          (case read_timeout_error c of
             Some e \<Rightarrow>
               \<lparr>x_effects = [Stderr (str ''WARNING: Failed to apply read timeout to stream: '' @ e)],
                x_written = [], x_submitted = None\<rparr>
           | None \<Rightarrow>
               (case write_timeout_error c of
                  Some e \<Rightarrow>
                    \<lparr>x_effects = [Stderr (str ''WARNING: Failed to apply write timeout to stream: '' @ e)],
                     x_written = [], x_submitted = None\<rparr>
                | None \<Rightarrow>
                    (case fst (parse_command (request c)) of
                       Inl _ \<Rightarrow>
                         \<lparr>x_effects = [], x_written = [str ''ERROR: Unknown command received.'' @ newline],
                          x_submitted = None\<rparr>
                     | Inr None \<Rightarrow> \<lparr>x_effects = [], x_written = [], x_submitted = None\<rparr>
                     | Inr (Some cmd) \<Rightarrow>
                         \<lparr>x_effects = [], x_written = [dispatch_command (channel cmd)],
                          x_submitted = Some cmd\<rparr>))))"

text \<open>The milliseconds it waits, for the peer and for the actor, before it writes its answer.\<close>

definition connection_time :: "connection \<Rightarrow> (daemon_cmd \<Rightarrow> queue_outcome) \<Rightarrow> nat" where
  "connection_time c queue =
     (case verify_peercred c of
        Inl e \<Rightarrow> 0
      | Inr _ \<Rightarrow>
          (case (read_timeout_error c, write_timeout_error c) of
             (None, None) \<Rightarrow>
               (case parse_command (request c) of
                  (Inr (Some cmd), t) \<Rightarrow> t + snd (await_reply (queue cmd))
                | (_, t) \<Rightarrow> t)
           | _ \<Rightarrow> 0))"

section \<open>The client\<close>

datatype cli_command = CliStatus | CliList | CliEnable rstr | CliDisable rstr

definition cli_payload :: "cli_command \<Rightarrow> rstr" where
  "cli_payload cmd =
     (case cmd of
        CliStatus \<Rightarrow> str ''STATUS''
      | CliList \<Rightarrow> str ''LIST''
      | CliEnable m \<Rightarrow> str ''ENABLE '' @ m
      | CliDisable m \<Rightarrow> str ''DISABLE '' @ m)"

text \<open>What the client puts on the socket: the payload and the end of its side of the stream.\<close>

definition cli_stream :: "cli_command \<Rightarrow> arrival list" where
  "cli_stream cmd = [Data 0 (utf8_encode (cli_payload cmd)), Eof 0]"

text \<open>
  \<open>read_to_string\<close> behind \<open>take(4096)\<close>: what is read has to be UTF-8 as a whole. The exit
  code is the second component.
\<close>

record cli_env =
  connect_error :: "rstr option"
  request_error :: "rstr option"
  response :: "rstr + u8 list"

definition send_command_to_daemon :: "cli_env \<Rightarrow> effect list \<times> nat" where
  "send_command_to_daemon ce =
     (case connect_error ce of
        Some e \<Rightarrow>
          ([Stderr (str ''Failed to connect to Bouclier Bleu daemon.''),
            Stderr (str ''Error: '' @ e),
            Stderr (str ''Make sure the core engine is running and you are executing this CLI as root (sudo).'')], 1)
      | None \<Rightarrow>
          (case request_error ce of
             Some e \<Rightarrow> ([Stderr (str ''Failed to send command over IPC: '' @ e)], 1)
           | None \<Rightarrow>
               (case response ce of
                  Inl e \<Rightarrow> ([Stderr (str ''Failed to read daemon response: '' @ e)], 1)
                | Inr bytes \<Rightarrow>
                    (let bs = take 4096 bytes
                     in if \<not> valid_utf8 bs
                        then ([Stderr (str ''Failed to read daemon response: stream did not contain valid UTF-8'')], 1)
                        else ([Stdout (trim_end_by is_whitespace (utf8_lossy bs))], 0)))))"

section \<open>The bounded read\<close>

lemma read_to_end_bound:
  "fst (read_to_end n buffer as) = Inr buffer' \<Longrightarrow> length buffer' \<le> length buffer + n"
proof (induction n buffer as arbitrary: buffer' rule: read_to_end.induct)
  case (3 n buffer d bs as)
  then have "length buffer' \<le> length (buffer @ take (Suc n) bs) + (Suc n - length bs)"
    by (simp add: case_prod_beta split: if_splits)
  then show ?case by (simp split: if_splits)
qed (auto split: if_splits)

text \<open>Each wait is bounded and each arrival uses up at least one byte of the allowance.\<close>

definition nonempty_data :: "arrival list \<Rightarrow> bool" where
  "nonempty_data as \<longleftrightarrow> (\<forall>d bs. Data d bs \<in> set as \<longrightarrow> bs \<noteq> [])"

lemma read_to_end_time:
  "nonempty_data as \<Longrightarrow> snd (read_to_end n buffer as) \<le> read_timeout_ms * n"
proof (induction n buffer as rule: read_to_end.induct)
  case (3 n buffer d bs as)
  then have "bs \<noteq> []" "nonempty_data as" by (auto simp: nonempty_data_def)
  show ?case
  proof (cases "d \<ge> read_timeout_ms")
    case True
    then show ?thesis by (simp add: read_timeout_ms_def)
  next
    case False
    have "snd (read_to_end (Suc n - length bs) (buffer @ take (Suc n) bs) as) \<le>
        read_timeout_ms * (Suc n - length bs)"
      using 3 False \<open>nonempty_data as\<close> by simp
    also have "\<dots> \<le> read_timeout_ms * n"
      using \<open>bs \<noteq> []\<close> by (cases bs) simp_all
    finally show ?thesis using False by (simp add: case_prod_beta)
  qed
qed (auto simp: read_timeout_ms_def)

lemma await_reply_time: "snd (await_reply q) \<le> 5000"
  by (auto simp: await_reply_def reply_timeout_ms_def split: queue_outcome.split option.split)

lemma parse_command_time:
  assumes "nonempty_data stream"
  shows "snd (parse_command stream) \<le> 1024 * 1000"
proof -
  have "snd (parse_command stream) = snd (read_to_end 1024 [] stream)"
    by (auto simp: parse_command_def Let_def split: prod.split sum.split)
  then show ?thesis using read_to_end_time [OF assms, of 1024 "[]"] by (simp add: read_timeout_ms_def)
qed

text \<open>The bound is approached: a peer that drips one byte at a time is never cut off.\<close>

lemma read_to_end_drip:
  "read_to_end (Suc n) buffer (replicate n (Data 999 [b]) @ [Eof 999]) =
     (Inr (buffer @ replicate n b), 999 * (n + 1))"
proof (induction n arbitrary: buffer)
  case 0
  then show ?case by (simp add: read_timeout_ms_def)
next
  case (Suc n)
  then show ?case by (simp add: read_timeout_ms_def replicate_append_same)
qed

lemma read_to_end_whole:
  "length bs \<le> n \<Longrightarrow> read_to_end n buffer [Data 0 bs, Eof 0] = (Inr (buffer @ bs), 0)"
proof (cases n)
  case 0
  then show "length bs \<le> n \<Longrightarrow> ?thesis" by simp
next
  case (Suc m)
  assume le: "length bs \<le> n"
  have rest: "read_to_end k b [Eof 0] = (Inr b, 0)" for k b
    by (cases k) (simp_all add: read_timeout_ms_def)
  have "read_to_end (Suc m) buffer [Data 0 bs, Eof 0] =
      (case read_to_end (Suc m - length bs) (buffer @ take (Suc m) bs) [Eof 0] of (r, t) \<Rightarrow> (r, 0 + t))"
    by (simp add: read_timeout_ms_def)
  with le Suc rest show ?thesis by simp
qed

section \<open>The grammar\<close>

lemma parse_parts_target:
  assumes "parse_parts parts = Inr (Some (CmdEnable t)) \<or> parse_parts parts = Inr (Some (CmdDisable t))"
  shows "t \<in> set parts"
proof -
  from assms have "length parts > 1 \<and> t = parts ! 1"
    by (auto simp: parse_parts_def Let_def split: if_splits)
  then show ?thesis by auto
qed

lemma parse_command_target:
  assumes "fst (parse_command stream) = Inr (Some (CmdEnable t)) \<or>
    fst (parse_command stream) = Inr (Some (CmdDisable t))"
  shows "t \<noteq> [] \<and> (\<forall>c \<in> set t. \<not> is_whitespace c)"
proof -
  from assms obtain s where "parse_parts (split_whitespace s) = Inr (Some (CmdEnable t)) \<or>
      parse_parts (split_whitespace s) = Inr (Some (CmdDisable t))"
    by (auto simp: parse_command_def Let_def split: prod.splits sum.splits if_splits)
  then have "t \<in> set (split_whitespace s)" by (rule parse_parts_target)
  then show ?thesis by (rule split_whitespace_pieces)
qed

lemma to_uppercase_verbs [simp]:
  "to_uppercase (str ''STATUS'') = str ''STATUS''" "to_uppercase (str ''LIST'') = str ''LIST''"
  "to_uppercase (str ''ENABLE'') = str ''ENABLE''" "to_uppercase (str ''DISABLE'') = str ''DISABLE''"
  by (simp_all add: to_uppercase_def upper_char_def str_def)

lemma split_whitespace_one:
  "w \<noteq> [] \<Longrightarrow> \<forall>c \<in> set w. \<not> is_whitespace c \<Longrightarrow> split_whitespace w = [w]"
  by (simp add: split_whitespace_def split_on_no_sep)

lemma split_whitespace_two:
  assumes "v \<noteq> []" "\<forall>c \<in> set v. \<not> is_whitespace c" "w \<noteq> []" "\<forall>c \<in> set w. \<not> is_whitespace c"
  shows "split_whitespace (v @ 32 # w) = [v, w]"
proof -
  have "is_whitespace 32" by (simp add: is_whitespace_def)
  with assms show ?thesis
    by (simp add: split_whitespace_def split_on_sep_append split_on_no_sep)
qed

lemma trim_ends:
  assumes "s \<noteq> []" "\<not> is_whitespace (hd s)" "\<not> is_whitespace (last s)"
  shows "trim_by is_whitespace s = s"
proof -
  from assms have "trim_start_by is_whitespace s = s" by (cases s) (simp_all add: trim_start_by_def)
  moreover have "trim_end_by is_whitespace s = s"
    using assms by (cases s rule: rev_cases) (simp_all add: trim_end_by_def)
  ultimately show ?thesis by (simp add: trim_by_def)
qed

lemma parse_payload:
  assumes "\<forall>c \<in> set p. is_scalar c" "p \<noteq> []" "length (utf8_encode p) \<le> 1024"
    and "\<not> is_whitespace (hd p)" "\<not> is_whitespace (last p)"
  shows "parse_command [Data 0 (utf8_encode p), Eof 0] = (parse_parts (split_whitespace p), 0)"
proof -
  have "utf8_encode p \<noteq> []" using utf8_lossy_encode [OF assms(1)] assms(2) by (auto simp: utf8_lossy_def)
  then show ?thesis
    using assms by (simp add: parse_command_def read_to_end_whole utf8_lossy_encode trim_ends Let_def)
qed

lemma verbs_plain:
  "\<forall>c \<in> set (str ''ENABLE''). \<not> is_whitespace c" "\<forall>c \<in> set (str ''DISABLE''). \<not> is_whitespace c"
  "\<forall>c \<in> set (str ''STATUS''). \<not> is_whitespace c" "\<forall>c \<in> set (str ''LIST''). \<not> is_whitespace c"
  by (simp_all add: str_def is_whitespace_def)

definition module_argument :: "rstr \<Rightarrow> bool" where
  "module_argument m \<longleftrightarrow>
     m \<noteq> [] \<and> (\<forall>c \<in> set m. is_scalar c \<and> \<not> is_whitespace c) \<and> length (utf8_encode m) \<le> 1016"

lemma parse_cli_enable:
  assumes "module_argument m"
  shows "parse_command (cli_stream (CliEnable m)) = (Inr (Some (CmdEnable m)), 0)"
proof -
  have verb: "str ''ENABLE '' = str ''ENABLE'' @ [32]" by (simp add: str_def)
  have "split_whitespace (str ''ENABLE '' @ m) = [str ''ENABLE'', m]"
    using split_whitespace_two [OF _ verbs_plain(1), of m] assms by (simp add: verb module_argument_def)
  moreover have "parse_command [Data 0 (utf8_encode (str ''ENABLE '' @ m)), Eof 0] =
      (parse_parts (split_whitespace (str ''ENABLE '' @ m)), 0)"
    using assms by (intro parse_payload)
      (auto simp: module_argument_def str_def is_scalar_def is_whitespace_def utf8_encode_def utf8_encode_char_def)
  ultimately show ?thesis
    by (simp add: cli_stream_def cli_payload_def parse_parts_def Let_def)
qed

lemma parse_cli_disable:
  assumes "module_argument m"
  shows "parse_command (cli_stream (CliDisable m)) = (Inr (Some (CmdDisable m)), 0)"
proof -
  have verb: "str ''DISABLE '' = str ''DISABLE'' @ [32]" by (simp add: str_def)
  have "split_whitespace (str ''DISABLE '' @ m) = [str ''DISABLE'', m]"
    using split_whitespace_two [OF _ verbs_plain(2), of m] assms by (simp add: verb module_argument_def)
  moreover have "parse_command [Data 0 (utf8_encode (str ''DISABLE '' @ m)), Eof 0] =
      (parse_parts (split_whitespace (str ''DISABLE '' @ m)), 0)"
    using assms by (intro parse_payload)
      (auto simp: module_argument_def str_def is_scalar_def is_whitespace_def utf8_encode_def utf8_encode_char_def)
  ultimately show ?thesis
    by (simp add: cli_stream_def cli_payload_def parse_parts_def Let_def)
qed

lemma parse_cli_plain:
  "parse_command (cli_stream CliStatus) = (Inr (Some CmdStatus), 0)"
  "parse_command (cli_stream CliList) = (Inr (Some CmdList), 0)"
proof -
  have "parse_command [Data 0 (utf8_encode p), Eof 0] = (parse_parts [p], 0)"
    if "\<forall>c \<in> set p. 65 \<le> c \<and> c \<le> 90" "p \<noteq> []" "length p \<le> 1024" for p
  proof -
    have "\<forall>c \<in> set p. is_scalar c \<and> \<not> is_whitespace c \<and> c < 0x80"
      using that(1) by (auto simp: is_scalar_def is_whitespace_def)
    with that show ?thesis
      by (subst parse_payload) (simp_all add: split_whitespace_one utf8_encode_ascii)
  qed
  moreover have "\<forall>c \<in> set (str ''STATUS''). 65 \<le> c \<and> c \<le> 90" "\<forall>c \<in> set (str ''LIST''). 65 \<le> c \<and> c \<le> 90"
    by (simp_all add: str_def)
  ultimately show "parse_command (cli_stream CliStatus) = (Inr (Some CmdStatus), 0)"
    "parse_command (cli_stream CliList) = (Inr (Some CmdList), 0)"
    by (simp_all add: cli_stream_def cli_payload_def parse_parts_def Let_def)
qed

section \<open>Access\<close>

lemma submitted_root:
  "x_submitted (handle_connection c channel) = Some cmd \<Longrightarrow>
   peer c = Inr 0 \<and> fst (parse_command (request c)) = Inr (Some cmd)"
  by (auto simp: handle_connection_def verify_peercred_def split: sum.splits option.splits if_splits)

lemma non_root_denied:
  "peer c \<noteq> Inr 0 \<Longrightarrow>
   x_submitted (handle_connection c channel) = None \<and>
   x_written (handle_connection c channel) = [str ''ERROR: Permission denied. Root access required.'' @ newline]"
  by (cases "peer c") (auto simp: handle_connection_def verify_peercred_def)

section \<open>Properties\<close>

text \<open>
  C21: a command reaches the actor only from a peer the kernel reports as root, and the
  module it names is a nonempty word without white space.
\<close>

theorem only_root_submits:
  assumes "x_submitted (handle_connection c channel) = Some cmd"
  shows "peer c = Inr 0 \<and>
    (case cmd of
       CmdEnable m \<Rightarrow> m \<noteq> [] \<and> list_all (\<lambda>c. \<not> is_whitespace c) m
     | CmdDisable m \<Rightarrow> m \<noteq> [] \<and> list_all (\<lambda>c. \<not> is_whitespace c) m
     | _ \<Rightarrow> True)"
proof -
  from submitted_root [OF assms] have "peer c = Inr 0" and cmd: "fst (parse_command (request c)) = Inr (Some cmd)"
    by blast+
  with parse_command_target [of "request c"] show ?thesis
    by (cases cmd) (auto simp: list_all_iff)
qed

definition demo_connection :: "cli_command \<Rightarrow> connection" where
  "demo_connection cmd =
     \<lparr>peer = Inr 0, read_timeout_error = None, write_timeout_error = None, request = cli_stream cmd\<rparr>"

theorem only_root_submits_witness: "peer (demo_connection CliList) = Inr 0"
proof -
  have "x_submitted (handle_connection (demo_connection CliList) (\<lambda>_. NoReply)) = Some CmdList"
    using parse_cli_plain(2) by (simp add: handle_connection_def verify_peercred_def demo_connection_def)
  from only_root_submits [OF this] show ?thesis by blast
qed

text \<open>
  C25: what the client writes for a module whose name is a word of at most 1016 bytes is
  parsed back by the daemon to the command the user gave, without waiting.
\<close>

theorem cli_round_trip:
  assumes "module_argument m"
  shows "parse_command (cli_stream (CliEnable m)) = (Inr (Some (CmdEnable m)), 0) \<and>
    parse_command (cli_stream (CliDisable m)) = (Inr (Some (CmdDisable m)), 0) \<and>
    parse_command (cli_stream CliStatus) = (Inr (Some CmdStatus), 0) \<and>
    parse_command (cli_stream CliList) = (Inr (Some CmdList), 0)"
  using parse_cli_enable [OF assms] parse_cli_disable [OF assms] parse_cli_plain by blast

theorem cli_round_trip_witness:
  "parse_command (cli_stream (CliEnable (str ''shield''))) = (Inr (Some (CmdEnable (str ''shield''))), 0)"
proof -
  have "module_argument (str ''shield'')"
    by (simp add: module_argument_def str_def is_scalar_def is_whitespace_def utf8_encode_def utf8_encode_char_def)
  from cli_round_trip [OF this] show ?thesis by blast
qed

text \<open>
  C36: a connection occupies the control plane for a bounded time and at most 1024 bytes of
  its request are kept: until it writes its answer it waits at most 1024 times a second for
  the peer, each arrival of which brings at least a byte, and then at most five seconds
  for the actor.
\<close>

theorem request_bounded:
  assumes "nonempty_data (request c)"
  shows "(case fst (read_to_end 1024 [] (request c)) of Inr buffer \<Rightarrow> length buffer \<le> 1024 | Inl _ \<Rightarrow> True) \<and>
    connection_time c queue \<le> 1024 * 1000 + 5000"
proof -
  have "length buffer \<le> 1024" if "fst (read_to_end 1024 [] (request c)) = Inr buffer" for buffer
    using read_to_end_bound [OF that] by simp
  moreover have "connection_time c queue \<le> 1024 * 1000 + 5000"
  proof -
    have "t + snd (await_reply q) \<le> 1029000" if "t \<le> 1024000" for t q
      using await_reply_time [of q] that by linarith
    then show ?thesis
      using parse_command_time [OF assms]
      by (auto simp: connection_time_def split: sum.split option.split prod.split)
  qed
  ultimately show ?thesis by (cases "fst (read_to_end 1024 [] (request c))") simp_all
qed

text \<open>A slow root peer whose command the actor never answers.\<close>

theorem request_bounded_witness:
  "connection_time ((demo_connection CliList)\<lparr>request := [Data 999 (utf8_encode (str ''LIST'')), Eof 999]\<rparr>)
     (\<lambda>_. Queued None) \<le> 1024 * 1000 + 5000"
proof -
  have "nonempty_data [Data 999 (utf8_encode (str ''LIST'')), Eof 999]"
    by (simp add: nonempty_data_def utf8_encode_ascii str_def)
  then show ?thesis
    using request_bounded [of "(demo_connection CliList)\<lparr>request := [Data 999 (utf8_encode (str ''LIST'')), Eof 999]\<rparr>"
      "\<lambda>_. Queued None"] by simp
qed

text \<open>
  The time limit is per wait, not per request: a peer that sends one byte every 999
  milliseconds and then closes is served to the end, after 1022.976 seconds in which the
  control plane answers nobody else.
\<close>

theorem dripping_peer_is_served:
  "read_to_end 1024 [] (replicate 1023 (Data 999 [b]) @ [Eof 999]) = (Inr (replicate 1023 b), 1022976)"
  using read_to_end_drip [of 1023 "[]" b] by simp

end
