(* ===== verification/BB_Ipc_Setup.thy ===== *)
theory BB_Ipc_Setup
  imports BB_Fs
begin

text \<open>
  \<open>core/src/ipc/setup.rs\<close> and \<open>start_ipc_server\<close> of \<open>core/src/ipc/mod.rs\<close>: the directory
  of the control socket with its auto-remediation, and the bind under a tightened umask.
\<close>

definition socket_dir :: rstr where
  "socket_dir = str ''/var/run/bouclier-bleu''"

definition socket_path :: rstr where
  "socket_path = str ''/var/run/bouclier-bleu/control.sock''"

definition insecure_ipc_dir :: "node \<Rightarrow> bool" where
  "insecure_ipc_dir meta \<longleftrightarrow> is_symlink meta \<or> n_uid meta \<noteq> 0 \<or> n_mode meta AND 0x1FF \<noteq> 0x1C0"

definition setup_secure_dir :: "os_state \<Rightarrow> effect list \<times> (rstr + unit) \<times> os_state" where
  "setup_secure_dir s =
    (case create_dir_all 0x1C0 socket_dir s of
       (Inl e, s1) \<Rightarrow>
         ([], Inl (str ''FATAL: Failed to construct secure IPC directory: '' @ show_io_error e), s1)
     | (Inr _, s1) \<Rightarrow>
       (case sys_lstat socket_dir s1 of
          (Inl _, s2) \<Rightarrow> ([], Inl (str ''FATAL: Failed to verify IPC directory metadata.''), s2)
        | (Inr meta, s2) \<Rightarrow>
            if insecure_ipc_dir meta then
              (let w = [Stderr (str ''Bouclier Bleu [WARNING]: IPC directory '' @ socket_dir
                     @ str '' has insecure permissions (Potential Pre-Staging Attack). Auto-remediating...'')];
                   linklike = is_symlink meta \<or> n_kind meta = Regular
               in case (if linklike then sys_unlink socket_dir s2 else remove_dir_all socket_dir s2) of
                    (Inl e, s3) \<Rightarrow>
                      (w, Inl ((if linklike then str ''FATAL: Failed to remove compromised symlink/file: ''
                                else str ''FATAL: Failed to wipe compromised IPC directory: '') @ show_io_error e),
                       s3)
                  | (Inr _, s3) \<Rightarrow>
                      (case create_dir_all 0x1C0 socket_dir s3 of
                         (Inl e, s4) \<Rightarrow>
                           (w, Inl (str ''FATAL: Failed to recreate secure IPC directory post-remediation: ''
                                  @ show_io_error e), s4)
                       | (Inr _, s4) \<Rightarrow>
                           (w @ [Stderr (str ''Bouclier Bleu [INFO]: IPC directory securely rebuilt.'')],
                            Inr (), s4)))
            else ([], Inr (), s2)))"

definition bind_socket :: "os_state \<Rightarrow> (rstr + unit) \<times> os_state" where
  "bind_socket s =
     (let (_, s1) = sys_unlink socket_path s;
          (old_umask, s2) = sys_umask 0x7F s1
      in case sys_bind_socket socket_path s2 of
           (Inl e, s3) \<Rightarrow> (Inl (str ''FATAL: Failed to bind to Unix socket: '' @ show_io_error e), s3)
         | (Inr _, s3) \<Rightarrow>
             (let (_, s4) = sys_umask old_umask s3
              in case sys_lstat socket_path s4 of
                   (Inr meta, s5) \<Rightarrow>
                     if n_uid meta \<noteq> 0 \<or> is_symlink meta
                     then (let (_, s6) = sys_unlink socket_path s5
                           in (Inl (str ''FATAL: IPC socket ownership validation failed (Possible TOCTOU).''), s6))
                     else (Inr (), s5)
                 | (Inl _, s5) \<Rightarrow> (Inr (), s5)))"

text \<open>
  The third component tells whether the listener thread was started; if not, the sending
  end of the command channel is dropped here.
\<close>

definition start_ipc_server :: "os_state \<Rightarrow> effect list \<times> bool \<times> os_state" where
  "start_ipc_server s =
     (case setup_secure_dir s of
        (e1, Inl e, s1) \<Rightarrow> (e1 @ [Stderr e], False, s1)
      | (e1, Inr _, s1) \<Rightarrow>
          (case bind_socket s1 of
             (Inl e, s2) \<Rightarrow> (e1 @ [Stderr e], False, s2)
           | (Inr _, s2) \<Rightarrow>
               (e1 @ [Stdout ([0xB7, 32] @ str ''IPC Control Plane listening securely on '' @ socket_path)],
                True, s2)))"

section \<open>The directory after a successful setup\<close>

lemma setup_secure_dir_ok:
  assumes calm: "undisturbed s" and root: "os_euid s = 0" and um: "os_umask s AND 0x1C0 = 0"
    and run: "setup_secure_dir s = (e, Inr u, t)"
  shows "\<exists>nd. os_files t socket_dir = Some nd \<and> n_kind nd = Directory \<and> n_uid nd = 0 \<and>
    n_mode nd AND 0x1FF = 0x1C0"
proof -
  have ne: "socket_dir \<noteq> []" by (simp add: socket_dir_def)
  from run obtain s1 nd s2 where c: "create_dir_all 0x1C0 socket_dir s = (Inr (), s1)"
    and st: "sys_lstat socket_dir s1 = (Inr nd, s2)"
    by (auto simp: setup_secure_dir_def split: prod.splits sum.splits)
  have calm1: "undisturbed s1" by (rule create_dir_all_calm [OF calm c])
  have conf2: "same_config s1 s2" using st by (simp add: sys_lstat_def syscall_config)
  have calm2: "undisturbed s2" using calm1 conf2 undisturbed_config by blast
  note at = sys_lstat_result [OF calm1 st]
  show ?thesis
  proof (cases "insecure_ipc_dir nd")
    case False
    then have t: "t = s2" using run c st by (simp add: setup_secure_dir_def)
    obtain q nd' where "resolve max_symlinks (os_files s1) socket_dir = Some (q, nd')" "n_kind nd' = Directory"
      using create_dir_all_is_dir [OF calm ne c] by blast
    then have "n_kind nd = Directory"
      using resolve_not_link [of max_symlinks "os_files s1" socket_dir q nd' nd] at False
      by (auto simp: insecure_ipc_dir_def)
    with False at t show ?thesis by (simp add: insecure_ipc_dir_def)
  next
    case True
    define wipe where "wipe = (if is_symlink nd \<or> n_kind nd = Regular then sys_unlink socket_dir s2
      else remove_dir_all socket_dir s2)"
    obtain x s3 where w: "wipe = (x, s3)" by fastforce
    from True run c st w obtain v u' where x: "x = Inr v"
      and mk: "create_dir_all 0x1C0 socket_dir s3 = (Inr u', t)"
      by (auto simp: setup_secure_dir_def Let_def simp flip: wipe_def split: sum.splits prod.splits)
    have gone: "os_files s3 socket_dir = None" and conf3: "same_config s2 s3"
      using w x sys_unlink_removes [OF calm2] remove_dir_all_removes [OF calm2]
      by (auto simp: wipe_def split: if_splits)
    have calm3: "undisturbed s3" using calm2 conf3 undisturbed_config by blast
    have conf: "os_euid s3 = 0" "os_umask s3 AND 0x1C0 = 0"
      using create_dir_all_config [OF c] conf2 conf3 root um by (simp_all add: same_config_def)
    show ?thesis
      using create_dir_all_fresh [OF calm3 ne gone mk] conf
      by (simp add: mode_0700_masked)
  qed
qed

lemma setup_secure_dir_config: "setup_secure_dir s = (e, r, t) \<Longrightarrow> same_config s t"
proof -
  note c = create_dir_all_config sys_mkdir_config
  have l: "sys_lstat p a = (x, b) \<Longrightarrow> same_config a b" "sys_unlink p a = (y, b) \<Longrightarrow> same_config a b"
    "remove_dir_all p a = (y, b) \<Longrightarrow> same_config a b" for p a b x y
    by (simp_all add: syscall_defs syscall_config)
  show "setup_secure_dir s = (e, r, t) \<Longrightarrow> same_config s t"
    by (auto simp: setup_secure_dir_def Let_def same_config_def dest!: create_dir_all_config l
        split: prod.splits sum.splits if_splits)
qed

section \<open>Paths on which the remediation is not reached\<close>

text \<open>
  A regular file at the path makes the first creation fail, so the branch that would
  remove it is not taken.
\<close>

lemma setup_regular_file:
  assumes calm: "undisturbed s" and quiet: "\<And>k. os_fault s k = None"
    and there: "os_files s socket_dir = Some nd" "n_kind nd = Regular"
  shows "fst (snd (setup_secure_dir s)) = Inl (str ''FATAL: Failed to construct secure IPC directory: File exists (os error 17)'')"
    and "os_files (snd (snd (setup_secure_dir s))) socket_dir = Some nd"
proof -
  define s1 where "s1 = s\<lparr>os_clock := Suc (os_clock s)\<rparr>"
  have mk: "sys_mkdir socket_dir 0x1C0 s = (Inl (OtherError (str ''File exists (os error 17)'')), s1)"
    using assms by (simp add: sys_mkdir_def syscall_def undisturbed_def s1_def)
  have res: "resolve max_symlinks (os_files s1) socket_dir = Some (socket_dir, nd)"
    using there by (simp add: s1_def max_symlinks_def numeral_eq_Suc)
  have "path_is_dir socket_dir s1 = (False, s1\<lparr>os_clock := Suc (os_clock s1)\<rparr>)"
    using calm quiet there res by (simp add: path_is_dir_def sys_stat_def syscall_def undisturbed_def s1_def)
  with mk have "create_dir_all 0x1C0 socket_dir s =
      (Inl (OtherError (str ''File exists (os error 17)'')), s1\<lparr>os_clock := Suc (os_clock s1)\<rparr>)"
    by (subst create_dir_all.simps) (simp add: socket_dir_def)
  then show "fst (snd (setup_secure_dir s)) = Inl (str ''FATAL: Failed to construct secure IPC directory: File exists (os error 17)'')"
    and "os_files (snd (snd (setup_secure_dir s))) socket_dir = Some nd"
    using there by (simp_all add: setup_secure_dir_def show_io_error_def s1_def str_def)
qed

section \<open>The socket\<close>

lemma bind_mode: "0x1FF AND NOT (0x7F :: u32) = 0x180"
  by simp

lemma bind_socket_ok:
  assumes calm: "undisturbed s" and root: "os_euid s = 0" and run: "bind_socket s = (Inr u, t)"
  shows "os_files t socket_path = Some \<lparr>n_kind = Socket, n_uid = 0, n_mode = 0x180\<rparr>"
    and "os_umask t = os_umask s AND 0x1FF"
proof -
  obtain r1 s1 where un: "sys_unlink socket_path s = (r1, s1)" by fastforce
  have conf1: "same_config s s1" using un by (simp add: sys_unlink_def syscall_config)
  define s2 where "s2 = s1\<lparr>os_umask := 0x7F AND 0x1FF\<rparr>"
  from run un obtain u3 s3 where b: "sys_bind_socket socket_path s2 = (Inr u3, s3)"
    by (auto simp: bind_socket_def sys_umask_def Let_def s2_def split: prod.splits sum.splits)
  have calm2: "undisturbed s2" using calm conf1 by (simp add: undisturbed_def same_config_def s2_def)
  have euid2: "os_euid s2 = 0" and um2: "os_umask s2 = 0x7F"
    using root conf1 by (simp_all add: same_config_def s2_def)
  have sock: "os_files s3 socket_path = Some \<lparr>n_kind = Socket, n_uid = 0, n_mode = 0x180\<rparr>"
    using b calm2 euid2 um2 by (auto simp: sys_bind_socket_def syscall_def undisturbed_def Let_def
        split: option.splits if_splits)
  have conf3: "same_config s2 s3" using b by (simp add: sys_bind_socket_def syscall_config)
  define s4 where "s4 = s3\<lparr>os_umask := os_umask s1 AND 0x1FF\<rparr>"
  obtain r5 s5 where ls: "sys_lstat socket_path s4 = (r5, s5)" by fastforce
  have calm4: "undisturbed s4" using calm2 conf3 by (simp add: undisturbed_def same_config_def s4_def)
  have conf5: "same_config s4 s5" using ls by (simp add: sys_lstat_def syscall_config)
  have files5: "os_files s5 = os_files s4"
    using ls calm4 by (auto simp: sys_lstat_def syscall_def undisturbed_def Let_def split: option.splits)
  have good: "\<not> (n_uid nd \<noteq> 0 \<or> is_symlink nd)" if "r5 = Inr nd" for nd
    using sys_lstat_result [OF calm4 ls [unfolded that]] sock by (auto simp: s4_def is_symlink_def)
  have "t = s5"
    using run un b ls good
    by (cases r5) (auto simp: bind_socket_def sys_umask_def Let_def s2_def s4_def)
  with sock files5 conf5 conf1 show "os_files t socket_path = Some \<lparr>n_kind = Socket, n_uid = 0, n_mode = 0x180\<rparr>"
    and "os_umask t = os_umask s AND 0x1FF"
    by (simp_all add: s4_def same_config_def)
qed

text \<open>When the bind fails the early return skips the call that restores the umask.\<close>

lemma bind_failure_umask:
  assumes "bind_socket s = (Inl e, t)" and "take 15 e = str ''FATAL: Failed t''"
  shows "os_umask t = 0x7F"
proof -
  obtain r1 s1 where un: "sys_unlink socket_path s = (r1, s1)" by fastforce
  define s2 where "s2 = s1\<lparr>os_umask := 0x7F AND 0x1FF\<rparr>"
  obtain r3 s3 where b: "sys_bind_socket socket_path s2 = (r3, s3)" by fastforce
  have conf3: "same_config s2 s3" using b by (simp add: sys_bind_socket_def syscall_config)
  have "\<exists>e. r3 = Inl e"
    using assms un b
    by (auto simp: bind_socket_def sys_umask_def Let_def s2_def str_def split: prod.splits sum.splits if_splits)
  with assms(1) un b have "t = s3"
    by (auto simp: bind_socket_def sys_umask_def Let_def s2_def)
  with conf3 show ?thesis by (simp add: same_config_def s2_def)
qed

section \<open>Properties\<close>

text \<open>
  C34: after a successful setup, with nobody interfering, the socket's directory is a real
  directory of root with mode 0700, and after a successful bind the socket itself is
  root's with mode 0600 and the umask is what it was.
\<close>

theorem control_socket_private:
  assumes "undisturbed s" and "os_euid s = 0" and "os_umask s AND 0x1C0 = 0"
    and "setup_secure_dir s = (e, Inr u, s1)" and "bind_socket s1 = (Inr v, t)"
  shows "(\<exists>nd. os_files s1 socket_dir = Some nd \<and> n_kind nd = Directory \<and> n_uid nd = 0 \<and>
      n_mode nd AND 0x1FF = 0x1C0) \<and>
    os_files t socket_path = Some \<lparr>n_kind = Socket, n_uid = 0, n_mode = 0x180\<rparr> \<and>
    os_umask t = os_umask s AND 0x1FF"
proof -
  have conf: "same_config s s1" by (rule setup_secure_dir_config [OF assms(4)])
  have calm: "undisturbed s1" using undisturbed_config [OF conf] assms(1) by simp
  have "os_euid s1 = 0" "os_umask s1 = os_umask s"
    using conf assms(2) by (simp_all add: same_config_def)
  with bind_socket_ok [OF calm _ assms(5)] have
    "os_files t socket_path = Some \<lparr>n_kind = Socket, n_uid = 0, n_mode = 0x180\<rparr> \<and>
     os_umask t = os_umask s AND 0x1FF" by metis
  with setup_secure_dir_ok [OF assms(1-4)] show ?thesis by blast
qed

theorem control_socket_private_witness:
  "\<exists>e s1 t nd. setup_secure_dir quiet_os = (e, Inr (), s1) \<and> bind_socket s1 = (Inr (), t) \<and>
    os_files s1 socket_dir = Some nd \<and> n_kind nd = Directory \<and>
    os_files t socket_path = Some \<lparr>n_kind = Socket, n_uid = 0, n_mode = 0x180\<rparr>"
proof -
  have ok: "fst (snd (setup_secure_dir quiet_os)) = Inr ()"
    "fst (bind_socket (snd (snd (setup_secure_dir quiet_os)))) = Inr ()"
    by code_simp+
  obtain e r s1 where one: "setup_secure_dir quiet_os = (e, r, s1)" using prod_cases3 by blast
  obtain v t where two: "bind_socket s1 = (v, t)" by fastforce
  from ok one two have run: "setup_secure_dir quiet_os = (e, Inr (), s1)" "bind_socket s1 = (Inr (), t)"
    by simp_all
  have "os_umask quiet_os AND 0x1C0 = 0" by simp
  from control_socket_private [OF quiet_os_simps(1,2) this run] run show ?thesis by blast
qed

text \<open>
  A regular file at the directory's path is not remediated: the first creation fails,
  setup returns the error and the file stays, so the branch that would remove a file is
  never taken for one.
\<close>

theorem staged_file_blocks_setup:
  assumes "undisturbed s" and "os_fault s = (\<lambda>_. None)"
    and "os_files s socket_dir = Some nd" "n_kind nd = Regular"
  shows "fst (snd (setup_secure_dir s)) =
      Inl (str ''FATAL: Failed to construct secure IPC directory: File exists (os error 17)'') \<and>
    os_files (snd (snd (setup_secure_dir s))) socket_dir = Some nd"
proof -
  have "os_fault s k = None" for k using assms(2) by simp
  from setup_regular_file [OF assms(1) this assms(3,4)] show ?thesis by blast
qed

definition staged_file_os :: os_state where
  "staged_file_os = quiet_os\<lparr>os_files := (os_files quiet_os)(socket_dir \<mapsto>
     \<lparr>n_kind = Regular, n_uid = 0, n_mode = 0x1A4\<rparr>)\<rparr>"

theorem staged_file_blocks_setup_witness:
  "fst (snd (setup_secure_dir staged_file_os)) =
     Inl (str ''FATAL: Failed to construct secure IPC directory: File exists (os error 17)'')"
proof -
  have "undisturbed staged_file_os" "os_fault staged_file_os = (\<lambda>_. None)"
    by (simp_all add: staged_file_os_def undisturbed_def fun_eq_iff)
  from staged_file_blocks_setup [OF this] show ?thesis by (simp add: staged_file_os_def)
qed

text \<open>
  When the bind itself fails the process keeps the tightened umask: the early return
  skips the call that restores it.
\<close>

theorem failed_bind_keeps_umask:
  assumes "bind_socket s = (Inl e, t)" and "take 15 e = str ''FATAL: Failed t''"
  shows "os_umask t = 0x7F"
  using assms by (rule bind_failure_umask)

theorem failed_bind_keeps_umask_witness:
  "os_umask quiet_os = 0x12 \<and> os_umask (snd (bind_socket quiet_os)) = 0x7F"
proof -
  have "fst (bind_socket quiet_os) = Inl (str ''FATAL: Failed to bind to Unix socket: No such file or directory (os error 2)'')"
    by code_simp
  then have "bind_socket quiet_os =
      (Inl (str ''FATAL: Failed to bind to Unix socket: No such file or directory (os error 2)''), snd (bind_socket quiet_os))"
    by (metis prod.collapse)
  from failed_bind_keeps_umask [OF this] show ?thesis by (simp add: str_def)
qed

end
