(* ===== verification/BB_Config.thy ===== *)
theory BB_Config
  imports BB_Toml
begin

text \<open>
  \<open>core/src/config.rs\<close>: the search for a configuration file, the ownership check on the
  open descriptor, and the deserialisation of \<open>DaemonConfig\<close>. The text parser and the
  error texts are parameters (the \<open>toml\<close> crate); what \<open>#[derive(Deserialize)]\<close> does with
  a parsed document is defined here.
\<close>

text \<open>
  A path as \<open>load\<close> finds it: whether it exists, opens, the owner its descriptor reports,
  and the contents read or the error.
\<close>

record conf_file =
  cf_exists :: bool
  cf_opens :: bool
  cf_uid :: "nat option"
  cf_contents :: "rstr + rstr"

record config_env =
  ce_debug :: bool
  ce_file :: "rstr \<Rightarrow> conf_file"
  ce_parse :: "rstr \<Rightarrow> rstr + toml"
  ce_mismatch :: "toml \<Rightarrow> rstr"

type_synonym config_modules = "rstr \<Rightarrow> bool option"

text \<open>
  \<open>modules: HashMap<String, bool>\<close> with \<open>serde(default)\<close>; keys the struct does not name are
  ignored, a value of another type fails the whole document.
\<close>

definition as_bool :: "toml \<Rightarrow> bool option" where
  "as_bool v = (case v of TBoolean b \<Rightarrow> Some b | _ \<Rightarrow> None)"

definition deserialize_modules :: "toml \<Rightarrow> config_modules option" where
  "deserialize_modules v =
     (case v of
        TTable kvs \<Rightarrow>
          (if list_all (\<lambda>(k, x). as_bool x \<noteq> None) kvs
           then Some (\<lambda>k. Option.bind (map_of kvs k) as_bool) else None)
      | _ \<Rightarrow> None)"

definition deserialize_config :: "toml \<Rightarrow> config_modules option" where
  "deserialize_config v =
     (case v of
        TTable kvs \<Rightarrow>
          (case map_of kvs (str ''modules'') of
             None \<Rightarrow> Some (\<lambda>_. None)
           | Some m \<Rightarrow> deserialize_modules m)
      | _ \<Rightarrow> None)"

definition from_str :: "config_env \<Rightarrow> rstr \<Rightarrow> rstr + config_modules" where
  "from_str ce contents =
     (case ce_parse ce contents of
        Inl e \<Rightarrow> Inl e
      | Inr v \<Rightarrow> (case deserialize_config v of Some c \<Rightarrow> Inr c | None \<Rightarrow> Inl (ce_mismatch ce v)))"

definition default_config :: config_modules where
  "default_config = (\<lambda>_. None)"

definition config_bullet :: rstr where
  "config_bullet = [0xB7, 32]"

definition search_paths :: "config_env \<Rightarrow> rstr list" where
  "search_paths ce =
     (if ce_debug ce then [str ''/etc/bouclier-bleu/config.toml'', str ''config.toml'']
      else [str ''/etc/bouclier-bleu/config.toml''])"

fun load_from :: "config_env \<Rightarrow> rstr list \<Rightarrow> config_modules io" where
  "load_from ce [] =
     ([Stdout (config_bullet @ str ''[Config] No configuration file found. Operating with implicit defaults.'')],
      Inr default_config)"
| "load_from ce (path # paths) =
     (let f = ce_file ce path
      in if \<not> cf_exists f then load_from ce paths
         else if \<not> cf_opens f then load_from ce paths
         else (case cf_uid f of
                 None \<Rightarrow> load_from ce paths
               | Some uid \<Rightarrow>
                   if uid \<noteq> 0
                   then ([Stderr (str ''FATAL: Configuration file '' @ path
                            @ str '' is not owned by root! Aborting to prevent privilege escalation.'')],
                         Inl Panic)
                   else (case cf_contents f of
                           Inl e \<Rightarrow>
                             bind_io (tell [Stderr (config_bullet @ str ''[Warning] Failed to read '' @ path
                                       @ str '': '' @ e)]) (\<lambda>_. load_from ce paths)
                         | Inr contents \<Rightarrow>
                             (case from_str ce contents of
                                Inr config \<Rightarrow>
                                  ([Stdout (config_bullet @ str ''[Config] Loaded configuration from '' @ path)],
                                   Inr config)
                              | Inl e \<Rightarrow>
                                  ([Stderr (config_bullet @ str ''[Error] Failed to parse TOML in '' @ path
                                      @ str '': '' @ e
                                      @ str ''. Falling back to default configuration to avoid fail-open state.'')],
                                   Inr default_config)))))"

definition load_config :: "config_env \<Rightarrow> config_modules io" where
  "load_config ce = load_from ce (search_paths ce)"

section \<open>What a document enables\<close>

lemma deserialize_config_Some:
  "deserialize_config v = Some c \<Longrightarrow> c k = Some b \<Longrightarrow>
   \<exists>kvs ms. v = TTable kvs \<and> map_of kvs (str ''modules'') = Some (TTable ms) \<and> map_of ms k = Some (TBoolean b)"
  by (auto simp: deserialize_config_def deserialize_modules_def as_bool_def
      split: toml.splits option.splits if_splits bind_splits)

text \<open>One value that is not a boolean in the modules table loses the whole table.\<close>

lemma deserialize_config_non_bool:
  assumes "map_of kvs (str ''modules'') = Some (TTable ms)" and "map_of ms k = Some x" and "as_bool x = None"
  shows "deserialize_config (TTable kvs) = None"
proof -
  have "(k, x) \<in> set ms" using assms(2) by (rule map_of_SomeD)
  then have "\<not> list_all (\<lambda>(k, x). as_bool x \<noteq> None) ms"
    using assms(3) by (force simp: list_all_iff)
  with assms(1) show ?thesis by (simp add: deserialize_config_def deserialize_modules_def)
qed

text \<open>Whatever is enabled comes from a file that root owns.\<close>

lemma load_from_root_owned:
  assumes "snd (load_from ce paths) = Inr config" and "config k = Some b"
  shows "\<exists>path \<in> set paths. \<exists>contents v. cf_exists (ce_file ce path) \<and> cf_uid (ce_file ce path) = Some 0 \<and>
    cf_contents (ce_file ce path) = Inr contents \<and> ce_parse ce contents = Inr v \<and> deserialize_config v = Some config"
  using assms
proof (induction paths)
  case Nil
  then show ?case by (auto simp: default_config_def)
next
  case (Cons path paths)
  have "config \<noteq> default_config" using Cons.prems(2) by (auto simp: default_config_def)
  with Cons show ?case
    by (auto simp: Let_def from_str_def tell_def split: if_splits option.splits sum.splits)
qed

text \<open>The daemon refuses to start on a readable file of another owner.\<close>

lemma load_from_foreign:
  "cf_exists (ce_file ce path) \<Longrightarrow> cf_opens (ce_file ce path) \<Longrightarrow>
   cf_uid (ce_file ce path) = Some uid \<Longrightarrow> uid \<noteq> 0 \<Longrightarrow> snd (load_from ce (path # paths)) = Inl Panic"
  by (simp add: Let_def)

section \<open>Properties\<close>

text \<open>
  C35: a module is enabled or disabled by the configuration only if a file on the search
  path that root owns says so in so many words: the loaded value is the boolean its
  modules table gives.
\<close>

theorem enabled_by_root_file:
  assumes "snd (load_config ce) = Inr config" and "config k = Some b"
  shows "\<exists>path \<in> set (search_paths ce). \<exists>contents kvs ms.
    cf_uid (ce_file ce path) = Some 0 \<and> cf_contents (ce_file ce path) = Inr contents \<and>
    ce_parse ce contents = Inr (TTable kvs) \<and> map_of kvs (str ''modules'') = Some (TTable ms) \<and>
    map_of ms k = Some (TBoolean b)"
proof -
  obtain path contents v where path: "path \<in> set (search_paths ce)" and
    owned: "cf_uid (ce_file ce path) = Some 0" "cf_contents (ce_file ce path) = Inr contents"
      "ce_parse ce contents = Inr v" and v: "deserialize_config v = Some config"
    using load_from_root_owned [of ce "search_paths ce" config k b] assms by (auto simp: load_config_def)
  from deserialize_config_Some [OF v assms(2)] path owned show ?thesis by blast
qed

definition demo_config_env :: "(rstr \<times> toml) list \<Rightarrow> config_env" where
  "demo_config_env ms =
     \<lparr>ce_debug = False,
      ce_file = (\<lambda>_. \<lparr>cf_exists = True, cf_opens = True, cf_uid = Some 0, cf_contents = Inr []\<rparr>),
      ce_parse = (\<lambda>_. Inr (TTable [(str ''modules'', TTable ms)])),
      ce_mismatch = (\<lambda>_. str ''invalid type: integer, expected a boolean'')\<rparr>"

theorem enabled_by_root_file_witness:
  "\<exists>path \<in> set (search_paths (demo_config_env [(str ''shield'', TBoolean True)])).
     cf_uid (ce_file (demo_config_env [(str ''shield'', TBoolean True)]) path) = Some 0"
proof -
  have "snd (load_config (demo_config_env [(str ''shield'', TBoolean True)])) =
      Inr (\<lambda>k. Option.bind (map_of [(str ''shield'', TBoolean True)] k) as_bool)"
    by (simp add: load_config_def search_paths_def demo_config_env_def from_str_def deserialize_config_def
        deserialize_modules_def as_bool_def all_bool_eq ex_bool_eq)
  from enabled_by_root_file [OF this, of "str ''shield''" True] show ?thesis
    by (auto simp: as_bool_def)
qed

end
