(* ===== verification/BB_Daemon.thy ===== *)
theory BB_Daemon
  imports BB_Ipc BB_Ipc_Setup BB_Config
begin

text \<open>
  \<open>core/src/main.rs\<close>: the start of the daemon, from the privilege checks to the actor's
  loop. The outcome is an exit code, an error returned from \<open>main\<close>, a panic, or the
  system (\<open>BB_Actor\<close>) in which the loop starts.
\<close>

record 'm main_env =
  me_endian :: endian
  me_euid :: nat
  me_lsm :: "rstr + rstr"
  me_config :: config_env
  me_host :: host
  me_api :: "'m bpf_api"
  me_loader :: "'m loader"
  me_ringbuf :: "'m ringbuf_api"
  me_os :: os_state

datatype 'm outcome =
    Exited nat
  | Returned rstr
  | Panicked
  | Serving "(tracked, 'm) system" "rstr list option"

definition initial_globals :: "os_state \<Rightarrow> tracked" where
  "initial_globals os =
     \<lparr>g_os = os, g_sink = None, g_sink_poisoned = False, g_tracker = (\<lambda>_. None),
      g_tracker_poisoned = False\<rparr>"

definition check_lsm :: "rstr + rstr \<Rightarrow> effect list \<times> bool" where
  "check_lsm lsm =
     (case lsm of
        Inr lsms \<Rightarrow>
          (if \<not> contains_str (str ''bpf'') lsms
           then ([Stderr (str ''Bouclier Bleu [Fatal]: eBPF LSM is not active on this host.''),
                  Stderr (str ''      Ensure your kernel supports CONFIG_BPF_LSM=y and append:''),
                  Stderr (str ''      '' @ quoted (str ''lsm=landlock,lockdown,yama,apparmor,bpf'')
                    @ str '' to your GRUB boot parameters.'')], False)
           else ([], True))
      | Inl e \<Rightarrow>
          ([Stderr (str ''Bouclier Bleu [Warning]: Could not verify active Security Modules ('' @ e @ str '').'')],
           True))"

definition serve :: "'m main_env \<Rightarrow> config_modules \<Rightarrow> effect list \<times> 'm outcome" where
  "serve me cfg =
     (case load_modules (me_endian me) (me_host me) (me_api me) (me_loader me) cfg build_registry [] of
        (e1, eng, reg) \<Rightarrow>
          (case build_pipeline (me_ringbuf me) (me_loader me) eng of
             (e2, Inl err) \<Rightarrow> (e1 @ e2, Returned err)
           | (e2, Inr ring_buffer) \<Rightarrow>
               (case start_ipc_server (me_os me) of
                  (e3, listening, os) \<Rightarrow>
                    (e1 @ e2 @ e3
                       @ [Stdout (bullet @ str ''[Success] Engine is running securely.''),
                          Stdout (str ''Press Ctrl+C to exit.'')],
                     Serving
                       \<lparr>s_daemon = \<lparr>d_engine = eng, d_registry = reg\<rparr>,
                        s_globals = initial_globals os, s_queue = [], s_senders = listening,
                        s_replies = [], s_running = True\<rparr>
                       ring_buffer))))"

definition main :: "'m main_env \<Rightarrow> effect list \<times> 'm outcome" where
  "main me =
     (let start = [Stdout (str ''* Starting Bouclier Bleu Core Engine...'')]
      in if me_euid me \<noteq> 0
         then (start @ [Stderr (str ''Bouclier Bleu [Fatal]: The core daemon must be executed as root (UID 0).'')],
               Exited 1)
         else (case check_lsm (me_lsm me) of
                 (e1, False) \<Rightarrow> (start @ e1, Exited 1)
               | (e1, True) \<Rightarrow>
                   (case load_config (me_config me) of
                      (e2, Inl _) \<Rightarrow> (start @ e1 @ e2, Panicked)
                    | (e2, Inr cfg) \<Rightarrow>
                        (case serve me cfg of (e3, out) \<Rightarrow> (start @ e1 @ e2 @ e3, out)))))"

section \<open>What a running daemon has been through\<close>

lemma load_config_panic: "snd (load_config ce) = Inl e \<Longrightarrow> e = Panic"
proof -
  have "snd (load_from ce ps) = Inl e \<Longrightarrow> e = Panic" for ps
  proof (induction ps)
    case (Cons p ps)
    then show ?case
      by (auto simp: Let_def tell_def split: if_splits option.splits sum.splits)
  qed simp
  then show "snd (load_config ce) = Inl e \<Longrightarrow> e = Panic" by (simp add: load_config_def)
qed

lemma main_serving:
  assumes "snd (main me) = Serving s ring"
  obtains cfg e1 eng reg where "me_euid me = 0" and "snd (load_config (me_config me)) = Inr cfg"
    and "load_modules (me_endian me) (me_host me) (me_api me) (me_loader me) cfg build_registry [] = (e1, eng, reg)"
    and "s_daemon s = \<lparr>d_engine = eng, d_registry = reg\<rparr>" and "s_queue s = []"
    and "s_senders s = fst (snd (start_ipc_server (me_os me)))" and "s_running s"
    and "s_globals s = initial_globals (snd (snd (start_ipc_server (me_os me))))" and "s_replies s = []"
proof -
  from assms obtain e2 cfg where root: "me_euid me = 0" and cfg: "load_config (me_config me) = (e2, Inr cfg)"
    and serve: "snd (serve me cfg) = Serving s ring"
    by (auto simp: main_def Let_def split: if_splits prod.splits bool.splits sum.splits)
  obtain e3 listening os where ipc: "start_ipc_server (me_os me) = (e3, listening, os)"
    using prod_cases3 by blast
  from serve ipc obtain e1 eng reg where
    run: "load_modules (me_endian me) (me_host me) (me_api me) (me_loader me) cfg build_registry [] = (e1, eng, reg)"
    and s: "s = \<lparr>s_daemon = \<lparr>d_engine = eng, d_registry = reg\<rparr>, s_globals = initial_globals os,
       s_queue = [], s_senders = listening, s_replies = [], s_running = True\<rparr>"
    by (auto simp: serve_def split: prod.splits sum.splits)
  show thesis
    by (rule that [OF root _ run]) (simp_all add: cfg s ipc)
qed

text \<open>The system starts in its invariant.\<close>

lemma main_system_inv:
  assumes "bpf_api_ok (me_api me)" "loader_ok (me_loader me)"
    "loaded_state_ok (me_endian me) (me_api me) (me_loader me)"
    and "snd (main me) = Serving s ring"
  shows "system_inv (me_endian me) (me_api me) (me_loader me) s"
proof -
  obtain cfg e1 eng reg where
    run: "load_modules (me_endian me) (me_host me) (me_api me) (me_loader me) cfg build_registry [] = (e1, eng, reg)"
    and s: "s_daemon s = \<lparr>d_engine = eng, d_registry = reg\<rparr>" "s_queue s = []"
    by (rule main_serving [OF assms(4)])
  note res = load_modules_result [OF assms(1-3) build_registry_keeps_state run]
  from res(1) have "coherent (me_endian me) (me_api me) reg eng" by (rule as_configured_coherent)
  with res s show ?thesis by (simp add: system_inv_def daemon_ok_def channel_bound_def)
qed

text \<open>Without its control plane the daemon leaves the loop at the first iteration.\<close>

lemma no_listener_stops:
  assumes "snd (main me) = Serving s ring" and "\<not> fst (snd (start_ipc_server (me_os me)))"
  shows "\<not> s_running (snd (run_once en api ld rs s))"
proof (rule main_serving [OF assms(1)])
  assume "s_queue s = []" "s_senders s = fst (snd (start_ipc_server (me_os me)))"
  with assms(2) show ?thesis by (simp add: run_once_def)
qed

end
