(* ===== verification/BB_Spec.thy ===== *)
theory BB_Spec
  imports BB_Daemon
begin

text \<open>
  The contract of the control plane, and the proof that the actor refines it. Abstractly
  the daemon is a map from the loaded modules to whether they are enforced; a command reads
  or changes one entry. The locale \<open>simulation\<close> turns a simulation of single commands into
  one of command sequences; it is interpreted by \<open>handle_command\<close>, and the steps of the
  actor's loop and the boot are then shown to follow the contract.
\<close>

section \<open>The contract\<close>

text \<open>A loaded module is enforced or not; a module that is not loaded has no entry.\<close>

type_synonym edr = "rstr \<Rightarrow> bool option"

definition listing :: "(rstr \<times> rstr) list \<Rightarrow> edr \<Rightarrow> rstr" where
  "listing names s =
     str ''MODULE REGISTRY:'' @ newline @
     concat (map (\<lambda>(slug, name). str '' '' @ (if s slug = Some True then str ''[ACTIVE]  '' else str ''[INACTIVE]'')
       @ str '' '' @ slug @ str '' ('' @ name @ str '')'' @ newline) names)"

definition done_text :: "rstr \<Rightarrow> bool \<Rightarrow> rstr" where
  "done_text m b =
     str ''SUCCESS: Defense module '' @ quoted m @ str '' '' @ (if b then str ''ENABLED'' else str ''DISABLED'')
       @ str '' via state synchronization'' @ newline"

definition not_loaded_text :: "rstr \<Rightarrow> bool \<Rightarrow> rstr" where
  "not_loaded_text m b =
     (if b
      then str ''ERROR: Module '' @ quoted m
             @ str '' is not loaded in kernel memory. Check daemon boot logs or restart the service to load new modules.''
             @ newline
      else str ''ERROR: Module '' @ quoted m @ str '' is not currently active'' @ newline)"

definition write_failed_text :: "rstr \<Rightarrow> rstr" where
  "write_failed_text m =
     str ''ERROR: Failed to update kernel state for '' @ quoted m @ str '': ''
       @ str ''Failed to synchronize eBPF state_map for '' @ m @ newline"

text \<open>
  Whether the kernel can refuse to overwrite the entry of a state map at all; it cannot
  under the laws of its maps.
\<close>

definition flag_refusable :: "endian \<Rightarrow> 'm bpf_api \<Rightarrow> bool" where
  "flag_refusable en api \<longleftrightarrow>
     (\<exists>m b e. state_key en \<in> map_keys api m \<and> map_update api (state_key en) (state_val en b) m = Inl e)"

lemma room_not_refusable: "bpf_room_ok api n \<Longrightarrow> \<not> flag_refusable en api"
  unfolding flag_refusable_def bpf_room_ok_def by (metis sum.simps(4))

text \<open>
  A switch of a loaded module takes effect, unless the kernel can refuse the write; of any
  other module it is refused. A refusal changes nothing.
\<close>

inductive edr_step ::
    "(rstr \<times> rstr) list \<Rightarrow> bool \<Rightarrow> edr \<Rightarrow> daemon_cmd \<Rightarrow> rstr \<Rightarrow> edr \<Rightarrow> bool" for names refusable where
  spec_status: "edr_step names refusable s CmdStatus status_response s"
| spec_list: "edr_step names refusable s CmdList (listing names s) s"
| spec_enable: "s m = Some b \<Longrightarrow> edr_step names refusable s (CmdEnable m) (done_text m True) (s(m \<mapsto> True))"
| spec_disable: "s m = Some b \<Longrightarrow> edr_step names refusable s (CmdDisable m) (done_text m False) (s(m \<mapsto> False))"
| spec_enable_unloaded: "s m = None \<Longrightarrow> edr_step names refusable s (CmdEnable m) (not_loaded_text m True) s"
| spec_disable_unloaded: "s m = None \<Longrightarrow> edr_step names refusable s (CmdDisable m) (not_loaded_text m False) s"
| spec_enable_refused:
    "s m = Some b \<Longrightarrow> refusable \<Longrightarrow> edr_step names refusable s (CmdEnable m) (write_failed_text m) s"
| spec_disable_refused:
    "s m = Some b \<Longrightarrow> refusable \<Longrightarrow> edr_step names refusable s (CmdDisable m) (write_failed_text m) s"

inductive_cases edr_step_enableE: "edr_step names refusable s (CmdEnable m) answer s'"
inductive_cases edr_step_disableE: "edr_step names refusable s (CmdDisable m) answer s'"
inductive_simps edr_step_list [simp]: "edr_step names refusable s CmdList answer s'"
inductive_simps edr_step_status [simp]: "edr_step names refusable s CmdStatus answer s'"

section \<open>Simulations\<close>

inductive spec_run :: "('a \<Rightarrow> 'c \<Rightarrow> 'r \<Rightarrow> 'a \<Rightarrow> bool) \<Rightarrow> 'a \<Rightarrow> 'c list \<Rightarrow> 'r list \<Rightarrow> 'a \<Rightarrow> bool" for spec where
  run_none: "spec_run spec a [] [] a"
| run_snoc: "spec_run spec a cs rs a' \<Longrightarrow> spec a' c r a'' \<Longrightarrow> spec_run spec a (cs @ [c]) (rs @ [r]) a''"

lemma spec_run_append:
  "spec_run spec b ds qs c \<Longrightarrow> spec_run spec a cs rs b \<Longrightarrow> spec_run spec a (cs @ ds) (rs @ qs) c"
proof (induction rule: spec_run.induct)
  case run_none
  then show ?case by simp
next
  case run_snoc
  then show ?case by (metis append_assoc spec_run.run_snoc)
qed

lemma spec_run_one: "spec a c r a' \<Longrightarrow> spec_run spec a [c] [r] a'"
  using spec_run.run_snoc [OF spec_run.run_none, of spec a c r a'] by simp

fun exec_all :: "('c \<Rightarrow> 's \<Rightarrow> 'r \<times> 's) \<Rightarrow> 'c list \<Rightarrow> 's \<Rightarrow> 'r list \<times> 's" where
  "exec_all exec [] s = ([], s)"
| "exec_all exec (c # cs) s =
     (case exec c s of (r, s1) \<Rightarrow> (case exec_all exec cs s1 of (rs, s2) \<Rightarrow> (r # rs, s2)))"

locale simulation =
  fixes exec :: "'c \<Rightarrow> 's \<Rightarrow> 'r \<times> 's"
    and inv :: "'s \<Rightarrow> bool"
    and abs :: "'s \<Rightarrow> 'a"
    and spec :: "'a \<Rightarrow> 'c \<Rightarrow> 'r \<Rightarrow> 'a \<Rightarrow> bool"
  assumes exec_inv: "inv s \<Longrightarrow> inv (snd (exec c s))"
    and exec_spec: "inv s \<Longrightarrow> spec (abs s) c (fst (exec c s)) (abs (snd (exec c s)))"
begin

lemma exec_all_inv: "inv s \<Longrightarrow> inv (snd (exec_all exec cs s))"
proof (induction cs arbitrary: s)
  case (Cons c cs)
  then show ?case using exec_inv [of s c] by (simp add: case_prod_beta)
qed simp

lemma exec_all_spec:
  "inv s \<Longrightarrow> spec_run spec (abs s) cs (fst (exec_all exec cs s)) (abs (snd (exec_all exec cs s)))"
proof (induction cs arbitrary: s)
  case Nil
  then show ?case by (simp add: run_none)
next
  case (Cons c cs)
  have "spec_run spec (abs s) [c] [fst (exec c s)] (abs (snd (exec c s)))"
    using exec_spec [OF Cons.prems] by (rule spec_run_one)
  from spec_run_append [OF Cons.IH this] exec_inv [OF Cons.prems] show ?case
    by (simp add: case_prod_beta)
qed

end

section \<open>The daemon's state as the contract sees it\<close>

definition edr_of :: "('g, 'm) daemon \<Rightarrow> edr" where
  "edr_of d n =
     (case (get_skeleton (d_engine d) n, find_module n (d_registry d)) of
        (Some _, Some m) \<Rightarrow> Some (status m)
      | _ \<Rightarrow> None)"

definition module_names :: "('g, 'm, 'p) registry \<Rightarrow> (rstr \<times> rstr) list" where
  "module_names reg = map (\<lambda>m. (sm_slug m, sm_name m)) reg"

text \<open>What is loaded is registered; what is active is loaded.\<close>

definition matched :: "('g, 'm) daemon \<Rightarrow> bool" where
  "matched d \<longleftrightarrow>
     (\<forall>n. get_skeleton (d_engine d) n \<noteq> None \<longrightarrow> find_module n (d_registry d) \<noteq> None) \<and>
     (\<forall>n m. find_module n (d_registry d) = Some m \<longrightarrow> status m \<longrightarrow> get_skeleton (d_engine d) n \<noteq> None)"

definition flags_held :: "endian \<Rightarrow> 'm bpf_api \<Rightarrow> 'm engine \<Rightarrow> bool" where
  "flags_held en api eng \<longleftrightarrow> (\<forall>(n, skel) \<in> set eng. \<exists>b. flag_written en api b skel)"

definition daemon_inv ::
    "endian \<Rightarrow> 'm bpf_api \<Rightarrow> 'm loader \<Rightarrow> (rstr \<times> rstr) list \<Rightarrow> ('g, 'm) daemon \<Rightarrow> bool" where
  "daemon_inv en api ld names d \<longleftrightarrow>
     bpf_api_ok api \<and> engine_ok ld (d_engine d) \<and> flags_held en api (d_engine d) \<and> matched d \<and>
     module_names (d_registry d) = names \<and> distinct (map fst names)"

lemma module_names_toggle [simp]:
  "module_names (snd (toggle_module_in target b reg)) = module_names reg"
  by (induction reg) (auto simp: module_names_def toggle_def case_prod_beta)

lemma module_names_same_code: "same_code reg reg' \<Longrightarrow> module_names reg = module_names reg'"
proof -
  assume "same_code reg reg'"
  then have "map (\<lambda>m. (sm_slug m, sm_name m)) (map flagless reg) = map (\<lambda>m. (sm_slug m, sm_name m)) (map flagless reg')"
    by (simp only: same_code_def)
  then show ?thesis by (simp add: module_names_def comp_def)
qed

lemma edr_of_loaded: "matched d \<Longrightarrow> edr_of d n = None \<longleftrightarrow> get_skeleton (d_engine d) n = None"
  by (auto simp: edr_of_def matched_def split: option.split)

lemma listing_matches:
  assumes "matched d" and "distinct (map fst (module_names (d_registry d)))"
  shows "list_response (d_registry d) = listing (module_names (d_registry d)) (edr_of d)"
proof -
  have "status m \<longleftrightarrow> edr_of d (sm_slug m) = Some True" if "m \<in> set (d_registry d)" for m
  proof -
    have "find_module (sm_slug m) (d_registry d) = Some m"
      using assms(2) that by (intro find_module_unique) (simp_all add: module_names_def comp_def)
    moreover from this assms(1) have "status m \<Longrightarrow> get_skeleton (d_engine d) (sm_slug m) \<noteq> None"
      unfolding matched_def by blast
    ultimately show ?thesis by (auto simp: edr_of_def split: option.split)
  qed
  then have lines: "map list_line (d_registry d) = map (\<lambda>m. str '' '' @
      (if edr_of d (sm_slug m) = Some True then str ''[ACTIVE]  '' else str ''[INACTIVE]'')
       @ str '' '' @ sm_slug m @ str '' ('' @ sm_name m @ str '')'' @ newline) (d_registry d)"
    by (simp add: list_line_def Let_def)
  show ?thesis
    unfolding list_response_def lines by (simp add: listing_def module_names_def comp_def)
qed

lemma write_refused:
  assumes "daemon_inv en api ld names d" and "get_skeleton (d_engine d) m = Some skel"
    and "set_module_state en api ld skel m b = Inl e"
  shows "flag_refusable en api" and "e = str ''Failed to synchronize eBPF state_map for '' @ m"
proof -
  have entry: "(m, skel) \<in> set (d_engine d)"
    using assms(2) by (simp add: get_skeleton_def map_of_SomeD)
  then have "sk_module skel = m" "m \<in> set (available_modules ld)"
    using assms(1) by (auto simp: daemon_inv_def engine_ok_def)
  then obtain sm x where sm: "map_of (sk_maps skel) state_map_name = Some sm"
    and refused: "map_update api (state_key en) (state_val en b) sm = Inl x"
    and e: "e = str ''Failed to synchronize eBPF state_map for '' @ m"
    using assms(3) by (auto simp: set_module_state_def split: if_splits option.splits sum.splits)
  show "e = str ''Failed to synchronize eBPF state_map for '' @ m" by (rule e)
  have "\<exists>b. flag_written en api b skel"
    using assms(1) entry by (auto simp: daemon_inv_def flags_held_def)
  then have "state_key en \<in> map_keys api sm"
    using sm by (auto simp: flag_written_def map_keys_def)
  with refused show "flag_refusable en api" unfolding flag_refusable_def by blast
qed

lemma daemon_inv_toggled:
  assumes "daemon_inv en api ld names d" and "map_of (d_engine d) target = Some skel"
    and set: "set_module_state en api ld skel target b = Inr skel'"
  shows "daemon_inv en api ld names
    \<lparr>d_engine = AList.update target skel' (d_engine d), d_registry = snd (toggle_module_in target b (d_registry d))\<rparr>"
proof -
  note inv = assms(1) [unfolded daemon_inv_def]
  have mod: "sk_module skel' = target" "target \<in> set (available_modules ld)"
    using set_module_state_module [OF set] by auto
  have "flag_written en api b skel'" using set_module_state_written [OF _ set] inv by blast
  moreover have "flags_held en api (d_engine d)" using inv by blast
  moreover have "distinct (map fst (d_engine d))" using inv by (simp add: engine_ok_def)
  ultimately have "flags_held en api (AList.update target skel' (d_engine d))"
    unfolding flags_held_def using engine_update_mem engine_update_at by fast
  moreover obtain m where m: "find_module target (d_registry d) = Some m"
    using inv assms(2) by (auto simp: matched_def get_skeleton_def)
  moreover have "matched \<lparr>d_engine = AList.update target skel' (d_engine d),
      d_registry = snd (toggle_module_in target b (d_registry d))\<rparr>"
    using inv assms(2) m
    by (auto simp: matched_def get_skeleton_def update_conv' find_module_toggle split: if_splits)
  ultimately show ?thesis
    using inv engine_ok_update [OF _ mod] by (simp add: daemon_inv_def)
qed

lemma toggle_refines:
  assumes inv: "daemon_inv en api ld names d"
    and run: "toggle_module en api ld target b d = (e, answer, d')"
  shows "daemon_inv en api ld names d' \<and>
    (edr_of d target = None \<and> answer = not_loaded_text target b \<and> edr_of d' = edr_of d \<or>
     edr_of d target \<noteq> None \<and> flag_refusable en api \<and> answer = write_failed_text target \<and> edr_of d' = edr_of d \<or>
     edr_of d target \<noteq> None \<and> answer = done_text target b \<and> edr_of d' = (edr_of d)(target \<mapsto> b))"
proof (cases "get_skeleton (d_engine d) target")
  case None
  then have "d' = d" "answer = not_loaded_text target b"
    using run by (cases b; simp add: toggle_module_def not_loaded_text_def)+
  moreover have "edr_of d target = None"
    using edr_of_loaded [of d target] inv None by (simp add: daemon_inv_def)
  ultimately show ?thesis using inv by simp
next
  case (Some skel)
  then have loaded: "edr_of d target \<noteq> None"
    using edr_of_loaded [of d target] inv by (simp add: daemon_inv_def)
  show ?thesis
  proof (cases "set_module_state en api ld skel target b")
    case (Inl x)
    with write_refused [OF inv Some Inl] run Some loaded inv show ?thesis
      by (simp add: toggle_module_def write_failed_text_def)
  next
    case (Inr skel')
    have skel: "map_of (d_engine d) target = Some skel" using Some by (simp add: get_skeleton_def)
    have d': "d' = \<lparr>d_engine = AList.update target skel' (d_engine d),
        d_registry = snd (toggle_module_in target b (d_registry d))\<rparr>"
      and answer: "answer = done_text target b"
      using run Some Inr by (auto simp: toggle_module_def Let_def done_text_def split: prod.splits)
    obtain m where m: "find_module target (d_registry d) = Some m"
      using inv skel by (auto simp: daemon_inv_def matched_def get_skeleton_def)
    have "edr_of d' n = ((edr_of d)(target \<mapsto> b)) n" for n
      using skel m by (simp add: d' edr_of_def get_skeleton_def update_conv' find_module_toggle
          status_def split: option.split)
    then have "edr_of d' = (edr_of d)(target \<mapsto> b)" by blast
    with daemon_inv_toggled [OF inv skel Inr] loaded answer d' show ?thesis by blast
  qed
qed

definition serve_command ::
    "endian \<Rightarrow> 'm bpf_api \<Rightarrow> 'm loader \<Rightarrow> daemon_cmd \<Rightarrow> ('g, 'm) daemon \<Rightarrow> rstr \<times> ('g, 'm) daemon" where
  "serve_command en api ld cmd d = snd (handle_command en api ld cmd d)"

lemma serve_command_refines:
  assumes inv: "daemon_inv en api ld names d" and run: "serve_command en api ld c d = (answer, d')"
  shows "daemon_inv en api ld names d' \<and>
    edr_step names (flag_refusable en api) (edr_of d) c answer (edr_of d')"
proof (cases c)
  case CmdList
  with inv run show ?thesis
    by (auto simp: serve_command_def handle_command_def daemon_inv_def listing_matches)
next
  case (CmdEnable m)
  with run obtain e where "toggle_module en api ld m True d = (e, answer, d')"
    by (cases "toggle_module en api ld m True d") (auto simp: serve_command_def handle_command_def)
  from toggle_refines [OF inv this] CmdEnable show ?thesis by (auto intro: edr_step.intros)
next
  case (CmdDisable m)
  with run obtain e where "toggle_module en api ld m False d = (e, answer, d')"
    by (cases "toggle_module en api ld m False d") (auto simp: serve_command_def handle_command_def)
  from toggle_refines [OF inv this] CmdDisable show ?thesis by (auto intro: edr_step.intros)
qed (use inv run in \<open>auto simp: serve_command_def handle_command_def\<close>)

interpretation control: simulation "serve_command en api ld" "daemon_inv en api ld names" edr_of
  "edr_step names (flag_refusable en api)" for en api ld names
  by unfold_locales (metis serve_command_refines prod.collapse)+

section \<open>The loop\<close>

definition commands :: "action list \<Rightarrow> daemon_cmd list" where
  "commands as = List.map_filter (\<lambda>a. case a of Send msg \<Rightarrow> Some (msg_cmd msg) | _ \<Rightarrow> None) as"

lemma commands_simps [simp]:
  "commands [] = []"
  "commands (as @ [Send msg]) = commands as @ [msg_cmd msg]"
  "commands (as @ [HangUp]) = commands as"
  "commands (as @ [Tick rs]) = commands as"
  by (simp_all add: commands_def List.map_filter_def)

lemma answer_all_exec:
  "fst (exec_all (serve_command en api ld) (map msg_cmd msgs) d) = map snd (fst (snd (answer_all en api ld msgs d)))"
  "snd (exec_all (serve_command en api ld) (map msg_cmd msgs) d) = snd (snd (answer_all en api ld msgs d))"
  by (induction msgs arbitrary: d) (simp_all add: serve_command_def case_prod_beta)

text \<open>
  What the loop has done so far: it executed the first of the commands sent, in order, with
  the answers it recorded; the others are still queued.
\<close>

definition follows ::
    "endian \<Rightarrow> 'm bpf_api \<Rightarrow> 'm loader \<Rightarrow> (rstr \<times> rstr) list \<Rightarrow> edr \<Rightarrow> ('g, 'm) system \<Rightarrow> daemon_cmd list \<Rightarrow> bool" where
  "follows en api ld names start s sent_cmds \<longleftrightarrow>
     daemon_inv en api ld names (s_daemon s) \<and>
     (\<exists>served. spec_run (edr_step names (flag_refusable en api)) start served (map snd (s_replies s)) (edr_of (s_daemon s)) \<and>
        served @ map msg_cmd (s_queue s) = sent_cmds)"

lemma run_once_follows:
  assumes "follows en api ld names start s cmds"
  shows "follows en api ld names start (snd (run_once en api ld rs s)) cmds"
proof (rule run_once_cases [of s en api ld rs])
  fix msg pending d replies g
  assume q: "s_queue s = msg # pending"
    and ans: "answer_all en api ld (msg # take 10 pending) (s_daemon s) =
         (fst (answer_all en api ld (msg # take 10 pending) (s_daemon s)), replies, d)"
    and s': "snd (run_once en api ld rs s) =
         s\<lparr>s_daemon := d, s_globals := g, s_queue := drop 10 pending, s_replies := s_replies s @ replies\<rparr>"
  let ?batch = "map msg_cmd (msg # take 10 pending)"
  from assms obtain served where inv: "daemon_inv en api ld names (s_daemon s)"
    and run: "spec_run (edr_step names (flag_refusable en api)) start served (map snd (s_replies s)) (edr_of (s_daemon s))"
    and cmds: "served @ map msg_cmd (s_queue s) = cmds"
    by (auto simp: follows_def)
  have "snd (snd (answer_all en api ld (msg # take 10 pending) (s_daemon s))) = d"
    and "fst (snd (answer_all en api ld (msg # take 10 pending) (s_daemon s))) = replies"
    by (subst ans, simp)+
  then have exec: "exec_all (serve_command en api ld) ?batch (s_daemon s) = (map snd replies, d)"
    using answer_all_exec [of en api ld "msg # take 10 pending" "s_daemon s"] by (intro prod_eqI) auto
  have "daemon_inv en api ld names d"
    using control.exec_all_inv [OF inv, where cs = ?batch] unfolding exec by simp
  moreover have "spec_run (edr_step names (flag_refusable en api)) (edr_of (s_daemon s)) ?batch (map snd replies) (edr_of d)"
    using control.exec_all_spec [OF inv, where cs = ?batch] unfolding exec by simp
  from spec_run_append [OF this run]
  have "spec_run (edr_step names (flag_refusable en api)) start (served @ ?batch) (map snd (s_replies s @ replies)) (edr_of d)"
    by simp
  moreover have "(served @ ?batch) @ map msg_cmd (drop 10 pending) = cmds"
    using cmds q by (simp add: map_append [symmetric] del: map_append)
  ultimately show ?thesis unfolding s' follows_def by auto
qed (use assms in \<open>auto simp: follows_def\<close>)

lemma reachable_follows:
  assumes "reachable en api ld s0 as s"
    and "daemon_inv en api ld names (s_daemon s0)" "s_queue s0 = []" "s_replies s0 = []"
  shows "follows en api ld names (edr_of (s_daemon s0)) s (commands as)"
  using assms(1)
proof induction
  case reach_start
  then show ?case using assms(2-4) by (auto simp: follows_def intro: run_none)
next
  case (reach_step as s a e s')
  from reach_step(2) show ?case
  proof cases
    case (step_tick rs)
    with run_once_follows [OF reach_step.IH, of rs] show ?thesis by simp
  qed (use reach_step.IH in \<open>auto simp: follows_def\<close>)
qed

section \<open>The boot\<close>

definition registered :: "(rstr \<times> rstr) list" where
  "registered =
     [(str ''exec_block'', str ''Untrusted Path Execution Prevention''),
      (str ''rename_entropy'', str ''Ransomware Rename Entropy Monitor''),
      (str ''shield'', str ''Self-Defense Architecture''),
      (str ''mount_secure'', str ''Removable Media Neutralizer''),
      (str ''strict_wx'', str ''Strict Write XOR Execute (W^X)''),
      (str ''ptrace_block'', str ''Process Injection Prevention''),
      (str ''dump_restrict'', str ''Unprivileged Dump Restriction''),
      (str ''userns_restrict'', str ''Namespace Escape Monitor''),
      (str ''madvise_ratelimit'', str ''Race Condition Mitigator''),
      (str ''io_restrict'', str ''I/O Confinement Monitor'')]"

lemma registered_names: "module_names build_registry = registered"
  by (simp add: module_names_def registered_def build_registry_def new_module_def module_spec_defs)

lemma registered_distinct: "distinct (map fst registered)"
  by (simp add: registered_def)

lemma find_module_None: "find_module n reg = None \<longleftrightarrow> n \<notin> fst ` set (module_names reg)"
  by (force simp: find_module_def find_None_iff module_names_def)

lemma boot_inv:
  assumes "bpf_api_ok api" "loader_ok ld" "loaded_state_ok en api ld"
    and "set (available_modules ld) \<subseteq> fst ` set registered"
    and run: "load_modules en h api ld cfg build_registry [] = (e, eng, reg)"
  shows "daemon_inv en api ld registered \<lparr>d_engine = eng, d_registry = reg\<rparr>"
    and "edr_of \<lparr>d_engine = eng, d_registry = reg\<rparr> n =
      (if n \<in> fst ` set eng then Some (configured cfg n) else None)"
proof -
  note res = load_modules_result [OF assms(1-3) build_registry_keeps_state run]
  have names: "module_names reg = registered"
    using module_names_same_code [OF res(3)] by (simp add: registered_names)
  have loaded: "get_skeleton eng n \<noteq> None \<longleftrightarrow> n \<in> fst ` set eng" for n
    by (simp add: get_skeleton_def map_of_eq_None_iff)
  have avail: "n \<in> fst ` set registered" if "n \<in> fst ` set eng" for n
    using that res(2) assms(4) unfolding engine_ok_def by fastforce
  have active: "n \<in> fst ` set eng \<and> configured cfg n" if "find_module n reg = Some m" "status m" for n m
    using boot_state [OF assms(1-3) run, of m] find_module_member [OF that(1)] that(2)
    by (auto simp: configured_def)
  have held: "flags_held en api eng"
    using res(1) by (fastforce simp: flags_held_def list_all_iff as_configured_def)
  have inv: "matched \<lparr>d_engine = eng, d_registry = reg\<rparr>"
    unfolding matched_def using loaded avail active by (auto simp: find_module_None names)
  then show "daemon_inv en api ld registered \<lparr>d_engine = eng, d_registry = reg\<rparr>"
    using assms(1) names registered_distinct res(2) held by (simp add: daemon_inv_def)
  show "edr_of \<lparr>d_engine = eng, d_registry = reg\<rparr> n =
      (if n \<in> fst ` set eng then Some (configured cfg n) else None)"
  proof (cases "n \<in> fst ` set eng")
    case True
    then obtain skel where skel: "(n, skel) \<in> set eng" by auto
    obtain m where m: "find_module n reg = Some m"
      using avail [OF True] find_module_None [of n reg] names by auto
    have "status m = configured cfg n"
      using res(1) skel m by (auto simp: list_all_iff as_configured_def)
    with True m loaded [of n] show ?thesis by (auto simp: edr_of_def)
  next
    case False
    with edr_of_loaded [OF inv, of n] loaded [of n] show ?thesis by simp
  qed
qed

lemma main_daemon_inv:
  assumes "bpf_api_ok (me_api me)" "loader_ok (me_loader me)"
    "loaded_state_ok (me_endian me) (me_api me) (me_loader me)"
    and "set (available_modules (me_loader me)) \<subseteq> fst ` set registered"
    and "snd (main me) = Serving s0 ring"
  obtains cfg where "snd (load_config (me_config me)) = Inr cfg"
    and "daemon_inv (me_endian me) (me_api me) (me_loader me) registered (s_daemon s0)" and "s_queue s0 = []" and "s_replies s0 = []"
    and "\<And>n. edr_of (s_daemon s0) n = None \<or> edr_of (s_daemon s0) n = Some (configured cfg n)"
proof -
  obtain cfg e1 eng reg where cfg: "snd (load_config (me_config me)) = Inr cfg"
    and run: "load_modules (me_endian me) (me_host me) (me_api me) (me_loader me) cfg build_registry [] = (e1, eng, reg)"
    and s0: "s_daemon s0 = \<lparr>d_engine = eng, d_registry = reg\<rparr>" "s_queue s0 = []" "s_replies s0 = []"
    by (rule main_serving [OF assms(5)])
  note boot = boot_inv [OF assms(1-4) run]
  show thesis by (rule that [OF cfg]) (simp_all add: s0 boot)
qed

section \<open>The client's view\<close>

text \<open>The client's run when the daemon answers with a text.\<close>

definition client_run :: "rstr \<Rightarrow> effect list \<times> nat" where
  "client_run answer =
     send_command_to_daemon \<lparr>connect_error = None, request_error = None, response = Inr (utf8_encode answer)\<rparr>"

lemma client_run_prints:
  assumes "\<forall>c \<in> set answer. is_scalar c" "length (utf8_encode answer) \<le> 4096"
  shows "client_run answer = ([Stdout (trim_end_by is_whitespace answer)], 0)"
  using assms by (simp add: client_run_def send_command_to_daemon_def valid_utf8_def utf8_lossy_encode)

lemma listing_plain: "\<forall>c \<in> set (listing registered s). c < 0x80"
proof -
  have pieces: "list_all (\<lambda>(slug, name). list_all (\<lambda>c. c < 0x80) slug \<and> list_all (\<lambda>c. c < 0x80) name) registered"
    by (simp add: registered_def str_def)
  have words: "list_all (\<lambda>c. c < 0x80) (str ''MODULE REGISTRY:'' @ newline @ str ''[ACTIVE]  '' @ str ''[INACTIVE]''
      @ str '' '' @ str '' ('' @ str '')'')"
    by (simp add: str_def newline_def)
  show ?thesis
    using pieces words by (fastforce simp: listing_def list_all_iff split: if_splits)
qed

lemma listing_length: "length (listing registered s) = 574"
  by (simp add: listing_def registered_def str_def newline_def)

text \<open>A root session in which the client's request reaches the actor and is answered in time.\<close>

definition session ::
    "endian \<Rightarrow> 'm bpf_api \<Rightarrow> 'm loader \<Rightarrow> cli_command \<Rightarrow> ('g, 'm) daemon \<Rightarrow> rstr list" where
  "session en api ld cmd d =
     x_written (handle_connection (demo_connection cmd) (\<lambda>c. Replied (fst (serve_command en api ld c d))))"

lemma session_answer:
  "fst (parse_command (cli_stream cmd)) = Inr (Some c) \<Longrightarrow>
   session en api ld cmd d = [fst (serve_command en api ld c d)]"
  by (simp add: session_def handle_connection_def verify_peercred_def demo_connection_def dispatch_command_def)

text \<open>The switch of a module, as the client sends it and as the actor receives it.\<close>

definition cli_switch :: "rstr \<Rightarrow> bool \<Rightarrow> cli_command" where
  "cli_switch m b = (if b then CliEnable m else CliDisable m)"

definition cmd_switch :: "rstr \<Rightarrow> bool \<Rightarrow> daemon_cmd" where
  "cmd_switch m b = (if b then CmdEnable m else CmdDisable m)"

lemma parse_switch:
  "module_argument m \<Longrightarrow> parse_command (cli_stream (cli_switch m b)) = (Inr (Some (cmd_switch m b)), 0)"
  by (simp add: cli_switch_def cmd_switch_def parse_cli_enable parse_cli_disable)

text \<open>Every answer to a switch is text of at most 4096 bytes, the client's buffer.\<close>

lemma switch_answer_scalar:
  assumes "module_argument m"
  shows "\<forall>c \<in> set (done_text m b). is_scalar c" and "\<forall>c \<in> set (not_loaded_text m b). is_scalar c"
  using assms by (cases b; auto simp: done_text_def not_loaded_text_def quoted_def module_argument_def str_def
      newline_def is_scalar_def)+

lemma switch_answer_bytes:
  assumes "module_argument m"
  shows "length (utf8_encode (done_text m b)) \<le> 4096" and "length (utf8_encode (not_loaded_text m b)) \<le> 4096"
  using assms by (cases b; simp add: done_text_def not_loaded_text_def quoted_def module_argument_def str_def
      newline_def utf8_encode_def utf8_encode_char_def)+

lemma switch_answers_printed:
  assumes "module_argument m" and "answer = done_text m b \<or> answer = not_loaded_text m b"
  shows "client_run answer = ([Stdout (trim_end_by is_whitespace answer)], 0)"
  using client_run_prints switch_answer_scalar [OF assms(1)] switch_answer_bytes [OF assms(1)] assms(2) by metis

lemma switch_served:
  assumes inv: "daemon_inv en api ld names d" and "\<not> flag_refusable en api"
    and run: "serve_command en api ld (cmd_switch m b) d = (answer, d')"
  shows "if edr_of d m = None then answer = not_loaded_text m b \<and> edr_of d' = edr_of d
    else answer = done_text m b \<and> edr_of d' = (edr_of d)(m \<mapsto> b)"
proof -
  have "edr_step names (flag_refusable en api) (edr_of d) (cmd_switch m b) answer (edr_of d')"
    using serve_command_refines [OF inv run] by blast
  with assms(2) show ?thesis
    by (cases b) (auto simp: cmd_switch_def elim: edr_step_enableE edr_step_disableE)
qed

section \<open>Properties\<close>

text \<open>
  C22: what an operator sees. The answer to a list command names each module with the state of
  the contract, fits the client's buffer and is printed whole. The switch of a module, on
  or off, is answered with success, and changes the entry of that module and no other,
  when the module is loaded; when it is not, it is answered with the error that says so,
  and changes nothing. Either answer is printed whole. (The request reaches the actor and
  is answered in time, the name is a word of at most 1016 bytes.)
\<close>

theorem operator_session:
  assumes "bpf_room_ok api n" and "daemon_inv en api ld registered d" and "module_argument m"
  shows "session en api ld CliList d = [listing registered (edr_of d)] \<and>
    client_run (listing registered (edr_of d)) =
      ([Stdout (trim_end_by is_whitespace (listing registered (edr_of d)))], 0) \<and>
    (case serve_command en api ld (cmd_switch m b) d of
       (answer, d') \<Rightarrow>
         session en api ld (cli_switch m b) d = [answer] \<and>
         client_run answer = ([Stdout (trim_end_by is_whitespace answer)], 0) \<and>
         (if edr_of d m = None then answer = not_loaded_text m b \<and> edr_of d' = edr_of d
          else answer = done_text m b \<and> edr_of d' = (edr_of d)(m \<mapsto> b)))"
proof -
  have list: "fst (serve_command en api ld CmdList d) = listing registered (edr_of d)"
    using assms(2) by (simp add: serve_command_def handle_command_def daemon_inv_def listing_matches)
  have "session en api ld CliList d = [listing registered (edr_of d)]"
    unfolding list [symmetric] by (intro session_answer) (simp add: parse_cli_plain)
  moreover have "\<forall>c \<in> set (listing registered (edr_of d)). is_scalar c"
    using listing_plain by (fastforce simp: is_scalar_def)
  then have "client_run (listing registered (edr_of d)) =
      ([Stdout (trim_end_by is_whitespace (listing registered (edr_of d)))], 0)"
    by (intro client_run_prints) (simp_all add: utf8_encode_ascii [OF listing_plain] listing_length)
  moreover obtain answer d' where run: "serve_command en api ld (cmd_switch m b) d = (answer, d')" by fastforce
  moreover have "session en api ld (cli_switch m b) d = [answer]"
    using session_answer [of "cli_switch m b" "cmd_switch m b" en api ld d] run
    by (simp add: parse_switch [OF assms(3)])
  moreover note served = switch_served [OF assms(2) room_not_refusable [OF assms(1)] run]
  moreover have "client_run answer = ([Stdout (trim_end_by is_whitespace answer)], 0)"
    using switch_answers_printed [OF assms(3), of answer b] served by (simp split: if_splits)
  ultimately show ?thesis by simp
qed

lemma demo_daemon_inv: "daemon_inv Little (hash_map 1) demo_loader registered demo_daemon"
proof -
  have "bpf_api_ok (hash_map 1)" using hash_map_ok by (rule bpf_hash_api)
  moreover have "find_module n build_registry = Some m \<Longrightarrow> \<not> status m" for n and m :: "(tracked, (u8 list \<times> u8 list) list,
      (u8 list \<times> u8 list) list skeleton) security_module"
    using find_module_member registry_inactive by blast
  moreover have "str ''exec_block'' \<in> fst ` set registered" by (simp add: registered_def)
  moreover have "engine_ok demo_loader (d_engine demo_daemon)"
    by (simp add: engine_ok_def demo_loader_def demo_daemon_def)
  moreover have "flags_held Little (hash_map 1) (d_engine demo_daemon)"
    by (auto simp: flags_held_def flag_written_def demo_daemon_def hash_map_def)
  ultimately show ?thesis
    using registered_distinct
    by (auto simp: daemon_inv_def matched_def demo_daemon_def get_skeleton_def find_module_None registered_names
        split: if_splits)
qed

theorem operator_session_witness:
  "fst (serve_command Little (hash_map 1) demo_loader (CmdDisable (str ''exec_block'')) demo_daemon) =
     done_text (str ''exec_block'') False \<and>
   session Little (hash_map 1) demo_loader (CliDisable (str ''exec_block'')) demo_daemon =
     [done_text (str ''exec_block'') False] \<and>
   client_run (listing registered (edr_of demo_daemon)) =
     ([Stdout (trim_end_by is_whitespace (listing registered (edr_of demo_daemon)))], 0)"
proof -
  have "module_argument (str ''exec_block'')"
    by (simp add: module_argument_def str_def is_scalar_def is_whitespace_def utf8_encode_def utf8_encode_char_def)
  moreover have "edr_of demo_daemon (str ''exec_block'') \<noteq> None"
    using demo_daemon_inv by (simp add: daemon_inv_def edr_of_loaded) (simp add: get_skeleton_def demo_daemon_def)
  ultimately show ?thesis
    using operator_session [OF bpf_hash_room [OF hash_map_ok] demo_daemon_inv, of "str ''exec_block''" False]
    by (auto simp: cmd_switch_def cli_switch_def case_prod_beta)
qed

end
