(* ===== verification/BB_Kernel.thy ===== *)
theory BB_Kernel
  imports BB_Security_Module
begin

text \<open>
  What the kernel programs share: \<open>bpf/headers/module_core.h\<close> (the administrative flag, the
  caller's identity, the name of the process) and \<open>bpf/headers/vfs_helpers.h\<close> (hardware
  keys, the inheritance of watchlists), the helpers of BPF they call, and the verdict of a
  hook. The locale \<open>reporting_hook\<close> is the interface between a hook and the module of the
  daemon that reads its records.
\<close>

section \<open>What a hook sees\<close>

text \<open>
  A kernel map as a lookup sees it: the bytes behind the pointer, or \<open>None\<close> for the null
  pointer. \<open>bpf_map_lookup_elem\<close> on the map \<open>m\<close> of the daemon's skeleton is \<open>kmap_of api m\<close>.
\<close>

type_synonym kmap = "u8 list \<Rightarrow> u8 list option"

definition kmap_of :: "'m bpf_api \<Rightarrow> 'm \<Rightarrow> kmap" where
  "kmap_of api m = (\<lambda>k. map_lookup api k m)"

definition is_module_active :: "endian \<Rightarrow> kmap \<Rightarrow> bool" where
  "is_module_active en state_map =
     (case state_map (u32_to_ne_bytes en 0) of
        None \<Rightarrow> True
      | Some active \<Rightarrow> u32_from_ne_bytes en active = 1)"

text \<open>\<open>is_protected && *is_protected == 1\<close>, the test every watchlist is read with.\<close>

definition watched :: "kmap \<Rightarrow> u8 list \<Rightarrow> bool" where
  "watched m key \<longleftrightarrow> (case m key of Some (v # _) \<Rightarrow> v = 1 | _ \<Rightarrow> False)"

text \<open>
  Kernel objects, as far as the hooks read them. \<open>BPF_CORE_READ\<close> through a null pointer
  yields zero, so a negative dentry has inode number zero.
\<close>

record inode =
  i_ino :: u64
  i_dev :: u32
  i_mode :: "16 word"
  i_nlink :: u32
  s_magic :: u32

record dentry =
  d_inode :: "inode option"
  d_dev :: u32

record task =
  t_tgid :: u32
  t_pid :: u32
  t_uid :: u32
  t_comm :: "u8 list option"

definition dir_id :: "endian \<Rightarrow> u64 \<Rightarrow> u32 \<Rightarrow> u8 list" where
  "dir_id en ino dev = u64_to_ne_bytes en ino @ u32_to_ne_bytes en dev @ u32_to_ne_bytes en 0"

definition extract_dir_id_from_inode :: "endian \<Rightarrow> inode \<Rightarrow> u8 list" where
  "extract_dir_id_from_inode en i = dir_id en (i_ino i) (i_dev i)"

definition extract_dir_id_from_dentry :: "endian \<Rightarrow> dentry \<Rightarrow> u8 list" where
  "extract_dir_id_from_dentry en d =
     dir_id en (case d_inode d of None \<Rightarrow> 0 | Some i \<Rightarrow> i_ino i) (d_dev d)"

definition get_global_uid :: "task \<Rightarrow> u32" where
  "get_global_uid t = t_uid t"

text \<open>
  \<open>t_comm\<close> is the buffer after \<open>bpf_get_current_comm\<close>, \<open>None\<close> when the helper fails; the
  buffers it is called with are cleared before.
\<close>

definition unknown_comm :: "u8 list" where
  "unknown_comm = map of_nat (str ''<unknown>'') @ [0]"

definition extract_safe_comm :: "u8 list option \<Rightarrow> u8 list \<Rightarrow> u8 list" where
  "extract_safe_comm comm dst =
     (let d = (case comm of Some c \<Rightarrow> c | None \<Rightarrow> unknown_comm @ drop (length unknown_comm) dst)
      in d[length dst - 1 := 0])"

section \<open>Helpers of BPF\<close>

text \<open>
  \<open>bpf_probe_read_kernel_str\<close> into a buffer: at most one byte less than its size, then the
  terminator; what lies behind the terminator is left as it was.
\<close>

definition probe_read_str :: "u8 list \<Rightarrow> u8 list \<Rightarrow> u8 list" where
  "probe_read_str src buf =
     (let copied = take (length buf - 1) (takeWhile (\<lambda>b. b \<noteq> 0) src)
      in copied @ 0 # drop (length copied + 1) buf)"

text \<open>
  A pointer a hook was handed: null, not readable, or to a string. The helper's result is
  the length with the terminator, or an error, upon which the buffer is left alone (the
  hooks that look at the result have cleared it).
\<close>

datatype kptr = Null | Fault | Str "u8 list"

definition bpf_probe_read_kernel_str :: "kptr \<Rightarrow> u8 list \<Rightarrow> int \<times> u8 list" where
  "bpf_probe_read_kernel_str p buf =
     (case p of
        Str s \<Rightarrow>
          (int (length (take (length buf - 1) (takeWhile (\<lambda>b. b \<noteq> 0) s))) + 1, probe_read_str s buf)
      | _ \<Rightarrow> (-14, buf))"

text \<open>\<open>__builtin_strncpy\<close> of a literal: the buffer is filled up with zeros.\<close>

definition strncpy :: "nat \<Rightarrow> rstr \<Rightarrow> u8 list" where
  "strncpy n s = take n (map of_nat s @ replicate n 0)"

text \<open>\<open>bpf_d_path\<close>: its result and the buffer behind it.\<close>

record dpath =
  dp_len :: int
  dp_buf :: "u8 list"

text \<open>
  What is documented of a path the helper resolved: the buffer of 4096 bytes holds its bytes,
  none of which is zero, with a terminator, and the result is their number and one more.
\<close>

definition resolves_to :: "dpath \<Rightarrow> u8 list \<Rightarrow> bool" where
  "resolves_to dp p \<longleftrightarrow>
     dp_len dp = int (length p) + 1 \<and> length p < 4096 \<and> 0 \<notin> set p \<and>
     (\<exists>rest. dp_buf dp = p @ 0 # rest)"

text \<open>
  The outcome of a hook: the value it returns, the records it submits and whether it sends
  \<open>SIGKILL\<close> to the caller.
\<close>

record hook_result =
  hr_ret :: int
  hr_events :: "u8 list list"
  hr_kill :: bool

definition allow :: hook_result where
  "allow = \<lparr>hr_ret = 0, hr_events = [], hr_kill = False\<rparr>"

definition deny :: "int \<Rightarrow> u8 list list \<Rightarrow> hook_result" where
  "deny code events = \<lparr>hr_ret = code, hr_events = events, hr_kill = False\<rparr>"

definition EPERM :: int where "EPERM = 1"
definition EACCES :: int where "EACCES = 13"
definition ENAMETOOLONG :: int where "ENAMETOOLONG = 36"

text \<open>
  \<open>bpf_ringbuf_reserve\<close>: the memory of the requested size, whatever it held, or \<open>None\<close> when
  the ring is full; then the record is filled and submitted.
\<close>

definition submit :: "u8 list option \<Rightarrow> (u8 list \<Rightarrow> u8 list) \<Rightarrow> u8 list list" where
  "submit reserved fill = (case reserved of None \<Rightarrow> [] | Some mem \<Rightarrow> [fill mem])"

lemma allow_simps [simp]: "hr_ret allow = 0" "hr_events allow = []" "\<not> hr_kill allow"
  by (simp_all add: allow_def)

lemma deny_simps [simp]: "hr_ret (deny c es) = c" "hr_events (deny c es) = es" "\<not> hr_kill (deny c es)"
  by (simp_all add: deny_def)

lemma errno_nonzero [simp]: "EPERM \<noteq> 0" "EACCES \<noteq> 0"
  by (simp_all add: EPERM_def EACCES_def)

lemma submit_simps [simp]: "submit None f = []" "submit (Some mem) f = [f mem]"
  by (simp_all add: submit_def)

lemma submit_member: "d \<in> set (submit r f) \<longleftrightarrow> (\<exists>mem. r = Some mem \<and> d = f mem)"
  by (cases r) auto

section \<open>The flag and the keys are those of the daemon\<close>

text \<open>A value the daemon wrote is what the hooks see.\<close>

lemma is_module_active_state_val:
  "map_lookup api (state_key en) m = Some (state_val en b) \<Longrightarrow> is_module_active en (kmap_of api m) = b"
  by (simp add: is_module_active_def kmap_of_def state_key_def state_val_def)

lemma watched_protected_value:
  "map_lookup api k m = Some protected_value \<Longrightarrow> watched (kmap_of api m) k"
  by (simp add: watched_def kmap_of_def protected_value_def)

lemma not_watched: "m k = None \<Longrightarrow> \<not> watched m k"
  by (simp add: watched_def)

text \<open>
  \<open>stat\<close> reports the inode's number and the device in the encoding of user space: then the
  key the daemon computes is the one the hooks compute.
\<close>

definition stat_of :: "u64 \<Rightarrow> u64 \<Rightarrow> inode \<Rightarrow> metadata \<Rightarrow> bool" where
  "stat_of major minor i md \<longleftrightarrow>
     major < 2 ^ 12 \<and> minor < 2 ^ 20 \<and> md_ino md = i_ino i \<and>
     md_dev md = gnu_dev_makedev major minor \<and>
     i_dev i = push_bit 20 (ucast major) OR ucast minor"

lemma hardware_key_dir_id:
  assumes "stat_of M m i md"
  shows "generate_hardware_key en md = extract_dir_id_from_inode en i"
proof -
  have "M < 2 ^ 32" "m < 2 ^ 32" using assms by (auto simp: stat_of_def word_less_nat_alt)
  moreover have "u32_to_ne_bytes en 0 = replicate 4 0"
    by (cases en) (simp_all add: u32_to_ne_bytes_def u32_to_le_bytes_def eval_nat_numeral)
  ultimately show ?thesis
    using assms
    by (simp add: stat_of_def generate_hardware_key_def extract_dir_id_from_inode_def dir_id_def
        kernel_dev_makedev)
qed

lemma dir_id_inj [simp]:
  "dir_id en a b = dir_id en c d \<longleftrightarrow> a = c \<and> b = d"
  by (simp add: dir_id_def)

text \<open>A path of the daemon's list that opens to an inode, without following a link.\<close>

definition names_file :: "host \<Rightarrow> rstr \<Rightarrow> inode \<Rightarrow> bool" where
  "names_file h path i \<longleftrightarrow>
     (\<exists>f md major minor. openat h [O_RDONLY, O_NOFOLLOW, O_PATH, O_CLOEXEC] path = Some f \<and>
        of_meta f = Some md \<and> stat_of major minor i md)"

lemma names_file_key:
  assumes "path \<in> set paths" and "names_file h path i"
  shows "extract_dir_id_from_inode en i \<in> path_keys en h paths"
proof -
  have "get_secure_hardware_key en h path = Some (extract_dir_id_from_inode en i)"
    using assms(2) hardware_key_dir_id by (auto simp: names_file_def get_secure_hardware_key_def)
  then show ?thesis using assms(1) by (induction paths) auto
qed

lemma watched_iff_key:
  "(\<And>k. map_lookup api k m = (if k \<in> K then Some protected_value else None)) \<Longrightarrow>
   watched (kmap_of api m) k \<longleftrightarrow> k \<in> K"
  by (simp add: watched_def kmap_of_def protected_value_def)

section \<open>Strings in records\<close>

lemma length_probe_read_str [simp]:
  "0 < length buf \<Longrightarrow> length (probe_read_str s buf) = length buf"
  by (cases buf) (auto simp: probe_read_str_def Let_def min_def)

text \<open>What the helper copied: the source's string, cut to one byte less than the buffer.\<close>

lemma c_string_take: "0 \<notin> set (take n (c_string s))"
  by (meson c_string_nonzero in_set_takeD)

lemma c_string_probe [simp]:
  "c_string (probe_read_str s buf) = take (length buf - 1) (c_string s)"
  using c_string_take [of "length buf - 1" s] by (simp add: probe_read_str_def Let_def flip: c_string_def)

text \<open>A literal written over cleared memory is the padded array.\<close>

lemma c_char_array_zeros:
  assumes "fits_array n s"
  shows "probe_read_str (kernel_string s) (replicate n 0) = c_char_array n s"
proof -
  have len: "length s < n" and nz: "0 \<notin> set (kernel_string s)"
    using assms by (simp_all add: fits_array_def kernel_string_nonzero)
  from len have "0 # replicate (n - (length s + 1)) (0 :: u8) = replicate (n - length s) 0"
    by (metis Suc_diff_Suc Suc_eq_plus1 replicate_Suc)
  with len nz show ?thesis
    by (simp add: probe_read_str_def c_char_array_def Let_def flip: c_string_def)
qed

lemma strncpy_fits: "fits_array n s \<Longrightarrow> strncpy n s = c_char_array n s"
  by (simp add: strncpy_def c_char_array_def kernel_string_def fits_array_def)

lemma strncpy_terminated:
  assumes "fits_array n s"
  shows "(strncpy n s)[n - 1 := 0] = c_char_array n s"
proof -
  have "length s < n" using assms by (simp add: fits_array_def)
  then have "\<not> n - 1 < length s" "n - 1 - length s < n - length s" by linarith+
  then have "c_char_array n s ! (n - 1) = 0" by (simp add: c_char_array_def nth_append)
  then show ?thesis by (metis assms strncpy_fits list_update_id)
qed

text \<open>
  The name of a process, as the helper leaves it in a cleared buffer of 16 bytes: \<open>comm_sized\<close>
  says that the helper, when it succeeds, leaves 16 bytes, whatever they are.
\<close>

definition comm_sized :: "u8 list option \<Rightarrow> bool" where
  "comm_sized comm \<longleftrightarrow> (case comm of None \<Rightarrow> True | Some c \<Rightarrow> length c = 16)"

definition comm_array :: "u8 list option \<Rightarrow> u8 list" where
  "comm_array comm = extract_safe_comm comm (replicate 16 0)"

definition comm_of :: "u8 list option \<Rightarrow> u8 list" where
  "comm_of comm = c_string (comm_array comm)"

lemma length_comm_array: "comm_sized comm \<Longrightarrow> length (comm_array comm) = 16"
  by (auto simp: comm_sized_def comm_array_def extract_safe_comm_def Let_def unknown_comm_def str_def
      split: option.splits)

lemma unknown_comm_fits: "fits_array 16 (str ''<unknown>'')"
  by (simp add: fits_array_def printable_def str_def)

lemma unknown_comm_array:
  "unknown_comm @ drop (length unknown_comm) (replicate 16 0) = c_char_array 16 (str ''<unknown>'')"
  by (simp add: unknown_comm_def c_char_array_def kernel_string_def str_def eval_nat_numeral)

lemma comm_of_None: "shown (comm_of None) = str ''<unknown>''"
proof -
  have "(c_char_array 16 (str ''<unknown>''))[15 := 0] = c_char_array 16 (str ''<unknown>'')"
    by (simp add: c_char_array_def kernel_string_def str_def eval_nat_numeral)
  then show ?thesis
    using shown_literal(1) [OF unknown_comm_fits] unknown_comm_array
    by (simp add: comm_of_def comm_array_def extract_safe_comm_def Let_def)
qed

text \<open>The bytes of a path in the helper's buffer.\<close>

definition path_of :: "dpath \<Rightarrow> u8 list" where
  "path_of dp = c_string (dp_buf dp)"

lemma path_of_resolved: "resolves_to dp p \<Longrightarrow> path_of dp = p"
  by (auto simp: resolves_to_def path_of_def)

lemma resolved_length: "resolves_to dp p \<Longrightarrow> length p \<le> 4095"
  by (simp add: resolves_to_def)

text \<open>
  The bytes a hook reports of a pointer to a string, in a cleared field of \<open>n\<close> bytes: the
  string, cut to the field, or a literal when it cannot be read.
\<close>

definition text_of :: "nat \<Rightarrow> rstr \<Rightarrow> kptr \<Rightarrow> u8 list" where
  "text_of n otherwise p =
     (case p of Str s \<Rightarrow> take (n - 1) (c_string s) | _ \<Rightarrow> kernel_string otherwise)"

text \<open>The string behind a pointer, without its terminator.\<close>

definition c_str :: "kptr \<Rightarrow> u8 list" where
  "c_str p = (case p of Str s \<Rightarrow> c_string s | _ \<Rightarrow> [])"

definition has_prefix :: "rstr \<Rightarrow> u8 list \<Rightarrow> bool" where
  "has_prefix pat s \<longleftrightarrow> take (length pat) s = map of_nat pat"

text \<open>
  Comparing the first bytes of a copied string with a literal compares the string itself,
  as long as the literal is shorter than the buffer.
\<close>

lemma probe_prefix:
  assumes "\<forall>b \<in> set pat. b \<noteq> 0" and "length pat < length buf"
  shows "take (length pat) (probe_read_str s buf) = pat \<longleftrightarrow>
    take (length pat) (c_string s) = pat"
proof -
  let ?c = "c_string s" and ?k = "length pat"
  define copied where "copied = take (length buf - 1) ?c"
  have probe: "probe_read_str s buf = copied @ 0 # drop (length copied + 1) buf"
    by (simp add: probe_read_str_def copied_def c_string_def Let_def)
  show ?thesis
  proof (cases "?k \<le> length ?c")
    case True
    then have "?k \<le> length copied" using assms(2) by (simp add: copied_def)
    moreover have "?k \<le> length buf - 1" using assms(2) by linarith
    then have "take ?k copied = take ?k ?c" by (simp add: copied_def min_absorb1)
    ultimately show ?thesis by (simp add: probe)
  next
    case False
    then have eq: "copied = ?c" using assms(2) by (simp add: copied_def)
    have "take ?k (probe_read_str s buf) \<noteq> pat"
    proof
      assume "take ?k (probe_read_str s buf) = pat"
      then have "pat ! length ?c = probe_read_str s buf ! length ?c"
        using False by (metis not_le nth_take)
      also have "\<dots> = 0" by (simp add: probe eq)
      finally show False using assms(1) False by (metis not_le nth_mem)
    qed
    moreover have "take ?k ?c \<noteq> pat"
    proof
      assume "take ?k ?c = pat"
      then have "length (take ?k ?c) = ?k" by simp
      then show False using False by simp
    qed
    ultimately show ?thesis by blast
  qed
qed

section \<open>The interface of a hook that reports\<close>

text \<open>
  What the daemon relies on: while its flag is off the hook lets everything pass and
  reports nothing, and a record it submits is read by the module's parser as the alert
  meant by the hook, with the warnings its strings deserve.
\<close>

locale reporting_hook = event_module spec en min_size view warnings
  for spec :: "('a, 'g globals_scheme, 'm, 'p) module_spec"
    and en :: endian
    and min_size :: nat
    and view :: "u8 list \<Rightarrow> 'a"
    and warnings :: "u8 list \<Rightarrow> effect list" +
  fixes hook :: "'c \<Rightarrow> hook_result"
    and active :: "'c \<Rightarrow> bool"
    and sound :: "'c \<Rightarrow> bool"
    and alert :: "'c \<Rightarrow> 'a"
    and grumbles :: "'c \<Rightarrow> effect list"
  assumes inactive: "\<not> active c \<Longrightarrow> hook c = allow"
    and at_most_one: "length (hr_events (hook c)) \<le> 1"
    and reads_back: "sound c \<Longrightarrow> d \<in> set (hr_events (hook c)) \<Longrightarrow>
      min_size \<le> length d \<and> view d = alert c \<and> warnings d = grumbles c"
begin

lemma acts_only_when_active: "hook c \<noteq> allow \<Longrightarrow> active c"
  using inactive by blast

lemma record_parsed:
  assumes "sound c" and "d \<in> set (hr_events (hook c))"
  shows "ms_parser spec en d = (grumbles c, Inr (alert c))"
  using reads_back [OF assms] by (simp add: parse_full)

text \<open>What the daemon does with the record, while its own copy of the flag is on.\<close>

lemma record_handled:
  assumes "sound c" and "d \<in> set (hr_events (hook c))"
    and "sm_event m = module_event spec" and "status m"
  shows "process_event m en env d g =
    (case emit_siem_event env (ms_slug spec) (ms_mitre spec) (ms_fields spec (alert c)) g of
       (e1, g1) \<Rightarrow>
         (case ms_handler spec env (alert c) g1 of (e2, g2) \<Rightarrow> (grumbles c @ e1 @ e2, Inr (), g2)))"
  using reads_back [OF assms(1,2)] assms(3,4) by (simp add: process_event_def event_full)

end

end
