(* ===== verification/BB_Kernel_Watch.thy ===== *)
theory BB_Kernel_Watch
  imports BB_Kernel
begin

text \<open>
  The inheritance of watchlists in \<open>bpf/headers/vfs_helpers.h\<close>: \<open>inherit_protection\<close> and the
  hooks that the macros generate at the end of \<open>vfs_mkdir\<close> and \<open>vfs_rename\<close>, in their two
  variants each, for the modules \<open>exec_block\<close> and \<open>rename_entropy\<close>. The lemmas say which
  directories a sequence of calls leaves protected.
\<close>

section \<open>The hooks\<close>

text \<open>The first component: whether \<open>SIGKILL\<close> is sent to the caller.\<close>

definition inherit_protection :: "'m bpf_api \<Rightarrow> u8 list \<Rightarrow> u8 list \<Rightarrow> 'm \<Rightarrow> bool \<times> 'm" where
  "inherit_protection api parent_id child_id m =
     (if watched (kmap_of api m) parent_id
      then (case map_update api child_id [1] m of
              Inr m' \<Rightarrow> (False, m')
            | Inl _ \<Rightarrow> (True, m))
      else (False, m))"

definition vfs_mkdir_exit_old ::
    "endian \<Rightarrow> 'm bpf_api \<Rightarrow> kmap \<Rightarrow> inode \<Rightarrow> dentry \<Rightarrow> 32 word \<Rightarrow> 'm \<Rightarrow> bool \<times> 'm" where
  "vfs_mkdir_exit_old en api state_map dir dent retval m =
     (if retval \<noteq> 0 \<or> \<not> is_module_active en state_map then (False, m)
      else inherit_protection api (extract_dir_id_from_inode en dir) (extract_dir_id_from_dentry en dent) m)"

definition vfs_mkdir_exit_new ::
    "endian \<Rightarrow> 'm bpf_api \<Rightarrow> kmap \<Rightarrow> inode \<Rightarrow> dentry \<Rightarrow> u64 \<Rightarrow> 'm \<Rightarrow> bool \<times> 'm" where
  "vfs_mkdir_exit_new en api state_map dir dent retval m =
     (if retval \<ge> - 4095 \<or> \<not> is_module_active en state_map then (False, m)
      else inherit_protection api (extract_dir_id_from_inode en dir) (extract_dir_id_from_dentry en dent) m)"

definition vfs_rename_exit_old ::
    "endian \<Rightarrow> 'm bpf_api \<Rightarrow> kmap \<Rightarrow> inode \<Rightarrow> dentry \<Rightarrow> 32 word \<Rightarrow> 'm \<Rightarrow> bool \<times> 'm" where
  "vfs_rename_exit_old en api state_map new_dir old_dentry retval m =
     (if retval \<noteq> 0 \<or> \<not> is_module_active en state_map then (False, m)
      else inherit_protection api (extract_dir_id_from_inode en new_dir)
             (extract_dir_id_from_dentry en old_dentry) m)"

text \<open>\<open>rd_new_parent\<close> is \<open>None\<close> where the kernel's structure still has \<open>new_dir\<close>.\<close>

record renamedata =
  rd_new_parent :: "dentry option"
  rd_new_dir :: inode
  rd_old_dentry :: dentry

definition vfs_rename_exit_new ::
    "endian \<Rightarrow> 'm bpf_api \<Rightarrow> kmap \<Rightarrow> renamedata \<Rightarrow> 32 word \<Rightarrow> 'm \<Rightarrow> bool \<times> 'm" where
  "vfs_rename_exit_new en api state_map rd retval m =
     (if retval \<noteq> 0 \<or> \<not> is_module_active en state_map then (False, m)
      else (let target_parent_id =
                  (case rd_new_parent rd of
                     Some new_parent \<Rightarrow> extract_dir_id_from_dentry en new_parent
                   | None \<Rightarrow> extract_dir_id_from_inode en (rd_new_dir rd))
            in inherit_protection api target_parent_id
                 (extract_dir_id_from_dentry en (rd_old_dentry rd)) m))"

section \<open>Sequences of calls\<close>

datatype vfs_call =
    MkdirOld inode dentry "32 word"
  | MkdirNew inode dentry u64
  | RenameOld inode dentry "32 word"
  | RenameNew renamedata "32 word"

fun watch_step :: "endian \<Rightarrow> 'm bpf_api \<Rightarrow> kmap \<Rightarrow> vfs_call \<Rightarrow> 'm \<Rightarrow> bool \<times> 'm" where
  "watch_step en api st (MkdirOld dir dent retval) m = vfs_mkdir_exit_old en api st dir dent retval m"
| "watch_step en api st (MkdirNew dir dent retval) m = vfs_mkdir_exit_new en api st dir dent retval m"
| "watch_step en api st (RenameOld dir dent retval) m = vfs_rename_exit_old en api st dir dent retval m"
| "watch_step en api st (RenameNew rd retval) m = vfs_rename_exit_new en api st rd retval m"

fun watch_run :: "endian \<Rightarrow> 'm bpf_api \<Rightarrow> kmap \<Rightarrow> vfs_call list \<Rightarrow> 'm \<Rightarrow> bool list \<times> 'm" where
  "watch_run en api st [] m = ([], m)"
| "watch_run en api st (c # cs) m =
     (case watch_step en api st c m of
        (killed, m1) \<Rightarrow> (case watch_run en api st cs m1 of (ks, m2) \<Rightarrow> (killed # ks, m2)))"

text \<open>The directory that received an entry, and the entry, when the call succeeded.\<close>

fun new_link :: "endian \<Rightarrow> vfs_call \<Rightarrow> (u8 list \<times> u8 list) option" where
  "new_link en (MkdirOld dir dent retval) =
     (if retval \<noteq> 0 then None else Some (extract_dir_id_from_inode en dir, extract_dir_id_from_dentry en dent))"
| "new_link en (MkdirNew dir dent retval) =
     (if retval \<ge> - 4095 then None
      else Some (extract_dir_id_from_inode en dir, extract_dir_id_from_dentry en dent))"
| "new_link en (RenameOld dir dent retval) =
     (if retval \<noteq> 0 then None else Some (extract_dir_id_from_inode en dir, extract_dir_id_from_dentry en dent))"
| "new_link en (RenameNew rd retval) =
     (if retval \<noteq> 0 then None
      else Some
        (case rd_new_parent rd of
           Some new_parent \<Rightarrow> extract_dir_id_from_dentry en new_parent
         | None \<Rightarrow> extract_dir_id_from_inode en (rd_new_dir rd),
         extract_dir_id_from_dentry en (rd_old_dentry rd)))"

definition new_links :: "endian \<Rightarrow> vfs_call list \<Rightarrow> (u8 list \<times> u8 list) list" where
  "new_links en calls = List.map_filter (new_link en) calls"

text \<open>No directory receives an entry before it is linked itself, as is the case for new ones.\<close>

fun in_order :: "(u8 list \<times> u8 list) list \<Rightarrow> bool" where
  "in_order [] = True"
| "in_order ((p, c) # ls) = (p \<notin> snd ` set ls \<and> in_order ls)"

section \<open>What they leave protected\<close>

lemma watch_step_inactive: "\<not> is_module_active en st \<Longrightarrow> watch_step en api st c m = (False, m)"
  by (cases c) (simp_all add: vfs_mkdir_exit_old_def vfs_mkdir_exit_new_def vfs_rename_exit_old_def
      vfs_rename_exit_new_def)

lemma watch_step_active:
  "is_module_active en st \<Longrightarrow>
   watch_step en api st c m =
     (case new_link en c of None \<Rightarrow> (False, m) | Some (p, d) \<Rightarrow> inherit_protection api p d m)"
  by (cases c) (simp_all add: vfs_mkdir_exit_old_def vfs_mkdir_exit_new_def vfs_rename_exit_old_def
      vfs_rename_exit_new_def Let_def)

text \<open>
  A watchlist of \<open>n\<close> entries has room for the links when the keys it holds and the entries the
  links add are no more than \<open>n\<close>.
\<close>

definition links_fit :: "'m bpf_api \<Rightarrow> nat \<Rightarrow> (u8 list \<times> u8 list) list \<Rightarrow> 'm \<Rightarrow> bool" where
  "links_fit api n ls m \<longleftrightarrow>
     finite (map_keys api m) \<and> card (map_keys api m \<union> snd ` set ls) \<le> n"

lemma links_fit_room:
  assumes "links_fit api n ((p, c) # ls) m"
  shows "c \<in> map_keys api m \<or> card (map_keys api m) < n"
proof (cases "c \<in> map_keys api m")
  case False
  let ?all = "map_keys api m \<union> snd ` set ((p, c) # ls)"
  have "finite ?all" using assms by (simp add: links_fit_def)
  moreover have "map_keys api m \<subset> ?all" using False by auto
  ultimately have "card (map_keys api m) < card ?all" by (rule psubset_card_mono)
  then show ?thesis using assms by (simp add: links_fit_def)
qed simp

lemma links_fit_next:
  assumes "links_fit api n ((p, c) # ls) m" and "map_keys api m' \<subseteq> insert c (map_keys api m)"
  shows "links_fit api n ls m'"
proof -
  let ?r = "map_keys api m \<union> snd ` set ((p, c) # ls)"
  have fin: "finite ?r" using assms(1) by (simp add: links_fit_def)
  have sub: "map_keys api m' \<union> snd ` set ls \<subseteq> ?r" using assms(2) by auto
  have "finite (map_keys api m')"
    by (rule finite_subset [OF assms(2)]) (use assms(1) in \<open>simp add: links_fit_def\<close>)
  moreover have "card (map_keys api m' \<union> snd ` set ls) \<le> card ?r" by (rule card_mono [OF fin sub])
  ultimately show ?thesis using assms(1) unfolding links_fit_def by simp
qed

lemma inherit_watched:
  assumes "bpf_room_ok api n" and "links_fit api n ((p, c) # ls) m"
  obtains m' where "inherit_protection api p c m = (False, m')" and "links_fit api n ls m'"
    and "\<And>d. watched (kmap_of api m') d \<longleftrightarrow>
      watched (kmap_of api m) d \<or> d = c \<and> watched (kmap_of api m) p"
proof (cases "watched (kmap_of api m) p")
  case True
  have fin: "finite (map_keys api m)" using assms(2) by (simp add: links_fit_def)
  obtain m' where upd: "map_update api c [1] m = Inr m'" and keys: "map_keys api m' = insert c (map_keys api m)"
    and look: "\<And>k. map_lookup api k m' = (if k = c then Some [1] else map_lookup api k m)"
    by (rule map_update_room [OF assms(1) fin links_fit_room [OF assms(2)]]) blast
  show thesis
  proof (rule that)
    show "inherit_protection api p c m = (False, m')" using True upd by (simp add: inherit_protection_def)
    show "links_fit api n ls m'" by (rule links_fit_next [OF assms(2)]) (simp add: keys)
    show "watched (kmap_of api m') d \<longleftrightarrow>
        watched (kmap_of api m) d \<or> d = c \<and> watched (kmap_of api m) p" for d
      using True by (auto simp: watched_def kmap_of_def look)
  qed
next
  case False
  show thesis
  proof (rule that)
    show "inherit_protection api p c m = (False, m)" using False by (simp add: inherit_protection_def)
    show "links_fit api n ls m" by (rule links_fit_next [OF assms(2)]) auto
  qed (use False in simp)
qed

text \<open>
  Whatever kind of map it is, a link protects at most its own entry: what is below a moved
  directory and was not protected stays so.
\<close>

lemma watch_step_frame:
  assumes "bpf_api_ok api" and "\<And>p c. new_link en call = Some (p, c) \<Longrightarrow> d \<noteq> c"
    and "watched (kmap_of api (snd (watch_step en api st call m))) d"
  shows "watched (kmap_of api m) d"
proof (cases "is_module_active en st \<and> new_link en call \<noteq> None")
  case False
  then have "watch_step en api st call m = (False, m)"
    by (cases "is_module_active en st"; cases "new_link en call") (simp_all add: watch_step_inactive watch_step_active)
  with assms(3) show ?thesis by simp
next
  case True
  then obtain p c where link: "new_link en call = Some (p, c)" by auto
  with assms(2) have "d \<noteq> c" by blast
  have step: "watch_step en api st call m = inherit_protection api p c m"
    using True link by (simp add: watch_step_active)
  show ?thesis
  proof (cases "\<exists>m'. map_update api c [1] m = Inr m'")
    case True
    then obtain m' where upd: "map_update api c [1] m = Inr m'" by blast
    have "map_lookup api d m' = map_lookup api d m \<or> map_lookup api d m' = None"
      using assms(1) [unfolded bpf_api_ok_def, rule_format, OF upd] \<open>d \<noteq> c\<close> by simp
    then have "watched (kmap_of api m') d \<Longrightarrow> watched (kmap_of api m) d"
      by (auto simp: watched_def kmap_of_def)
    then show ?thesis
      using assms(3) upd by (simp add: step inherit_protection_def split: if_splits)
  next
    case False
    then have "snd (inherit_protection api p c m) = m"
      by (auto simp: inherit_protection_def split: sum.split)
    with assms(3) show ?thesis by (simp add: step)
  qed
qed

lemma in_order_closure:
  assumes "in_order ((p, c) # ls)"
  shows "(r, d) \<in> (insert (p, c) (set ls))\<^sup>* \<longleftrightarrow>
    (r, d) \<in> (set ls)\<^sup>* \<or> r = p \<and> (c, d) \<in> (set ls)\<^sup>*"
proof -
  have "r = p" if "(r, p) \<in> (set ls)\<^sup>*"
    using that assms by (cases rule: rtranclE) force+
  then show ?thesis by (auto simp: rtrancl_insert)
qed

lemma watch_run_protects:
  assumes "bpf_room_ok api n" and "is_module_active en st"
    and "links_fit api n (new_links en calls) m" and "in_order (new_links en calls)"
    and "watch_run en api st calls m = (kills, m')"
  shows "True \<notin> set kills \<and>
    (watched (kmap_of api m') d \<longleftrightarrow>
       (\<exists>r. watched (kmap_of api m) r \<and> (r, d) \<in> (set (new_links en calls))\<^sup>*))"
  using assms(3-5)
proof (induction calls arbitrary: m kills)
  case Nil
  then show ?case by (simp add: new_links_def List.map_filter_def)
next
  case (Cons call calls)
  obtain killed m1 where step: "watch_step en api st call m = (killed, m1)" by force
  obtain ks where run: "watch_run en api st calls m1 = (ks, m')" and kills: "kills = killed # ks"
    using Cons.prems(3) step by (auto split: prod.splits)
  show ?case
  proof (cases "new_link en call")
    case None
    then have "m1 = m" "\<not> killed" using step assms(2) by (simp_all add: watch_step_active)
    moreover from None have "new_links en (call # calls) = new_links en calls"
      by (simp add: new_links_def List.map_filter_def)
    ultimately show ?thesis using Cons.IH [OF _ _ run] Cons.prems(1,2) by (simp add: kills)
  next
    case (Some pc)
    obtain p c where pc: "pc = (p, c)" by force
    with Some have links: "new_links en (call # calls) = (p, c) # new_links en calls"
      by (simp add: new_links_def List.map_filter_def)
    from Cons.prems(2) have ord: "in_order ((p, c) # new_links en calls)" by (simp add: links)
    have inh: "inherit_protection api p c m = (killed, m1)"
      using step Some pc assms(2) by (simp add: watch_step_active)
    obtain "\<not> killed" and fit: "links_fit api n (new_links en calls) m1"
      and step1: "\<And>d. watched (kmap_of api m1) d \<longleftrightarrow>
        watched (kmap_of api m) d \<or> d = c \<and> watched (kmap_of api m) p"
      by (rule inherit_watched [OF assms(1) Cons.prems(1) [unfolded links]]) (use inh in simp)
    moreover have "in_order (new_links en calls)" using ord by simp
    ultimately show ?thesis
      using Cons.IH [OF fit _ run]
      unfolding kills links list.set in_order_closure [OF ord] step1 by blast
  qed
qed

section \<open>A full map\<close>

text \<open>
  \<open>protected_dirs\<close> is an LRU map (\<open>bpf_lru_ok\<close>): beyond its capacity an update drops another
  entry and does not fail.
\<close>

lemma lru_never_kills:
  assumes "bpf_lru_ok api n"
  shows "\<not> fst (inherit_protection api p c m)"
proof -
  obtain m' where "map_update api c [1] m = Inr m'" using assms unfolding bpf_lru_ok_def by metis
  then show ?thesis by (simp add: inherit_protection_def)
qed

lemma lru_run_never_kills: "bpf_lru_ok api n \<Longrightarrow> True \<notin> set (fst (watch_run en api st calls m))"
proof (induction calls arbitrary: m)
  case Nil
  then show ?case by simp
next
  case (Cons call calls)
  have "\<not> fst (watch_step en api st call m)"
  proof (cases "is_module_active en st")
    case True
    then show ?thesis
      using lru_never_kills [OF Cons.prems] by (auto simp: watch_step_active split: option.splits prod.splits)
  qed (simp add: watch_step_inactive)
  moreover obtain killed m1 where "watch_step en api st call m = (killed, m1)" by force
  moreover obtain ks m2 where run: "watch_run en api st calls m1 = (ks, m2)" by force
  moreover have "True \<notin> set ks" using Cons.IH [OF Cons.prems, of m1] by (simp add: run)
  ultimately show ?case by simp
qed

lemma watched_is_key: "watched (kmap_of api m) k \<Longrightarrow> k \<in> map_keys api m"
  by (auto simp: watched_def kmap_of_def map_keys_def split: option.splits)

lemma lru_drops_one:
  assumes "bpf_lru_ok api n" and "finite D" and "n < card D"
  shows "\<exists>d \<in> D. \<not> watched (kmap_of api m) d"
proof (rule ccontr)
  assume "\<not> ?thesis"
  then have all: "watched (kmap_of api m) d" if "d \<in> D" for d using that by simp
  have "D \<subseteq> map_keys api m" by (rule subsetI) (rule watched_is_key [OF all])
  then have "card D \<le> card (map_keys api m)"
    using assms(1) by (intro card_mono) (simp_all add: bpf_lru_ok_def)
  also have "\<dots> \<le> n" using assms(1) by (simp add: bpf_lru_ok_def)
  finally show False using assms(3) by simp
qed

section \<open>Properties\<close>

text \<open>
  On a watchlist of \<open>n\<close> entries the defence against exhaustion never fires: after more
  than \<open>n\<close> new directories nobody was killed, and one of them is not protected.
\<close>

theorem full_watchlist_fails_open:
  assumes "bpf_lru_ok api n" and "n < card (snd ` set (new_links en calls))"
  shows "True \<notin> set (fst (watch_run en api st calls m)) \<and>
    (\<exists>d \<in> snd ` set (new_links en calls). \<not> watched (kmap_of api (snd (watch_run en api st calls m))) d)"
  using lru_run_never_kills [OF assms(1)] lru_drops_one [OF assms(1) _ assms(2)] by simp

definition demo_inode :: "u64 \<Rightarrow> inode" where
  "demo_inode n = \<lparr>i_ino = n, i_dev = 8, i_mode = 0x41ED, i_nlink = 2, s_magic = 0xEF53\<rparr>"

definition demo_dentry :: "u64 \<Rightarrow> dentry" where
  "demo_dentry n = \<lparr>d_inode = Some (demo_inode n), d_dev = 8\<rparr>"

definition demo_mkdirs :: "vfs_call list" where
  "demo_mkdirs = [MkdirOld (demo_inode 2) (demo_dentry 11) 0, MkdirNew (demo_inode 2) (demo_dentry 12) 0x1000]"

lemma demo_links:
  "new_links en demo_mkdirs = [(dir_id en 2 8, dir_id en 11 8), (dir_id en 2 8, dir_id en 12 8)]"
  by (simp add: new_links_def List.map_filter_def demo_mkdirs_def demo_inode_def demo_dentry_def
      extract_dir_id_from_inode_def extract_dir_id_from_dentry_def word_le_nat_alt)

theorem full_watchlist_fails_open_witness:
  "\<exists>d \<in> snd ` set (new_links Little demo_mkdirs).
     \<not> watched (kmap_of (lru_map 1) (snd (watch_run Little (lru_map 1) Map.empty demo_mkdirs
          [(dir_id Little 2 8, [1])]))) d"
proof -
  have "1 < card (snd ` set (new_links Little demo_mkdirs))"
    by (simp add: demo_links)
  from full_watchlist_fails_open [OF lru_map_ok this] show ?thesis by simp
qed

end
