(* ===== verification/BB_Kernel_Exec.thy ===== *)
theory BB_Kernel_Exec
  imports BB_Kernel_Watch BB_Exec_Block
begin

text \<open>
  \<open>bpf/exec_block.bpf.c\<close>: the hook that decides on every execution, from the directory of
  the file and, for files without a name, from the seals of its memory. The lemmas give the
  exact verdict, what the daemon logs of a blocked execution, and what the inheritance of
  the watchlist does and does not achieve for programs staged in new and in moved
  directories.
\<close>

section \<open>The hook\<close>

text \<open>
  What the relocated reads of \<open>shmem_inode_info\<close> find: whether the kernel has the field, its
  offset and the size of the structure, and the seals (\<open>None\<close> when the read fails).
\<close>

record shmem_info =
  sh_exists :: bool
  sh_offset :: nat
  sh_size :: nat
  sh_seals :: "u32 option"

record exec_file =
  xf_dentry :: "dentry option"
  xf_parent :: "dentry option"
  xf_inode :: inode
  xf_shmem :: shmem_info

record exec_call =
  xc_state :: kmap
  xc_protected :: kmap
  xc_task :: task
  xc_file :: "exec_file option"
  xc_path_buffer :: bool
  xc_d_path :: dpath
  xc_reserved :: "u8 list option"

definition TMPFS_MAGIC :: u32 where "TMPFS_MAGIC = 0x01021994"
definition RAMFS_MAGIC :: u32 where "RAMFS_MAGIC = 0x858458f6"
definition F_SEAL_WRITE :: u32 where "F_SEAL_WRITE = 8"

definition exec_path_buf :: "dpath \<Rightarrow> u8 list" where
  "exec_path_buf dp =
     (if dp_len dp < 0
      then (if dp_len dp = - ENAMETOOLONG then (dp_buf dp)[4095 := 0] else (dp_buf dp)[0 := 0])
      else if dp_len dp = 0 then (dp_buf dp)[0 := 0]
      else dp_buf dp)"

definition exec_record :: "endian \<Rightarrow> u32 \<Rightarrow> u8 list \<Rightarrow> u8 list \<Rightarrow> u8 list" where
  "exec_record en pid path_buf mem =
     u32_to_ne_bytes en pid @ probe_read_str path_buf (take 4096 (drop 4 mem))"

definition block_exec :: "endian \<Rightarrow> exec_call \<Rightarrow> hook_result" where
  "block_exec en xc =
     (if \<not> xc_path_buffer xc then allow
      else deny (- EPERM)
             (submit (xc_reserved xc)
               (exec_record en (t_tgid (xc_task xc)) (exec_path_buf (xc_d_path xc)))))"

definition exec_block_bprm_check :: "endian \<Rightarrow> exec_call \<Rightarrow> hook_result" where
  "exec_block_bprm_check en xc =
     (if \<not> is_module_active en (xc_state xc) then allow
      else case xc_file xc of
             None \<Rightarrow> allow
           | Some prog \<Rightarrow>
               (case (xf_dentry prog, xf_parent prog) of
                  (Some _, Some par) \<Rightarrow>
                    (if watched (xc_protected xc) (extract_dir_id_from_dentry en par)
                     then block_exec en xc
                     else if i_nlink (xf_inode prog) = 0
                     then (if s_magic (xf_inode prog) \<noteq> TMPFS_MAGIC \<and> s_magic (xf_inode prog) \<noteq> RAMFS_MAGIC
                           then allow
                           else if \<not> sh_exists (xf_shmem prog) then allow
                           else if sh_offset (xf_shmem prog) = 0 \<or>
                                   sh_offset (xf_shmem prog) > sh_size (xf_shmem prog) then allow
                           else case sh_seals (xf_shmem prog) of
                                  None \<Rightarrow> allow
                                | Some seals \<Rightarrow>
                                    if seals AND F_SEAL_WRITE = 0 then block_exec en xc else allow)
                     else allow)
                | _ \<Rightarrow> allow))"

section \<open>The verdict\<close>

definition in_watched_dir :: "endian \<Rightarrow> kmap \<Rightarrow> exec_file \<Rightarrow> bool" where
  "in_watched_dir en protected prog \<longleftrightarrow>
     (case xf_parent prog of
        None \<Rightarrow> False | Some par \<Rightarrow> watched protected (extract_dir_id_from_dentry en par))"

definition unsealed_memory :: "exec_file \<Rightarrow> bool" where
  "unsealed_memory prog \<longleftrightarrow>
     i_nlink (xf_inode prog) = 0 \<and>
     (s_magic (xf_inode prog) = TMPFS_MAGIC \<or> s_magic (xf_inode prog) = RAMFS_MAGIC) \<and>
     sh_exists (xf_shmem prog) \<and> 0 < sh_offset (xf_shmem prog) \<and>
     sh_offset (xf_shmem prog) \<le> sh_size (xf_shmem prog) \<and>
     (case sh_seals (xf_shmem prog) of None \<Rightarrow> False | Some seals \<Rightarrow> \<not> bit seals 3)"

lemma seal_bit: "(seals :: u32) AND F_SEAL_WRITE = 0 \<longleftrightarrow> \<not> bit seals 3"
proof -
  have mask: "F_SEAL_WRITE = 2 ^ 3" by (simp add: F_SEAL_WRITE_def)
  show ?thesis unfolding mask by (rule and_exp_eq_0_iff_not_bit)
qed

lemma exec_block_cases:
  assumes "xc_file xc = Some prog" and "xf_dentry prog \<noteq> None" and "xf_parent prog \<noteq> None"
  shows "exec_block_bprm_check en xc =
    (if is_module_active en (xc_state xc) \<and> (in_watched_dir en (xc_protected xc) prog \<or> unsealed_memory prog)
     then block_exec en xc else allow)"
  using assms
  by (auto simp: exec_block_bprm_check_def in_watched_dir_def unsealed_memory_def seal_bit
      split: option.splits)

lemma exec_block_no_path: 
  "xc_file xc = None \<Longrightarrow> exec_block_bprm_check en xc = allow"
  "xc_file xc = Some prog \<Longrightarrow> xf_dentry prog = None \<or> xf_parent prog = None \<Longrightarrow>
   exec_block_bprm_check en xc = allow"
  by (auto simp: exec_block_bprm_check_def split: option.splits)

lemma exec_block_events:
  "d \<in> set (hr_events (exec_block_bprm_check en xc)) \<Longrightarrow>
   \<exists>mem. xc_reserved xc = Some mem \<and>
     d = exec_record en (t_tgid (xc_task xc)) (exec_path_buf (xc_d_path xc)) mem"
  by (auto simp: exec_block_bprm_check_def block_exec_def submit_member split: option.splits if_splits)

lemma exec_block_one: "length (hr_events (exec_block_bprm_check en xc)) \<le> 1"
  by (auto simp: exec_block_bprm_check_def block_exec_def submit_def split: option.splits)

section \<open>The record\<close>

text \<open>The ring hands out as many bytes as the structure has, holding anything.\<close>

definition exec_sound :: "exec_call \<Rightarrow> bool" where
  "exec_sound xc \<longleftrightarrow> (case xc_reserved xc of None \<Rightarrow> True | Some mem \<Rightarrow> length mem = 4100)"

definition exec_path_bytes :: "exec_call \<Rightarrow> u8 list" where
  "exec_path_bytes xc = take 4095 (c_string (exec_path_buf (xc_d_path xc)))"

definition exec_reported :: "exec_call \<Rightarrow> exec_alert" where
  "exec_reported xc = \<lparr>exec_pid = t_tgid (xc_task xc), exec_path = shown (exec_path_bytes xc)\<rparr>"

lemma exec_path_resolved: "resolves_to (xc_d_path xc) p \<Longrightarrow> exec_path_bytes xc = p"
  by (auto simp: exec_path_bytes_def exec_path_buf_def resolves_to_def)

lemma exec_record_view:
  assumes "exec_sound xc" and "d \<in> set (hr_events (exec_block_bprm_check en xc))"
  shows "4100 \<le> length d \<and> exec_view en d = exec_reported xc \<and> exec_warnings d = noise (exec_path_bytes xc)"
proof -
  obtain mem where mem: "xc_reserved xc = Some mem"
    and d: "d = exec_record en (t_tgid (xc_task xc)) (exec_path_buf (xc_d_path xc)) mem"
    using exec_block_events [OF assms(2)] by blast
  let ?buf = "take 4096 (drop 4 mem)"
  let ?c = "\<lparr>xs_pid = t_tgid (xc_task xc), xs_path = probe_read_str (exec_path_buf (xc_d_path xc)) ?buf\<rparr>"
  have len: "length ?buf = 4096" using assms(1) mem by (simp add: exec_sound_def)
  have "d = exec_image en ?c" by (simp add: d exec_record_def exec_image_def)
  moreover have "exec_sized ?c"
    using len by (subst exec_sized_def, subst exec_struct.simps, subst length_probe_read_str) simp_all
  moreover have "c_string (xs_path ?c) = exec_path_bytes xc"
    using len by (simp add: exec_path_bytes_def)
  ultimately show ?thesis
    using exec_layout.length_image exec_layout.view_image exec_layout.warnings_image
    by (simp add: exec_meaning_def exec_grumbles_def exec_reported_def)
qed

interpretation exec_hook: reporting_hook exec_block_spec en 4100 "exec_view en" exec_warnings
  "exec_block_bprm_check en" "\<lambda>xc. is_module_active en (xc_state xc)" exec_sound exec_reported
  "\<lambda>xc. noise (exec_path_bytes xc)" for en
proof unfold_locales
  fix c d
  show "\<not> is_module_active en (xc_state c) \<Longrightarrow> exec_block_bprm_check en c = allow"
    by (simp add: exec_block_bprm_check_def)
  show "length (hr_events (exec_block_bprm_check en c)) \<le> 1" by (rule exec_block_one)
qed (rule exec_record_view)

section \<open>Properties\<close>

text \<open>
  C32: the hook denies an execution exactly when the module is active, the path buffer is
  available, and the file lies directly in a watched directory or is unlinked, unsealed
  memory; in every other case it does nothing at all.
\<close>

theorem exec_verdict:
  "(hr_ret (exec_block_bprm_check en xc) = - EPERM \<longleftrightarrow>
      is_module_active en (xc_state xc) \<and> xc_path_buffer xc \<and>
      (\<exists>prog. xc_file xc = Some prog \<and> xf_dentry prog \<noteq> None \<and> xf_parent prog \<noteq> None \<and>
         (in_watched_dir en (xc_protected xc) prog \<or> unsealed_memory prog))) \<and>
   (exec_block_bprm_check en xc = allow \<or> hr_ret (exec_block_bprm_check en xc) = - EPERM)"
proof (cases "\<exists>prog. xc_file xc = Some prog \<and> xf_dentry prog \<noteq> None \<and> xf_parent prog \<noteq> None")
  case True
  then obtain fl where "xc_file xc = Some fl" "xf_dentry fl \<noteq> None" "xf_parent fl \<noteq> None"
    by blast
  then show ?thesis
    using exec_block_cases [of xc fl en] by (auto simp: block_exec_def)
next
  case False
  then have "exec_block_bprm_check en xc = allow"
    using exec_block_no_path by (cases "xc_file xc") blast+
  with False show ?thesis by auto
qed


text \<open>
  C9: starting from any watched directory, every directory that is itself created or moved
  below it while the module is active, at any depth and in any order of calls that links a
  directory before its own entries, refuses the execution of the programs in it while the
  module is active and the path buffer at hand, and no caller is killed, as long as the
  watchlist, hashed or LRU, has room for the directories it holds and those that are linked.
\<close>

theorem staging_covered:
  assumes "bpf_room_ok api n" and "is_module_active en st"
    and "links_fit api n (new_links en calls) m" and "in_order (new_links en calls)"
    and "watch_run en api st calls m = (kills, m')"
    and "watched (kmap_of api m) r" and "(r, extract_dir_id_from_dentry en par) \<in> (set (new_links en calls))\<^sup>*"
    and "xc_state xc = st" and "xc_protected xc = kmap_of api m'" and "xc_path_buffer xc"
    and "xc_file xc = Some prog" and "xf_dentry prog \<noteq> None" and "xf_parent prog = Some par"
  shows "True \<notin> set kills \<and> hr_ret (exec_block_bprm_check en xc) = - EPERM"
proof -
  have "watched (kmap_of api m') (extract_dir_id_from_dentry en par)" and kills: "True \<notin> set kills"
    using watch_run_protects [OF assms(1-5)] assms(6,7) by blast+
  then have "in_watched_dir en (xc_protected xc) prog"
    using assms(9,13) by (simp add: in_watched_dir_def)
  then have "exec_block_bprm_check en xc = block_exec en xc"
    using exec_block_cases [of xc prog en] assms(2,8,11-13) by simp
  then show ?thesis using kills assms(10) by (simp add: block_exec_def)
qed

definition demo_exec_file :: "u64 \<Rightarrow> exec_file" where
  "demo_exec_file dir =
     \<lparr>xf_dentry = Some (demo_dentry 99), xf_parent = Some (demo_dentry dir),
      xf_inode = demo_inode 99, xf_shmem = \<lparr>sh_exists = False, sh_offset = 0, sh_size = 0, sh_seals = None\<rparr>\<rparr>"

definition demo_program :: "u64 \<Rightarrow> kmap \<Rightarrow> exec_call" where
  "demo_program dir protected =
     \<lparr>xc_state = Map.empty, xc_protected = protected,
      xc_task = \<lparr>t_tgid = 7, t_pid = 7, t_uid = 1000, t_comm = None\<rparr>,
      xc_file = Some (demo_exec_file dir),
      xc_path_buffer = True,
      xc_d_path = \<lparr>dp_len = 7, dp_buf = map of_nat (str ''/tmp/x'') @ [0, 9, 9]\<rparr>,
      xc_reserved = Some (replicate 4100 7)\<rparr>"

definition demo_watchlist :: "(u8 list \<times> u8 list) list" where
  "demo_watchlist = [(dir_id Little 2 8, [1])]"

lemma demo_file: "extract_dir_id_from_dentry en (demo_dentry n) = dir_id en n 8"
  by (simp add: extract_dir_id_from_dentry_def demo_dentry_def demo_inode_def)

lemma demo_nlink: "i_nlink (demo_inode n) = 2"
  by (simp add: demo_inode_def)

lemma demo_program_sound: "exec_sound (demo_program n protected)"
  by (simp add: exec_sound_def demo_program_def)

lemma demo_program_path: "resolves_to (xc_d_path (demo_program n protected)) (kernel_string (str ''/tmp/x''))"
  by (simp add: resolves_to_def demo_program_def kernel_string_def str_def)

lemma demo_program_blocked:
  assumes "watched protected (dir_id en n 8)"
  shows "hr_events (exec_block_bprm_check en (demo_program n protected)) =
    [exec_record en 7 (map of_nat (str ''/tmp/x'') @ [0, 9, 9]) (replicate 4100 7)]"
  using assms
  by (simp add: exec_block_bprm_check_def block_exec_def exec_path_buf_def demo_program_def
      demo_exec_file_def is_module_active_def demo_file)

lemma demo_watchlist_watched: "watched (kmap_of (hash_map 8) demo_watchlist) (dir_id Little 2 8)"
  by (simp add: watched_def kmap_of_def hash_map_def demo_watchlist_def)


text \<open>On an LRU map of eight entries, as \<open>protected_dirs\<close> is one of 8192.\<close>

theorem staging_covered_witness:
  "hr_ret (exec_block_bprm_check Little (demo_program 12
     (kmap_of (lru_map 8) (snd (watch_run Little (lru_map 8) Map.empty demo_mkdirs demo_watchlist))))) = - EPERM"
proof -
  let ?run = "watch_run Little (lru_map 8) Map.empty demo_mkdirs demo_watchlist"
  have active: "is_module_active Little Map.empty" by (simp add: is_module_active_def)
  have keys: "map_keys (lru_map 8) demo_watchlist = {dir_id Little 2 8}"
    by (simp add: lru_map_keys newest_def demo_watchlist_def)
  have fit: "links_fit (lru_map 8) 8 (new_links Little demo_mkdirs) demo_watchlist"
    by (simp add: links_fit_def keys demo_links)
  have start: "watched (kmap_of (lru_map 8) demo_watchlist) (dir_id Little 2 8)"
    by (simp add: watched_def kmap_of_def lru_map_def newest_def demo_watchlist_def)
  have ord: "in_order (new_links Little demo_mkdirs)" by (simp add: demo_links)
  have "(dir_id Little 2 8, extract_dir_id_from_dentry Little (demo_dentry 12)) \<in> (set (new_links Little demo_mkdirs))\<^sup>*"
    by (auto simp: demo_links demo_file)
  from staging_covered [OF bpf_lru_room [OF lru_map_ok] active fit ord _ start this, of "fst ?run" "snd ?run"
      "demo_program 12 (kmap_of (lru_map 8) (snd ?run))" "demo_exec_file 12"]
  show ?thesis by (simp add: demo_program_def demo_exec_file_def)
qed

text \<open>
  A directory that is moved below a watched one is protected, but not what is below
  it: unless they were watched before, programs in its subdirectories still run.
\<close>

theorem moved_subtree_runs:
  assumes "bpf_api_ok api" and "new_link en call = Some (p, c)"
    and "extract_dir_id_from_dentry en sub \<noteq> c"
    and "\<not> watched (kmap_of api m) (extract_dir_id_from_dentry en sub)"
    and "xc_protected xc = kmap_of api (snd (watch_step en api st call m))"
    and "xc_file xc = Some prog" and "xf_parent prog = Some sub" and "i_nlink (xf_inode prog) \<noteq> 0"
  shows "exec_block_bprm_check en xc = allow"
proof -
  have "\<not> watched (xc_protected xc) (extract_dir_id_from_dentry en sub)"
    using watch_step_frame [OF assms(1), of en call "extract_dir_id_from_dentry en sub" st m] assms(2-5) by auto
  then have "\<not> in_watched_dir en (xc_protected xc) prog" "\<not> unsealed_memory prog"
    using assms(7,8) by (simp_all add: in_watched_dir_def unsealed_memory_def)
  then show ?thesis
    using exec_block_cases [OF assms(6), of en] exec_block_no_path(2) [OF assms(6), of en] assms(7) by auto
qed

text \<open>The directory 21, with the directory 22 in it, is moved into the watched directory 2.\<close>

theorem moved_subtree_runs_witness:
  "exec_block_bprm_check Little (demo_program 22
     (kmap_of (hash_map 8) (snd (watch_step Little (hash_map 8) Map.empty
        (RenameOld (demo_inode 2) (demo_dentry 21) 0) demo_watchlist)))) = allow"
proof -
  have ok: "bpf_api_ok (hash_map 8)" using hash_map_ok by (rule bpf_hash_api)
  have key: "extract_dir_id_from_inode Little (demo_inode 2) = dir_id Little 2 8"
    by (simp add: extract_dir_id_from_inode_def demo_inode_def)
  show ?thesis
    by (rule moved_subtree_runs [OF ok, where call = "RenameOld (demo_inode 2) (demo_dentry 21) 0" and
          p = "dir_id Little 2 8" and c = "dir_id Little 21 8" and sub = "demo_dentry 22" and
          m = demo_watchlist and st = Map.empty and prog = "demo_exec_file 22"])
      (simp_all add: demo_file key demo_program_def demo_exec_file_def demo_watchlist_def watched_def
        kmap_of_def hash_map_def demo_nlink)
qed

end
