(* ===== verification/BB_Kernel_Shield.thy ===== *)
theory BB_Kernel_Shield
  imports BB_Kernel BB_Shield
begin

text \<open>
  \<open>bpf/shield.bpf.c\<close>: the hook on opening files, which keeps the daemon's own files
  unwritable for ordinary users, and the hooks on \<open>bpf\<close> and \<open>syslog\<close>. Together with the
  initialisation in \<open>modules/src/shield.rs\<close> the lemmas say which opens are refused after a
  start of the daemon.
\<close>

section \<open>The hooks\<close>

record open_call =
  oc_state :: kmap
  oc_files :: kmap
  oc_task :: task
  oc_flags :: u32
  oc_inode :: inode
  oc_path_buffer :: bool
  oc_d_path :: dpath
  oc_reserved :: "u8 list option"

definition O_WRONLY :: u32 where "O_WRONLY = 1"
definition O_RDWR :: u32 where "O_RDWR = 2"
definition O_TRUNC :: u32 where "O_TRUNC = 0x200"

definition S_ISREG :: "16 word \<Rightarrow> bool" where
  "S_ISREG m \<longleftrightarrow> m AND 0xF000 = 0x8000"

definition for_writing :: "u32 \<Rightarrow> bool" where
  "for_writing f_flags \<longleftrightarrow>
     f_flags AND O_WRONLY \<noteq> 0 \<or> f_flags AND O_RDWR \<noteq> 0 \<or> f_flags AND O_TRUNC \<noteq> 0"

definition shield_record :: "endian \<Rightarrow> u32 \<Rightarrow> u32 \<Rightarrow> u8 list \<Rightarrow> u8 list \<Rightarrow> u8 list" where
  "shield_record en pid action target mem =
     u32_to_ne_bytes en pid @ u32_to_ne_bytes en action @ target"

definition shield_target_bytes :: "open_call \<Rightarrow> u8 list" where
  "shield_target_bytes oc =
     (if oc_path_buffer oc \<and> dp_len (oc_d_path oc) > 0 \<and> dp_len (oc_d_path oc) \<noteq> - ENAMETOOLONG
      then probe_read_str (dp_buf (oc_d_path oc)) (replicate 4096 0)
      else replicate 4096 0)"

definition shield_file_open :: "endian \<Rightarrow> open_call \<Rightarrow> hook_result" where
  "shield_file_open en oc =
     (if \<not> is_module_active en (oc_state oc) then allow
      else if \<not> for_writing (oc_flags oc) then allow
      else if get_global_uid (oc_task oc) = 0 then allow
      else if \<not> S_ISREG (i_mode (oc_inode oc)) then allow
      else if watched (oc_files oc) (extract_dir_id_from_inode en (oc_inode oc))
      then deny (- EACCES)
             (submit (oc_reserved oc)
               (shield_record en (t_tgid (oc_task oc)) 1 (shield_target_bytes oc)))
      else allow)"

record privilege_call =
  pc_state :: kmap
  pc_task :: task
  pc_reserved :: "u8 list option"

definition enforce_privilege :: "endian \<Rightarrow> u32 \<Rightarrow> rstr \<Rightarrow> privilege_call \<Rightarrow> hook_result" where
  "enforce_privilege en action target_str pc =
     (if \<not> is_module_active en (pc_state pc) then allow
      else if get_global_uid (pc_task pc) \<noteq> 0
      then deny (- EPERM)
             (submit (pc_reserved pc)
               (shield_record en (t_tgid (pc_task pc)) action
                 (probe_read_str (map of_nat target_str) (replicate 4096 0))))
      else allow)"

definition shield_bpf :: "endian \<Rightarrow> privilege_call \<Rightarrow> hook_result" where
  "shield_bpf en = enforce_privilege en 2 (str ''bpf() syscall invocation'')"

definition shield_syslog :: "endian \<Rightarrow> privilege_call \<Rightarrow> hook_result" where
  "shield_syslog en = enforce_privilege en 3 (str ''kernel syslog/dmesg read'')"

section \<open>Verdicts\<close>

lemma shield_file_open_denies:
  "hr_ret (shield_file_open en oc) = - EACCES \<longleftrightarrow>
   is_module_active en (oc_state oc) \<and> for_writing (oc_flags oc) \<and> t_uid (oc_task oc) \<noteq> 0 \<and>
   S_ISREG (i_mode (oc_inode oc)) \<and> watched (oc_files oc) (extract_dir_id_from_inode en (oc_inode oc))"
  by (simp add: shield_file_open_def get_global_uid_def)

lemma shield_file_open_otherwise:
  "shield_file_open en oc = allow \<or> hr_ret (shield_file_open en oc) = - EACCES"
  by (simp add: shield_file_open_def)

lemma shield_file_open_events:
  "d \<in> set (hr_events (shield_file_open en oc)) \<Longrightarrow>
   d = u32_to_ne_bytes en (t_tgid (oc_task oc)) @ u32_to_ne_bytes en 1 @ shield_target_bytes oc"
  by (auto simp: shield_file_open_def submit_member shield_record_def split: if_splits)

section \<open>The records\<close>

definition shield_resolved :: "open_call \<Rightarrow> bool" where
  "shield_resolved oc \<longleftrightarrow> oc_path_buffer oc \<and> dp_len (oc_d_path oc) > 0"

definition shield_target_name :: "open_call \<Rightarrow> u8 list" where
  "shield_target_name oc = (if shield_resolved oc then take 4095 (path_of (oc_d_path oc)) else [])"

definition open_struct_of :: "open_call \<Rightarrow> shield_struct" where
  "open_struct_of oc =
     \<lparr>ss_pid = t_tgid (oc_task oc), ss_action_type = 1, ss_target = shield_target_bytes oc\<rparr>"

definition open_reported :: "open_call \<Rightarrow> shield_alert" where
  "open_reported oc =
     \<lparr>shield_pid = t_tgid (oc_task oc), shield_action_type = 1,
      shield_target = shown (shield_target_name oc)\<rparr>"

lemma shield_target_array:
  "length (shield_target_bytes oc) = 4096" "c_string (shield_target_bytes oc) = shield_target_name oc"
proof -
  have zeros: "c_string (replicate 4096 0) = []" by (simp add: c_string_def)
  show "length (shield_target_bytes oc) = 4096" by (simp add: shield_target_bytes_def)
  show "c_string (shield_target_bytes oc) = shield_target_name oc"
    using zeros by (auto simp: shield_target_bytes_def shield_target_name_def shield_resolved_def path_of_def
        ENAMETOOLONG_def)
qed

interpretation shield_open_hook: reporting_hook shield_spec en 4104 "shield_view en" shield_warnings
  "shield_file_open en" "\<lambda>oc. is_module_active en (oc_state oc)" "\<lambda>_. True" open_reported
  "\<lambda>oc. noise (shield_target_name oc)" for en
proof unfold_locales
  fix c d
  show "\<not> is_module_active en (oc_state c) \<Longrightarrow> shield_file_open en c = allow"
    by (simp add: shield_file_open_def)
  show "length (hr_events (shield_file_open en c)) \<le> 1"
    by (simp add: shield_file_open_def submit_def split: option.split)
  assume "d \<in> set (hr_events (shield_file_open en c))"
  then have "d = shield_image en (open_struct_of c)" and "shield_sized (open_struct_of c)"
    using shield_file_open_events [of d en c] shield_target_array [of c]
    by (auto simp: shield_image_def shield_sized_def open_struct_of_def)
  then show "4104 \<le> length d \<and> shield_view en d = open_reported c \<and>
      shield_warnings d = noise (shield_target_name c)"
    using shield_layout.length_image shield_layout.view_image shield_layout.warnings_image
    by (simp add: shield_meaning_def shield_grumbles_def open_struct_of_def open_reported_def shield_target_array)
qed

definition privilege_reported :: "u32 \<Rightarrow> rstr \<Rightarrow> privilege_call \<Rightarrow> shield_alert" where
  "privilege_reported action target pc =
     \<lparr>shield_pid = t_tgid (pc_task pc), shield_action_type = action, shield_target = target\<rparr>"

lemma privilege_reads_back:
  assumes "fits_array 4096 target" and "d \<in> set (hr_events (enforce_privilege en action target pc))"
  shows "4104 \<le> length d \<and> shield_view en d = privilege_reported action target pc \<and> shield_warnings d = []"
proof -
  let ?c = "\<lparr>ss_pid = t_tgid (pc_task pc), ss_action_type = action, ss_target = c_char_array 4096 target\<rparr>"
  have "d = shield_image en ?c"
    using assms(2) c_char_array_zeros [OF assms(1)]
    by (auto simp: enforce_privilege_def submit_member shield_record_def shield_image_def
        kernel_string_def split: if_splits)
  moreover have "shield_sized ?c" using assms(1) by (simp add: shield_sized_def)
  ultimately show ?thesis
    using shield_layout.length_image shield_layout.view_image shield_layout.warnings_image
      shown_literal [OF assms(1)]
    by (simp add: shield_meaning_def shield_grumbles_def privilege_reported_def)
qed

lemma privilege_targets: "fits_array 4096 (str ''bpf() syscall invocation'')"
  "fits_array 4096 (str ''kernel syslog/dmesg read'')"
  by (simp_all add: fits_array_def printable_def str_def)

interpretation shield_bpf_hook: reporting_hook shield_spec en 4104 "shield_view en" shield_warnings
  "shield_bpf en" "\<lambda>pc. is_module_active en (pc_state pc)" "\<lambda>_. True"
  "privilege_reported 2 (str ''bpf() syscall invocation'')" "\<lambda>_. []" for en
  by unfold_locales
    (use privilege_reads_back [OF privilege_targets(1)] in
      \<open>auto simp: shield_bpf_def enforce_privilege_def submit_def split: option.splits\<close>)

interpretation shield_syslog_hook: reporting_hook shield_spec en 4104 "shield_view en" shield_warnings
  "shield_syslog en" "\<lambda>pc. is_module_active en (pc_state pc)" "\<lambda>_. True"
  "privilege_reported 3 (str ''kernel syslog/dmesg read'')" "\<lambda>_. []" for en
  by unfold_locales
    (use privilege_reads_back [OF privilege_targets(2)] in
      \<open>auto simp: shield_syslog_def enforce_privilege_def submit_def split: option.splits\<close>)

lemma for_writing_bits: "for_writing f \<longleftrightarrow> bit f 0 \<or> bit f 1 \<or> bit f 9"
proof -
  have masks: "O_WRONLY = 2 ^ 0" "O_RDWR = 2 ^ 1" "O_TRUNC = 2 ^ 9"
    by (simp_all add: O_WRONLY_def O_RDWR_def O_TRUNC_def)
  show ?thesis unfolding for_writing_def masks by (simp only: and_exp_eq_0_iff_not_bit not_not)
qed

section \<open>Properties\<close>

text \<open>
  C16: after the module's initialisation on the empty map, the hook refuses to open a file
  exactly when the module is active, the open is for writing or truncating, the caller is
  not root, and the file is a regular one with the hardware key of one of the daemon's
  files; in particular each file that one of the two paths named at the start.
\<close>

theorem core_files_immutable:
  assumes "mp_get_map (su_provider su) (str ''protected_files'') p = Inr m"
    and "map_keys (su_api su) m = {}"
    and "bpf_hash_ok (su_api su) (unat (the (map_of (snd (shield_capacities (su_host su))) (str ''protected_files''))))"
  shows "\<exists>m'. shield_init su p = ([], Inr (), mp_store (su_provider su) (str ''protected_files'') m' p) \<and>
    (\<forall>oc. oc_files oc = kmap_of (su_api su) m' \<longrightarrow>
       (hr_ret (shield_file_open (su_endian su) oc) = - EACCES \<longleftrightarrow>
          is_module_active (su_endian su) (oc_state oc) \<and>
          (bit (oc_flags oc) 0 \<or> bit (oc_flags oc) 1 \<or> bit (oc_flags oc) 9) \<and>
          t_uid (oc_task oc) \<noteq> 0 \<and> S_ISREG (i_mode (oc_inode oc)) \<and>
          extract_dir_id_from_inode (su_endian su) (oc_inode oc)
            \<in> path_keys (su_endian su) (su_host su) shield_target_files)) \<and>
    (\<forall>path \<in> set shield_target_files. \<forall>i. names_file (su_host su) path i \<longrightarrow>
       extract_dir_id_from_inode (su_endian su) i
         \<in> path_keys (su_endian su) (su_host su) shield_target_files)"
proof -
  have "bpf_hash_ok (su_api su) 2" using assms(3) by (simp add: shield_capacities_def)
  from shield_init_fresh [OF assms(1,2) this] obtain m' where
    init: "shield_init su p = ([], Inr (), mp_store (su_provider su) (str ''protected_files'') m' p)"
    and look: "\<And>k. map_lookup (su_api su) k m' =
      (if k \<in> path_keys (su_endian su) (su_host su) shield_target_files then Some protected_value else None)"
    by blast
  show ?thesis
    by (rule exI [of _ m'])
      (simp add: init shield_file_open_denies for_writing_bits watched_iff_key [OF look] names_file_key)
qed

definition demo_config_inode :: inode where
  "demo_config_inode =
     \<lparr>i_ino = 30, i_dev = 0x800002, i_mode = 0x81A4, i_nlink = 1, s_magic = 0xEF53\<rparr>"

definition demo_open :: "kmap \<Rightarrow> open_call" where
  "demo_open files =
     \<lparr>oc_state = Map.empty, oc_files = files,
      oc_task = \<lparr>t_tgid = 7, t_pid = 7, t_uid = 1000, t_comm = None\<rparr>,
      oc_flags = 1, oc_inode = demo_config_inode, oc_path_buffer = True,
      oc_d_path = \<lparr>dp_len = - 36, dp_buf = replicate 4096 1\<rparr>, oc_reserved = None\<rparr>"

lemma demo_names_config:
  "names_file (su_host shield_demo_ctx) (str ''/etc/bouclier-bleu/config.toml'') demo_config_inode"
  unfolding names_file_def
  by (rule exI [of _ "\<lparr>of_meta = Some \<lparr>md_ino = 30, md_dev = 2050\<rparr>, of_xattr = \<lambda>_. None\<rparr>"],
      rule exI [of _ "\<lparr>md_ino = 30, md_dev = 2050\<rparr>"], rule exI [of _ 8], rule exI [of _ 2])
    (simp add: shield_demo_ctx_def demo_config_inode_def stat_of_def gnu_dev_makedev_def)

theorem core_files_immutable_witness:
  "\<exists>m'. shield_init shield_demo_ctx [] = ([], Inr (), m') \<and>
     hr_ret (shield_file_open Little (demo_open (kmap_of (hash_map 2) m'))) = - EACCES"
proof -
  have "map_keys (hash_map 2) [] = {}" by (simp add: map_keys_def hash_map_def)
  then obtain m' where m': "shield_init shield_demo_ctx [] = ([], Inr (), m')"
    and deny: "\<And>oc. oc_files oc = kmap_of (hash_map 2) m' \<Longrightarrow>
      hr_ret (shield_file_open Little oc) = - EACCES \<longleftrightarrow>
        is_module_active Little (oc_state oc) \<and>
        (bit (oc_flags oc) 0 \<or> bit (oc_flags oc) 1 \<or> bit (oc_flags oc) 9) \<and>
        t_uid (oc_task oc) \<noteq> 0 \<and> S_ISREG (i_mode (oc_inode oc)) \<and>
        extract_dir_id_from_inode Little (oc_inode oc)
          \<in> path_keys Little (su_host shield_demo_ctx) shield_target_files"
    and keys: "\<And>path i. path \<in> set shield_target_files \<Longrightarrow> names_file (su_host shield_demo_ctx) path i \<Longrightarrow>
       extract_dir_id_from_inode Little i \<in> path_keys Little (su_host shield_demo_ctx) shield_target_files"
    using core_files_immutable [of shield_demo_ctx "[]" "[]"] hash_map_ok [of 2]
    by (auto simp: shield_demo_ctx_def shield_capacities_def)
  have "extract_dir_id_from_inode Little demo_config_inode
      \<in> path_keys Little (su_host shield_demo_ctx) shield_target_files"
    by (rule keys [OF _ demo_names_config]) (simp add: shield_target_files_def)
  then have "hr_ret (shield_file_open Little (demo_open (kmap_of (hash_map 2) m'))) = - EACCES"
    by (subst deny)
      (simp_all add: demo_open_def is_module_active_def S_ISREG_def demo_config_inode_def)
  with m' show ?thesis by blast
qed

end
