(* ===== verification/BB_Kernel_Ptrace.thy ===== *)
theory BB_Kernel_Ptrace
  imports BB_Kernel BB_Ptrace_Block
begin

text \<open>
  \<open>bpf/ptrace_block.bpf.c\<close>: the hooks on \<open>ptrace\<close> (by a tracer and by \<open>PTRACE_TRACEME\<close>) and
  on opening \<open>/proc/<pid>/mem\<close>. Together with the initialisation in
  \<open>modules/src/ptrace_block.rs\<close> the lemmas say which processes nobody may trace after a
  start of the daemon.
\<close>

section \<open>The hooks\<close>

text \<open>
  A task as these hooks read it: its identity, and the inode of the program it executes
  (\<open>None\<close> for a kernel thread, or when a pointer on the way is null). The comm is what
  \<open>bpf_probe_read_kernel_str\<close> finds.
\<close>

record ptask =
  pt_tgid :: u32
  pt_uid :: u32
  pt_exe :: "inode option"
  pt_comm :: kptr

definition PTRACE_MODE_ATTACH :: u32 where "PTRACE_MODE_ATTACH = 2"
definition PROC_SUPER_MAGIC :: u32 where "PROC_SUPER_MAGIC = 0x9fa0"

definition ptrace_comm_bytes :: "kptr \<Rightarrow> u8 list" where
  "ptrace_comm_bytes comm =
     (case bpf_probe_read_kernel_str comm (replicate 16 0) of
        (len, target_comm) \<Rightarrow>
          if len < 0 then unknown_comm @ drop (length unknown_comm) target_comm else target_comm)"

definition dispatch_ptrace_alert ::
    "endian \<Rightarrow> u8 list option \<Rightarrow> u32 \<Rightarrow> ptask \<Rightarrow> u32 \<Rightarrow> u8 list list" where
  "dispatch_ptrace_alert en reserved tracer_tgid child action_type =
     submit reserved (\<lambda>_.
       u32_to_ne_bytes en tracer_tgid @ u32_to_ne_bytes en (pt_tgid child) @
       u32_to_ne_bytes en action_type @ ptrace_comm_bytes (pt_comm child))"

record access_call =
  ac_state :: kmap
  ac_processes :: kmap
  ac_tracer :: ptask
  ac_child :: ptask
  ac_mode :: u32
  ac_reserved :: "u8 list option"

definition executes_protected :: "endian \<Rightarrow> kmap \<Rightarrow> ptask \<Rightarrow> bool" where
  "executes_protected en procs child \<longleftrightarrow>
     (case pt_exe child of
        None \<Rightarrow> False
      | Some child_inode \<Rightarrow> watched procs (extract_dir_id_from_inode en child_inode))"

definition ptrace_block_access_check :: "endian \<Rightarrow> access_call \<Rightarrow> hook_result" where
  "ptrace_block_access_check en ac =
     (if \<not> is_module_active en (ac_state ac) then allow
      else if pt_tgid (ac_tracer ac) = pt_tgid (ac_child ac) then allow
      else (let triggered_action =
                  (if executes_protected en (ac_processes ac) (ac_child ac) then Some 1
                   else if ac_mode ac AND PTRACE_MODE_ATTACH \<noteq> 0 \<and> pt_uid (ac_tracer ac) \<noteq> 0 then Some 2
                   else None)
            in case triggered_action of
                 None \<Rightarrow> allow
               | Some action \<Rightarrow>
                   deny (- EACCES)
                     (dispatch_ptrace_alert en (ac_reserved ac) (pt_tgid (ac_tracer ac)) (ac_child ac) action)))"

record traceme_call =
  tm_state :: kmap
  tm_parent :: ptask
  tm_current :: ptask
  tm_reserved :: "u8 list option"

definition ptrace_block_traceme :: "endian \<Rightarrow> traceme_call \<Rightarrow> hook_result" where
  "ptrace_block_traceme en tm =
     (if \<not> is_module_active en (tm_state tm) then allow
      else if pt_uid (tm_parent tm) \<noteq> 0
      then deny (- EACCES)
             (dispatch_ptrace_alert en (tm_reserved tm) (pt_tgid (tm_parent tm)) (tm_current tm) 2)
      else allow)"

text \<open>
  \<open>mo_name_len\<close> and \<open>mo_name\<close> are the length and the four bytes read of the dentry's name
  (\<open>None\<close> when the pointer is null or not readable).
\<close>

record mem_open =
  mo_state :: kmap
  mo_dentry :: bool
  mo_name_len :: u32
  mo_inode :: "inode option"
  mo_name :: "u8 list option"
  mo_current :: ptask
  mo_reserved :: "u8 list option"

definition ptrace_block_file_open :: "endian \<Rightarrow> mem_open \<Rightarrow> hook_result" where
  "ptrace_block_file_open en mo =
     (if \<not> is_module_active en (mo_state mo) then allow
      else if \<not> mo_dentry mo then allow
      else if mo_name_len mo \<noteq> 3 then allow
      else case mo_inode mo of
             None \<Rightarrow> allow
           | Some i \<Rightarrow>
               if s_magic i \<noteq> PROC_SUPER_MAGIC then allow
               else (case mo_name mo of
                       None \<Rightarrow> allow
                     | Some name \<Rightarrow>
                         if name ! 0 = 109 \<and> name ! 1 = 101 \<and> name ! 2 = 109 \<and> name ! 3 = 0 \<and>
                            pt_uid (mo_current mo) \<noteq> 0
                         then deny (- EACCES)
                                (dispatch_ptrace_alert en (mo_reserved mo) (pt_tgid (mo_current mo))
                                   (mo_current mo) 3)
                         else allow))"

section \<open>Verdicts and records\<close>

lemma ptrace_access_denies:
  "hr_ret (ptrace_block_access_check en ac) = - EACCES \<longleftrightarrow>
   is_module_active en (ac_state ac) \<and> pt_tgid (ac_tracer ac) \<noteq> pt_tgid (ac_child ac) \<and>
   (executes_protected en (ac_processes ac) (ac_child ac) \<or>
    bit (ac_mode ac) 1 \<and> pt_uid (ac_tracer ac) \<noteq> 0)"
proof -
  have mask: "PTRACE_MODE_ATTACH = 2 ^ 1" by (simp add: PTRACE_MODE_ATTACH_def)
  have "(ac_mode ac AND PTRACE_MODE_ATTACH = 0) = (\<not> bit (ac_mode ac) 1)"
    unfolding mask by (rule and_exp_eq_0_iff_not_bit)
  then show ?thesis by (simp add: ptrace_block_access_check_def Let_def)
qed

definition ptrace_comm_name :: "kptr \<Rightarrow> u8 list" where
  "ptrace_comm_name = text_of 16 (str ''<unknown>'')"

lemma ptrace_comm_array:
  "length (ptrace_comm_bytes comm) = 16" "c_string (ptrace_comm_bytes comm) = ptrace_comm_name comm"
proof -
  have "length (ptrace_comm_bytes comm) = 16 \<and> c_string (ptrace_comm_bytes comm) = ptrace_comm_name comm"
  proof (cases comm)
    case (Str s)
    then show ?thesis
      by (simp add: ptrace_comm_bytes_def bpf_probe_read_kernel_str_def ptrace_comm_name_def text_of_def)
  qed (use unknown_comm_array length_c_char_array [OF unknown_comm_fits]
      c_string_char_array [OF unknown_comm_fits] in
      \<open>simp_all add: ptrace_comm_bytes_def bpf_probe_read_kernel_str_def ptrace_comm_name_def text_of_def
        del: replicate.simps\<close>)
  then show "length (ptrace_comm_bytes comm) = 16" "c_string (ptrace_comm_bytes comm) = ptrace_comm_name comm"
    by blast+
qed

definition trace_alert :: "u32 \<Rightarrow> ptask \<Rightarrow> u32 \<Rightarrow> ptrace_alert" where
  "trace_alert tracer child action =
     \<lparr>ptrace_pid = tracer, ptrace_target_pid = pt_tgid child, ptrace_action_type = action,
      ptrace_target_comm = shown (ptrace_comm_name (pt_comm child))\<rparr>"

lemma dispatch_reads_back:
  assumes "d \<in> set (dispatch_ptrace_alert en reserved tracer child action)"
  shows "28 \<le> length d \<and> ptrace_view en d = trace_alert tracer child action \<and>
    ptrace_warnings d = noise (ptrace_comm_name (pt_comm child))"
proof -
  let ?c = "\<lparr>ps_pid = tracer, ps_target_pid = pt_tgid child, ps_action_type = action,
    ps_target_comm = ptrace_comm_bytes (pt_comm child)\<rparr>"
  have "d = ptrace_image en ?c"
    using assms by (auto simp: dispatch_ptrace_alert_def submit_member ptrace_image_def)
  moreover have "ptrace_sized ?c" by (simp add: ptrace_sized_def ptrace_comm_array)
  ultimately show ?thesis
    using ptrace_layout.length_image ptrace_layout.view_image ptrace_layout.warnings_image
    by (simp add: ptrace_meaning_def ptrace_grumbles_def trace_alert_def ptrace_comm_array)
qed

lemma dispatch_one: "length (dispatch_ptrace_alert en reserved tracer child action) \<le> 1"
  by (simp add: dispatch_ptrace_alert_def submit_def split: option.split)

definition access_reported :: "endian \<Rightarrow> access_call \<Rightarrow> ptrace_alert" where
  "access_reported en ac =
     trace_alert (pt_tgid (ac_tracer ac)) (ac_child ac)
       (if executes_protected en (ac_processes ac) (ac_child ac) then 1 else 2)"

interpretation ptrace_access_hook: reporting_hook ptrace_block_spec en 28 "ptrace_view en" ptrace_warnings
  "ptrace_block_access_check en" "\<lambda>ac. is_module_active en (ac_state ac)"
  "\<lambda>_. True" "access_reported en"
  "\<lambda>ac. noise (ptrace_comm_name (pt_comm (ac_child ac)))" for en
  by unfold_locales
    (use dispatch_reads_back dispatch_one in
      \<open>auto simp: ptrace_block_access_check_def access_reported_def Let_def split: if_splits\<close>)

interpretation ptrace_traceme_hook: reporting_hook ptrace_block_spec en 28 "ptrace_view en" ptrace_warnings
  "ptrace_block_traceme en" "\<lambda>tm. is_module_active en (tm_state tm)"
  "\<lambda>_. True"
  "\<lambda>tm. trace_alert (pt_tgid (tm_parent tm)) (tm_current tm) 2"
  "\<lambda>tm. noise (ptrace_comm_name (pt_comm (tm_current tm)))" for en
  by unfold_locales
    (use dispatch_reads_back dispatch_one in
      \<open>auto simp: ptrace_block_traceme_def split: if_splits\<close>)

interpretation ptrace_mem_hook: reporting_hook ptrace_block_spec en 28 "ptrace_view en" ptrace_warnings
  "ptrace_block_file_open en" "\<lambda>mo. is_module_active en (mo_state mo)"
  "\<lambda>_. True"
  "\<lambda>mo. trace_alert (pt_tgid (mo_current mo)) (mo_current mo) 3"
  "\<lambda>mo. noise (ptrace_comm_name (pt_comm (mo_current mo)))" for en
  by unfold_locales
    (use dispatch_reads_back dispatch_one in
      \<open>auto simp: ptrace_block_file_open_def split: if_splits option.splits\<close>)

section \<open>Properties\<close>

text \<open>
  C15: after the module's initialisation on the empty map, a tracer of another thread group
  is refused exactly when the module is active and either the other process executes one
  of the listed credential binaries, whoever asks and for whatever, or somebody other than
  root asks to attach; every inode that a listed path named at the start counts.
\<close>

theorem credentials_untraceable:
  assumes "mp_get_map (su_provider su) (str ''protected_processes'') p = Inr m"
    and "map_keys (su_api su) m = {}" and "bpf_hash_ok (su_api su) 256"
  shows "\<exists>m'. snd (snd (ptrace_init su p)) = mp_store (su_provider su) (str ''protected_processes'') m' p \<and>
    (\<forall>ac. ac_processes ac = kmap_of (su_api su) m' \<longrightarrow>
       (hr_ret (ptrace_block_access_check (su_endian su) ac) = - EACCES \<longleftrightarrow>
          is_module_active (su_endian su) (ac_state ac) \<and>
          pt_tgid (ac_tracer ac) \<noteq> pt_tgid (ac_child ac) \<and>
          ((\<exists>i. pt_exe (ac_child ac) = Some i \<and>
              extract_dir_id_from_inode (su_endian su) i
                \<in> path_keys (su_endian su) (su_host su) ptrace_target_binaries) \<or>
           bit (ac_mode ac) 1 \<and> pt_uid (ac_tracer ac) \<noteq> 0))) \<and>
    (\<forall>path \<in> set ptrace_target_binaries. \<forall>i. names_file (su_host su) path i \<longrightarrow>
       extract_dir_id_from_inode (su_endian su) i
         \<in> path_keys (su_endian su) (su_host su) ptrace_target_binaries)"
proof (rule ptrace_init_fresh [OF assms], goal_cases)
  case (1 out m')
  have "executes_protected (su_endian su) (kmap_of (su_api su) m') child \<longleftrightarrow>
      (\<exists>i. pt_exe child = Some i \<and> extract_dir_id_from_inode (su_endian su) i
         \<in> path_keys (su_endian su) (su_host su) ptrace_target_binaries)" for child
    by (simp add: executes_protected_def watched_iff_key [OF 1(3)] split: option.split)
  then show ?case
    by (intro exI [of _ m']) (simp add: 1(1) ptrace_access_denies names_file_key)
qed

definition demo_sudo_inode :: inode where
  "demo_sudo_inode =
     \<lparr>i_ino = 42, i_dev = 0x800002, i_mode = 0x89ED, i_nlink = 1, s_magic = 0xEF53\<rparr>"

text \<open>Root reads the memory of a running \<open>sudo\<close>.\<close>

definition demo_access :: "kmap \<Rightarrow> access_call" where
  "demo_access procs =
     \<lparr>ac_state = Map.empty, ac_processes = procs,
      ac_tracer = \<lparr>pt_tgid = 7, pt_uid = 0, pt_exe = None, pt_comm = Null\<rparr>,
      ac_child = \<lparr>pt_tgid = 8, pt_uid = 1000, pt_exe = Some demo_sudo_inode, pt_comm = Null\<rparr>,
      ac_mode = 1, ac_reserved = None\<rparr>"

lemma demo_names_sudo: "names_file (su_host ptrace_demo_ctx) (str ''/usr/bin/sudo'') demo_sudo_inode"
  unfolding names_file_def
  by (rule exI [of _ "\<lparr>of_meta = Some \<lparr>md_ino = 42, md_dev = 2050\<rparr>, of_xattr = \<lambda>_. None\<rparr>"],
      rule exI [of _ "\<lparr>md_ino = 42, md_dev = 2050\<rparr>"], rule exI [of _ 8], rule exI [of _ 2])
    (simp add: ptrace_demo_ctx_def demo_sudo_inode_def stat_of_def gnu_dev_makedev_def)

theorem credentials_untraceable_witness:
  "\<exists>m'. snd (snd (ptrace_init ptrace_demo_ctx [])) = m' \<and>
     hr_ret (ptrace_block_access_check Little (demo_access (kmap_of (hash_map 256) m'))) = - EACCES"
proof -
  have "map_keys (hash_map 256) [] = {}" by (simp add: map_keys_def hash_map_def)
  then obtain m' where m': "snd (snd (ptrace_init ptrace_demo_ctx [])) = m'"
    and deny: "\<And>ac. ac_processes ac = kmap_of (hash_map 256) m' \<Longrightarrow>
      hr_ret (ptrace_block_access_check Little ac) = - EACCES \<longleftrightarrow>
        is_module_active Little (ac_state ac) \<and> pt_tgid (ac_tracer ac) \<noteq> pt_tgid (ac_child ac) \<and>
        ((\<exists>i. pt_exe (ac_child ac) = Some i \<and> extract_dir_id_from_inode Little i
            \<in> path_keys Little (su_host ptrace_demo_ctx) ptrace_target_binaries) \<or>
         bit (ac_mode ac) 1 \<and> pt_uid (ac_tracer ac) \<noteq> 0)"
    and keys: "\<And>path i. path \<in> set ptrace_target_binaries \<Longrightarrow> names_file (su_host ptrace_demo_ctx) path i \<Longrightarrow>
       extract_dir_id_from_inode Little i \<in> path_keys Little (su_host ptrace_demo_ctx) ptrace_target_binaries"
    using credentials_untraceable [of ptrace_demo_ctx "[]" "[]"] hash_map_ok [of 256]
    by (auto simp: ptrace_demo_ctx_def)
  have "extract_dir_id_from_inode Little demo_sudo_inode
      \<in> path_keys Little (su_host ptrace_demo_ctx) ptrace_target_binaries"
    by (rule keys [OF _ demo_names_sudo]) (simp add: ptrace_target_binaries_def)
  then have "hr_ret (ptrace_block_access_check Little (demo_access (kmap_of (hash_map 256) m'))) = - EACCES"
    by (subst deny) (simp_all add: demo_access_def is_module_active_def)
  with m' show ?thesis by blast
qed

end
