(* ===== verification/BB_Kernel_Wx.thy ===== *)
theory BB_Kernel_Wx
  imports BB_Kernel BB_Strict_Wx
begin

text \<open>
  \<open>bpf/strict_wx.bpf.c\<close>: the hooks on \<open>mmap\<close> and \<open>mprotect\<close> that keep the memory of the
  programs on the watchlist from being writable and executable. The lemmas characterise the
  sequences of protections one mapping can go through.
\<close>

section \<open>The hooks\<close>

text \<open>\<open>wc_mm\<close>: the memory descriptor, with the inode of the program it executes, if any.\<close>

record wx_call =
  wc_state :: kmap
  wc_binaries :: kmap
  wc_task :: task
  wc_mm :: "inode option option"
  wc_reserved :: "u8 list option"

definition PROT_WRITE :: u64 where "PROT_WRITE = 2"
definition PROT_EXEC :: u64 where "PROT_EXEC = 4"
definition WX_MASK :: u64 where "WX_MASK = PROT_WRITE OR PROT_EXEC"
definition VM_WRITE :: u64 where "VM_WRITE = 2"
definition VM_EXEC :: u64 where "VM_EXEC = 4"

definition is_wx_violation :: "u64 \<Rightarrow> u64 \<Rightarrow> bool" where
  "is_wx_violation prot vma_flags \<longleftrightarrow>
     prot AND WX_MASK = WX_MASK \<or>
     (prot AND PROT_EXEC \<noteq> 0 \<and> vma_flags AND VM_WRITE \<noteq> 0) \<or>
     (prot AND PROT_WRITE \<noteq> 0 \<and> vma_flags AND VM_EXEC \<noteq> 0)"

definition opted_in_binary :: "endian \<Rightarrow> kmap \<Rightarrow> inode option \<Rightarrow> bool" where
  "opted_in_binary en binaries i \<longleftrightarrow>
     (case i of None \<Rightarrow> False | Some n \<Rightarrow> watched binaries (extract_dir_id_from_inode en n))"

definition wx_record :: "endian \<Rightarrow> u32 \<Rightarrow> rstr \<Rightarrow> u8 list \<Rightarrow> u8 list" where
  "wx_record en pid syscall_name mem =
     u32_to_ne_bytes en pid @ (strncpy 16 syscall_name)[15 := 0]"

definition enforce_strict_wx ::
    "endian \<Rightarrow> wx_call \<Rightarrow> u64 \<Rightarrow> u64 \<Rightarrow> inode option \<Rightarrow> rstr \<Rightarrow> hook_result" where
  "enforce_strict_wx en wc prot vma_flags mapped_file syscall_name =
     (if \<not> is_module_active en (wc_state wc) then allow
      else if \<not> is_wx_violation prot vma_flags then allow
      else case wc_mm wc of
             None \<Rightarrow> allow
           | Some exe_file \<Rightarrow>
               if opted_in_binary en (wc_binaries wc) exe_file \<or> opted_in_binary en (wc_binaries wc) mapped_file
               then deny (- EACCES)
                      (submit (wc_reserved wc) (wx_record en (t_tgid (wc_task wc)) syscall_name))
               else allow)"

definition strict_wx_file_mprotect ::
    "endian \<Rightarrow> wx_call \<Rightarrow> u64 \<Rightarrow> u64 \<Rightarrow> inode option \<Rightarrow> hook_result" where
  "strict_wx_file_mprotect en wc prot vm_flags vm_file =
     enforce_strict_wx en wc prot vm_flags vm_file (str ''mprotect'')"

definition strict_wx_mmap_file :: "endian \<Rightarrow> wx_call \<Rightarrow> u64 \<Rightarrow> inode option \<Rightarrow> hook_result" where
  "strict_wx_mmap_file en wc prot mapped_file =
     enforce_strict_wx en wc prot 0 mapped_file (str ''mmap'')"

section \<open>Verdicts and records\<close>

lemma flag_bits:
  "v AND PROT_WRITE = 0 \<longleftrightarrow> \<not> bit v 1" "v AND PROT_EXEC = 0 \<longleftrightarrow> \<not> bit v 2"
  "v AND VM_WRITE = 0 \<longleftrightarrow> \<not> bit v 1" "v AND VM_EXEC = 0 \<longleftrightarrow> \<not> bit v 2"
proof -
  have "PROT_WRITE = 2 ^ 1" "PROT_EXEC = 2 ^ 2" "VM_WRITE = 2 ^ 1" "VM_EXEC = 2 ^ 2"
    by (simp_all add: PROT_WRITE_def PROT_EXEC_def VM_WRITE_def VM_EXEC_def)
  then show "v AND PROT_WRITE = 0 \<longleftrightarrow> \<not> bit v 1" "v AND PROT_EXEC = 0 \<longleftrightarrow> \<not> bit v 2"
    "v AND VM_WRITE = 0 \<longleftrightarrow> \<not> bit v 1" "v AND VM_EXEC = 0 \<longleftrightarrow> \<not> bit v 2"
    using and_exp_eq_0_iff_not_bit [of v 1] and_exp_eq_0_iff_not_bit [of v 2] by simp_all
qed

lemma mask_bits: "v AND WX_MASK = WX_MASK \<longleftrightarrow> bit v 1 \<and> bit v 2"
proof -
  have mask: "bit WX_MASK n \<longleftrightarrow> n = 1 \<or> n = 2" for n
  proof -
    have mask: "WX_MASK = 2 ^ 1 OR 2 ^ 2" by (simp add: WX_MASK_def PROT_WRITE_def PROT_EXEC_def)
    have "bit WX_MASK n \<longleftrightarrow> bit (2 ^ 1 :: u64) n \<or> bit (2 ^ 2 :: u64) n"
      unfolding mask by (rule bit_or_iff)
    also have "\<dots> \<longleftrightarrow> n = 1 \<or> n = 2" unfolding bit_exp_iff by auto
    finally show ?thesis .
  qed
  have "v AND WX_MASK = WX_MASK \<longleftrightarrow> (\<forall>n. bit WX_MASK n \<longrightarrow> bit v n)"
    unfolding bit_eq_iff [of "v AND WX_MASK"] bit_and_iff
    using bit_imp_le_length [of WX_MASK] by (auto simp: possible_bit_word)
  then show ?thesis unfolding mask by auto
qed

lemma violation_iff:
  "is_wx_violation prot flags \<longleftrightarrow>
   bit prot 1 \<and> bit prot 2 \<or> bit prot 2 \<and> bit flags 1 \<or> bit prot 1 \<and> bit flags 2"
  by (simp add: is_wx_violation_def mask_bits flag_bits)

definition enforced :: "endian \<Rightarrow> wx_call \<Rightarrow> inode option \<Rightarrow> bool" where
  "enforced en wc mapped_file \<longleftrightarrow>
     (\<exists>exe. wc_mm wc = Some exe \<and>
        (opted_in_binary en (wc_binaries wc) exe \<or> opted_in_binary en (wc_binaries wc) mapped_file))"

lemma strict_wx_denies:
  "hr_ret (enforce_strict_wx en wc prot flags mapped sc) = 0 \<longleftrightarrow>
   \<not> (is_module_active en (wc_state wc) \<and> enforced en wc mapped \<and> is_wx_violation prot flags)"
  by (auto simp: enforce_strict_wx_def enforced_def split: option.split)

lemma wx_reads_back:
  assumes "fits_array 16 sc" and "d \<in> set (hr_events (enforce_strict_wx en wc prot flags mapped sc))"
  shows "20 \<le> length d \<and> wx_view en d = \<lparr>wx_pid = t_tgid (wc_task wc), wx_syscall = sc\<rparr> \<and>
    wx_warnings d = []"
proof -
  let ?c = "\<lparr>ws_pid = t_tgid (wc_task wc), ws_syscall = c_char_array 16 sc\<rparr>"
  have "(strncpy 16 sc)[15 := 0] = c_char_array 16 sc"
    using strncpy_terminated [OF assms(1)] by simp
  then have "d = wx_image en ?c"
    using assms(2)
    by (auto simp: enforce_strict_wx_def submit_member wx_record_def wx_image_def
        split: if_splits option.splits)
  moreover have "wx_sized ?c" using assms(1) by (simp add: wx_sized_def)
  ultimately show ?thesis
    using wx_layout.length_image wx_layout.view_image wx_layout.warnings_image shown_literal [OF assms(1)]
    by (simp add: wx_meaning_def wx_grumbles_def)
qed

lemma wx_names: "fits_array 16 (str ''mprotect'')" "fits_array 16 (str ''mmap'')"
  by (simp_all add: fits_array_def printable_def str_def)

lemma enforce_shape:
  "\<not> is_module_active en (wc_state wc) \<Longrightarrow> enforce_strict_wx en wc prot flags mapped sc = allow"
  "length (hr_events (enforce_strict_wx en wc prot flags mapped sc)) \<le> 1"
  by (simp_all add: enforce_strict_wx_def submit_def split: option.split)

interpretation wx_mprotect_hook: reporting_hook strict_wx_spec en 20 "wx_view en" wx_warnings
  "\<lambda>(wc, prot, flags, f). strict_wx_file_mprotect en wc prot flags f"
  "\<lambda>(wc, _). is_module_active en (wc_state wc)" "\<lambda>_. True"
  "\<lambda>(wc, _). \<lparr>wx_pid = t_tgid (wc_task wc), wx_syscall = str ''mprotect''\<rparr>" "\<lambda>_. []" for en
  by unfold_locales
    (use wx_reads_back [OF wx_names(1)] enforce_shape in \<open>auto simp: strict_wx_file_mprotect_def split: prod.splits\<close>)

interpretation wx_mmap_hook: reporting_hook strict_wx_spec en 20 "wx_view en" wx_warnings
  "\<lambda>(wc, prot, f). strict_wx_mmap_file en wc prot f"
  "\<lambda>(wc, _). is_module_active en (wc_state wc)" "\<lambda>_. True"
  "\<lambda>(wc, _). \<lparr>wx_pid = t_tgid (wc_task wc), wx_syscall = str ''mmap''\<rparr>" "\<lambda>_. []" for en
  by unfold_locales
    (use wx_reads_back [OF wx_names(2)] enforce_shape in \<open>auto simp: strict_wx_mmap_file_def split: prod.splits\<close>)

section \<open>The protections of one mapping\<close>

text \<open>
  A mapping is created with the first protection and changed to the others in turn, each
  call being let pass; \<open>flags_of prot\<close> are the flags the kernel keeps of a mapping with
  protection \<open>prot\<close>.
\<close>

fun reprotected :: "endian \<Rightarrow> wx_call \<Rightarrow> (u64 \<Rightarrow> u64) \<Rightarrow> inode option \<Rightarrow> u64 \<Rightarrow> u64 list \<Rightarrow> bool" where
  "reprotected en wc flags_of mapped prot [] = True"
| "reprotected en wc flags_of mapped prot (next_prot # prots) =
     (hr_ret (strict_wx_file_mprotect en wc next_prot (flags_of prot) mapped) = 0 \<and>
      reprotected en wc flags_of mapped next_prot prots)"

definition lives_through :: "endian \<Rightarrow> wx_call \<Rightarrow> (u64 \<Rightarrow> u64) \<Rightarrow> inode option \<Rightarrow> u64 list \<Rightarrow> bool" where
  "lives_through en wc flags_of mapped prots =
     (case prots of
        [] \<Rightarrow> True
      | prot # rest \<Rightarrow>
          hr_ret (strict_wx_mmap_file en wc prot mapped) = 0 \<and> reprotected en wc flags_of mapped prot rest)"

definition never_both :: "u64 \<Rightarrow> bool" where
  "never_both prot \<longleftrightarrow> \<not> (bit prot 1 \<and> bit prot 2)"

definition no_swap :: "u64 \<Rightarrow> u64 \<Rightarrow> bool" where
  "no_swap p q \<longleftrightarrow> \<not> (bit p 1 \<and> bit q 2) \<and> \<not> (bit p 2 \<and> bit q 1)"

lemma reprotected_iff:
  assumes "is_module_active en (wc_state wc)" and "enforced en wc mapped"
    and "\<And>p. bit (flags_of p) 1 = bit p 1 \<and> bit (flags_of p) 2 = bit p 2"
  shows "reprotected en wc flags_of mapped prot prots \<longleftrightarrow>
    list_all never_both prots \<and> successively no_swap (prot # prots)"
  by (induction prots arbitrary: prot)
    (use assms in \<open>auto simp: strict_wx_file_mprotect_def strict_wx_denies violation_iff never_both_def no_swap_def\<close>)

section \<open>Properties\<close>

text \<open>
  C29: while the module is active, for a program or a mapped file on the watchlist and with
  the flags of a mapping following its protection, a mapping lives through exactly those
  sequences of protections of which none is both writable and executable and no two adjacent
  ones exchange the two; in particular through writable, then neither, then executable.
\<close>

theorem wx_sequences:
  assumes "is_module_active en (wc_state wc)" and "enforced en wc mapped"
    and "\<And>p. bit (flags_of p) 1 = bit p 1 \<and> bit (flags_of p) 2 = bit p 2"
  shows "lives_through en wc flags_of mapped prots \<longleftrightarrow>
    list_all never_both prots \<and> successively no_swap prots"
  using assms(1,2) reprotected_iff [OF assms]
  by (cases prots)
    (auto simp: lives_through_def strict_wx_mmap_file_def strict_wx_denies violation_iff never_both_def)

definition demo_wx :: wx_call where
  "demo_wx =
     \<lparr>wc_state = Map.empty, wc_binaries = [dir_id Little 5 8 \<mapsto> [1]],
      wc_task = \<lparr>t_tgid = 7, t_pid = 7, t_uid = 1000, t_comm = None\<rparr>,
      wc_mm = Some (Some \<lparr>i_ino = 5, i_dev = 8, i_mode = 0x81ED, i_nlink = 1, s_magic = 0xEF53\<rparr>),
      wc_reserved = None\<rparr>"

theorem wx_sequences_witness: "lives_through Little demo_wx (\<lambda>p. p) None [2, 1, 4]"
proof -
  have "enforced Little demo_wx None"
    by (simp add: enforced_def demo_wx_def opted_in_binary_def watched_def extract_dir_id_from_inode_def)
  moreover have "is_module_active Little (wc_state demo_wx)"
    by (simp add: demo_wx_def is_module_active_def)
  ultimately show ?thesis
    by (subst wx_sequences) (simp_all add: never_both_def no_swap_def)
qed

end
