(* ===== verification/BB_Kernel_Userns.thy ===== *)
theory BB_Kernel_Userns
  imports BB_Kernel BB_Userns_Restrict
begin

text \<open>
  \<open>bpf/userns_restrict.bpf.c\<close>: the hooks on the creation of user namespaces, on the use of
  \<open>CAP_SYS_ADMIN\<close> and on mounts inside a namespace, with their exact verdicts and records.
\<close>

section \<open>The hooks\<close>

definition dispatch_userns_alert :: "endian \<Rightarrow> u8 list option \<Rightarrow> u32 \<Rightarrow> u32 \<Rightarrow> rstr \<Rightarrow> u8 list list" where
  "dispatch_userns_alert en reserved pid action_type target_str =
     submit reserved (\<lambda>_.
       u32_to_ne_bytes en pid @ u32_to_ne_bytes en action_type @ (strncpy 64 target_str)[63 := 0])"

record userns_call =
  uc_state :: kmap
  uc_task :: task
  uc_loginuid :: u32
  uc_parent_uid :: u32
  uc_reserved :: "u8 list option"

definition userns_restrict_create :: "endian \<Rightarrow> userns_call \<Rightarrow> hook_result" where
  "userns_restrict_create en uc =
     (let deny_with = (\<lambda>msg. deny (- EPERM)
            (dispatch_userns_alert en (uc_reserved uc) (t_tgid (uc_task uc)) 1 msg))
      in if \<not> is_module_active en (uc_state uc) then allow
         else if get_global_uid (uc_task uc) \<noteq> 0
         then deny_with (str ''unshare() - Direct Unprivileged'')
         else if uc_loginuid uc \<noteq> 0 \<and> uc_loginuid uc \<noteq> 0xFFFFFFFF
         then deny_with (str ''unshare() - SUID/Ancestry Evasion'')
         else if uc_parent_uid uc \<noteq> 0 \<and> uc_parent_uid uc \<noteq> 0xFFFFFFFF
         then deny_with (str ''unshare() - SUID Proxy Fallback'')
         else allow)"

record capable_call =
  cc_state :: kmap
  cc_task :: task
  cc_ns_level :: u32
  cc_cap :: "32 word"
  cc_reserved :: "u8 list option"

definition CAP_SYS_ADMIN :: "32 word" where "CAP_SYS_ADMIN = 21"

definition userns_restrict_capable :: "endian \<Rightarrow> capable_call \<Rightarrow> hook_result" where
  "userns_restrict_capable en cc =
     (if \<not> is_module_active en (cc_state cc) then allow
      else if cc_cap cc \<noteq> CAP_SYS_ADMIN then allow
      else if cc_ns_level cc > 0
      then deny (- EPERM)
             (dispatch_userns_alert en (cc_reserved cc) (t_tgid (cc_task cc)) 2
               (str ''CAP_SYS_ADMIN in container''))
      else allow)"

text \<open>\<open>ns_level\<close> is \<open>None\<close> when the namespace pointer is null; the task never is.\<close>

record ns_mount_call =
  nm_state :: kmap
  nm_task :: task
  nm_level :: "u32 option"
  nm_dev_name :: kptr
  nm_type :: kptr
  nm_reserved :: "u8 list option"

definition begins_with :: "u8 list \<Rightarrow> kptr \<Rightarrow> bool" where
  "begins_with pat p =
     (case bpf_probe_read_kernel_str p (replicate 16 0) of
        (len, buf) \<Rightarrow> len > 0 \<and> take (length pat) buf = pat)"

definition userns_restrict_sb_mount :: "endian \<Rightarrow> ns_mount_call \<Rightarrow> hook_result" where
  "userns_restrict_sb_mount en nm =
     (if \<not> is_module_active en (nm_state nm) then allow
      else (let level = (case nm_level nm of None \<Rightarrow> 0 | Some l \<Rightarrow> l)
            in if level > 0 \<and>
                  (begins_with (map of_nat (str ''/dev'')) (nm_dev_name nm) \<or>
                   begins_with (map of_nat (str ''devt'')) (nm_type nm))
               then deny (- EPERM)
                      (dispatch_userns_alert en (nm_reserved nm) (t_tgid (nm_task nm)) 3
                        (str ''Host /dev mount attempt''))
               else allow))"

section \<open>Verdicts and records\<close>

lemma begins_with_iff:
  assumes "\<forall>b \<in> set pat. b \<noteq> 0" and "length pat < 16" and "pat \<noteq> []"
  shows "begins_with pat p \<longleftrightarrow> take (length pat) (c_str p) = pat"
proof (cases p)
  case (Str s)
  then show ?thesis
    using probe_prefix [OF assms(1), of "replicate 16 0" s] assms(2)
    by (simp add: begins_with_def bpf_probe_read_kernel_str_def c_str_def)
qed (use assms(3) in \<open>simp_all add: begins_with_def bpf_probe_read_kernel_str_def c_str_def\<close>)

definition ns_alert :: "u32 \<Rightarrow> u32 \<Rightarrow> rstr \<Rightarrow> userns_alert" where
  "ns_alert pid action target =
     \<lparr>userns_pid = pid, userns_action_type = action, userns_target = target\<rparr>"

lemma ns_reads_back:
  assumes "d \<in> set (dispatch_userns_alert en reserved pid action target)" and "fits_array 64 target"
  shows "72 \<le> length d \<and> userns_view en d = ns_alert pid action target \<and> userns_warnings d = []"
proof -
  let ?c = "\<lparr>us_pid = pid, us_action_type = action, us_target = c_char_array 64 target\<rparr>"
  have "d = userns_image en ?c"
    using assms strncpy_terminated [OF assms(2)]
    by (auto simp: dispatch_userns_alert_def submit_member userns_image_def)
  moreover have "userns_sized ?c" using assms(2) by (simp add: userns_sized_def)
  ultimately show ?thesis
    using userns_layout.length_image userns_layout.view_image userns_layout.warnings_image
      shown_literal [OF assms(2)]
    by (simp add: userns_meaning_def userns_grumbles_def ns_alert_def)
qed

lemma ns_one: "length (dispatch_userns_alert en reserved pid action target) \<le> 1"
  by (simp add: dispatch_userns_alert_def submit_def split: option.split)

definition create_reason :: "userns_call \<Rightarrow> rstr" where
  "create_reason uc =
     (if t_uid (uc_task uc) \<noteq> 0 then str ''unshare() - Direct Unprivileged''
      else if uc_loginuid uc \<noteq> 0 \<and> uc_loginuid uc \<noteq> 0xFFFFFFFF
      then str ''unshare() - SUID/Ancestry Evasion''
      else str ''unshare() - SUID Proxy Fallback'')"

lemma ns_targets:
  "fits_array 64 (create_reason uc)" "fits_array 64 (str ''CAP_SYS_ADMIN in container'')"
  "fits_array 64 (str ''Host /dev mount attempt'')"
  by (simp_all add: create_reason_def fits_array_def printable_def str_def)

interpretation userns_create_hook: reporting_hook userns_restrict_spec en 72 "userns_view en" userns_warnings
  "userns_restrict_create en" "\<lambda>uc. is_module_active en (uc_state uc)" "\<lambda>_. True"
  "\<lambda>uc. ns_alert (t_tgid (uc_task uc)) 1 (create_reason uc)" "\<lambda>_. []" for en
proof unfold_locales
  fix c d
  show "\<not> is_module_active en (uc_state c) \<Longrightarrow> userns_restrict_create en c = allow"
    by (simp add: userns_restrict_create_def Let_def)
  show "length (hr_events (userns_restrict_create en c)) \<le> 1"
    using ns_one by (simp add: userns_restrict_create_def Let_def)
  assume "d \<in> set (hr_events (userns_restrict_create en c))"
  then have "d \<in> set (dispatch_userns_alert en (uc_reserved c) (t_tgid (uc_task c)) 1 (create_reason c))"
    by (simp add: userns_restrict_create_def create_reason_def get_global_uid_def Let_def split: if_splits)
      auto
  then show "72 \<le> length d \<and> userns_view en d = ns_alert (t_tgid (uc_task c)) 1 (create_reason c) \<and>
      userns_warnings d = []"
    using ns_reads_back ns_targets(1) by blast
qed

interpretation userns_capable_hook: reporting_hook userns_restrict_spec en 72 "userns_view en" userns_warnings
  "userns_restrict_capable en" "\<lambda>cc. is_module_active en (cc_state cc)" "\<lambda>_. True"
  "\<lambda>cc. ns_alert (t_tgid (cc_task cc)) 2 (str ''CAP_SYS_ADMIN in container'')" "\<lambda>_. []" for en
  by unfold_locales
    (use ns_reads_back [OF _ ns_targets(2)] ns_one in
      \<open>auto simp: userns_restrict_capable_def split: if_splits\<close>)

interpretation userns_mount_hook: reporting_hook userns_restrict_spec en 72 "userns_view en" userns_warnings
  "userns_restrict_sb_mount en" "\<lambda>nm. is_module_active en (nm_state nm)" "\<lambda>_. True"
  "\<lambda>nm. ns_alert (t_tgid (nm_task nm)) 3 (str ''Host /dev mount attempt'')" "\<lambda>_. []" for en
  by unfold_locales
    (use ns_reads_back [OF _ ns_targets(3)] ns_one in
      \<open>auto simp: userns_restrict_sb_mount_def Let_def split: if_splits\<close>)

section \<open>Properties\<close>

text \<open>
  C30: while the module is active, a user namespace is refused exactly to a caller that is
  not root, logged in as somebody else or run by somebody else's process; CAP_SYS_ADMIN
  exactly for a nested namespace; a mount in a nested namespace exactly when the device's
  name begins with /dev or the file system's with devt.
\<close>

theorem namespace_verdicts:
  "(hr_ret (userns_restrict_create en uc) = - EPERM \<longleftrightarrow>
      is_module_active en (uc_state uc) \<and>
      \<not> (t_uid (uc_task uc) = 0 \<and> uc_loginuid uc \<in> {0, 0xFFFFFFFF} \<and> uc_parent_uid uc \<in> {0, 0xFFFFFFFF})) \<and>
   (hr_ret (userns_restrict_capable en cc) = - EPERM \<longleftrightarrow>
      is_module_active en (cc_state cc) \<and> cc_cap cc = 21 \<and> cc_ns_level cc \<noteq> 0) \<and>
   (hr_ret (userns_restrict_sb_mount en nm) = - EPERM \<longleftrightarrow>
      is_module_active en (nm_state nm) \<and> (\<exists>l. nm_level nm = Some l \<and> l \<noteq> 0) \<and>
      (take 4 (c_str (nm_dev_name nm)) = map of_nat (str ''/dev'') \<or>
       take 4 (c_str (nm_type nm)) = map of_nat (str ''devt'')))"
proof (intro conjI)
  show "hr_ret (userns_restrict_create en uc) = - EPERM \<longleftrightarrow>
      is_module_active en (uc_state uc) \<and>
      \<not> (t_uid (uc_task uc) = 0 \<and> uc_loginuid uc \<in> {0, 0xFFFFFFFF} \<and> uc_parent_uid uc \<in> {0, 0xFFFFFFFF})"
    by (simp add: userns_restrict_create_def get_global_uid_def Let_def)
  show "hr_ret (userns_restrict_capable en cc) = - EPERM \<longleftrightarrow>
      is_module_active en (cc_state cc) \<and> cc_cap cc = 21 \<and> cc_ns_level cc \<noteq> 0"
    by (simp add: userns_restrict_capable_def CAP_SYS_ADMIN_def word_neq_0_conv)
  have "\<forall>b \<in> set (map of_nat (str ''/dev'')). (b :: u8) \<noteq> 0" "\<forall>b \<in> set (map of_nat (str ''devt'')). (b :: u8) \<noteq> 0"
    by (simp_all add: str_def)
  then have "begins_with (map of_nat (str ''/dev'')) p \<longleftrightarrow> take 4 (c_str p) = map of_nat (str ''/dev'')"
    "begins_with (map of_nat (str ''devt'')) p \<longleftrightarrow> take 4 (c_str p) = map of_nat (str ''devt'')" for p
    by (simp_all add: begins_with_iff eval_nat_numeral)
  then show "hr_ret (userns_restrict_sb_mount en nm) = - EPERM \<longleftrightarrow>
      is_module_active en (nm_state nm) \<and> (\<exists>l. nm_level nm = Some l \<and> l \<noteq> 0) \<and>
      (take 4 (c_str (nm_dev_name nm)) = map of_nat (str ''/dev'') \<or>
       take 4 (c_str (nm_type nm)) = map of_nat (str ''devt''))"
    by (simp add: userns_restrict_sb_mount_def Let_def word_neq_0_conv split: option.split)
qed

end
