(* ===== verification/BB_Kernel_Mount.thy ===== *)
theory BB_Kernel_Mount
  imports BB_Kernel BB_Mount_Secure
begin

text \<open>
  \<open>bpf/mount_secure.bpf.c\<close>: the hooks on \<open>mount\<close> and \<open>move_mount\<close>, with the two tests of
  the device's name and of the target's path and the walk along the dentries that replaces
  the latter. The lemmas give the exact verdict, and show that cards (\<open>/dev/mmc*\<close>) are never
  recognised by their device.
\<close>

section \<open>The tests\<close>

definition is_removable_device :: "kptr \<Rightarrow> bool" where
  "is_removable_device dev_name =
     (case dev_name of
        Null \<Rightarrow> False
      | _ \<Rightarrow>
          (case bpf_probe_read_kernel_str dev_name (replicate 8 0) of
             (len, prefix) \<Rightarrow>
               if len \<le> 0 then False
               else if take 5 prefix = map of_nat (str ''/dev/'')
               then (prefix ! 5 = 115 \<and> prefix ! 6 = 100) \<or>
                    (prefix ! 5 = 109 \<and> prefix ! 6 = 109 \<and> prefix ! 7 = 99)
               else False))"

definition is_sensitive_path :: "u8 list \<Rightarrow> int \<Rightarrow> bool" where
  "is_sensitive_path path len =
     (if len < 4 \<or> path ! 0 \<noteq> 47 then False
      else if take 4 path = map of_nat (str ''/mnt'') then True
      else if len \<ge> 6 \<and> take 6 path = map of_nat (str ''/media'') then True
      else len \<ge> 10 \<and> take 10 path = map of_nat (str ''/run/media''))"

text \<open>
  The dentry of the target and its ancestors: the pointer to the name of the \<open>i\<close>-th, \<open>None\<close>
  once a parent pointer is null.
\<close>

definition fallback_component :: "kptr \<Rightarrow> bool" where
  "fallback_component name =
     (case name of
        Null \<Rightarrow> False
      | _ \<Rightarrow>
          (let p_name = snd (bpf_probe_read_kernel_str name (replicate 6 0))
           in take 4 p_name = map of_nat (str ''mnt'') @ [0] \<or>
              take 6 p_name = map of_nat (str ''media'') @ [0]))"

fun fallback_from :: "(nat \<Rightarrow> kptr option) \<Rightarrow> nat \<Rightarrow> nat \<Rightarrow> bool" where
  "fallback_from ancestors i 0 = False"
| "fallback_from ancestors i (Suc k) =
     (case ancestors i of
        None \<Rightarrow> False
      | Some name \<Rightarrow> fallback_component name \<or> fallback_from ancestors (i + 1) k)"

definition fallback_dentry_check :: "(nat \<Rightarrow> kptr option) \<Rightarrow> bool" where
  "fallback_dentry_check ancestors = fallback_from ancestors 0 32"

section \<open>The hooks\<close>

record mount_call =
  mc_state :: kmap
  mc_task :: task
  mc_dev_name :: kptr
  mc_fs_type :: kptr
  mc_path_buffer :: bool
  mc_d_path :: dpath
  mc_ancestors :: "nat \<Rightarrow> kptr option"
  mc_reserved :: "u8 list option"

definition not_available :: "nat \<Rightarrow> u8 list" where
  "not_available n = map of_nat (str ''N/A'') @ [0] @ replicate (n - 4) 0"

definition name_field :: "nat \<Rightarrow> kptr \<Rightarrow> u8 list" where
  "name_field n p =
     (case bpf_probe_read_kernel_str p (replicate n 0) of
        (len, buf) \<Rightarrow> if len \<le> 0 then not_available n else buf)"

definition dispatch_mount_alert ::
    "endian \<Rightarrow> u8 list option \<Rightarrow> u32 \<Rightarrow> kptr \<Rightarrow> kptr \<Rightarrow> u8 list option \<Rightarrow> u8 list list" where
  "dispatch_mount_alert en reserved pid dev_name fs_type path_buf =
     submit reserved (\<lambda>_.
       u32_to_ne_bytes en pid @
       (if dev_name = Null then not_available 256 else name_field 256 dev_name) @
       (if fs_type = Null then replicate 64 0 else name_field 64 fs_type) @
       (case path_buf of
          Some path \<Rightarrow> if path ! 0 \<noteq> 0 then probe_read_str path (replicate 512 0) else replicate 512 0
        | None \<Rightarrow> replicate 512 0))"

text \<open>
  The path buffer is \<open>None\<close> when its lookup fails, and starts with a terminator when the
  path was not resolved (what is behind it does not matter).
\<close>

definition evaluate_secure_mount :: "endian \<Rightarrow> mount_call \<Rightarrow> bool \<Rightarrow> hook_result" where
  "evaluate_secure_mount en mc allow_d_path =
     (let removable = is_removable_device (mc_dev_name mc);
          len = (if mc_path_buffer mc \<and> allow_d_path then dp_len (mc_d_path mc) else 0);
          path_buf =
            (if \<not> mc_path_buffer mc then None
             else if allow_d_path \<and> len > 0 then Some (dp_buf (mc_d_path mc))
             else Some ((dp_buf (mc_d_path mc))[0 := 0]));
          sensitive =
            (case path_buf of
               Some path \<Rightarrow> allow_d_path \<and> len > 0 \<and> is_sensitive_path path len
             | None \<Rightarrow> False);
          is_target = removable \<or> sensitive;
          is_target' = (if \<not> is_target \<and> len \<le> 0 then fallback_dentry_check (mc_ancestors mc) else is_target)
      in if is_target'
         then deny (- EPERM)
                (dispatch_mount_alert en (mc_reserved mc) (t_tgid (mc_task mc)) (mc_dev_name mc)
                   (mc_fs_type mc) path_buf)
         else allow)"

definition SECURE_MOUNT_FLAGS :: u64 where "SECURE_MOUNT_FLAGS = 2 OR 4 OR 8"
definition SECURE_MOVE_MNT_FLAGS :: u32 where "SECURE_MOVE_MNT_FLAGS = 1 OR 2 OR 4"

definition mount_secure_sb_mount :: "endian \<Rightarrow> mount_call \<Rightarrow> u64 \<Rightarrow> hook_result" where
  "mount_secure_sb_mount en mc flags =
     (if \<not> is_module_active en (mc_state mc) then allow
      else if flags AND SECURE_MOUNT_FLAGS = SECURE_MOUNT_FLAGS then allow
      else evaluate_secure_mount en mc True)"

text \<open>
  The mount behind \<open>from_path\<close>: the name of its superblock's type (\<open>None\<close> when there is no
  type), the superblock's id, and the device name of the enclosing \<open>struct mount\<close> when the
  kernel has the field and the offset is plausible.
\<close>

record from_mount =
  fm_flags :: u32
  fm_sb :: "(kptr option \<times> kptr) option"
  fm_has_devname :: bool
  fm_offset_ok :: bool
  fm_devname :: kptr

definition mount_secure_move_mount :: "endian \<Rightarrow> mount_call \<Rightarrow> from_mount \<Rightarrow> hook_result" where
  "mount_secure_move_mount en mc fm =
     (if \<not> is_module_active en (mc_state mc) then allow
      else if fm_flags fm AND SECURE_MOVE_MNT_FLAGS = SECURE_MOVE_MNT_FLAGS then allow
      else (let fs_type = (case fm_sb fm of Some (Some name, _) \<Rightarrow> name | _ \<Rightarrow> Null);
                s_id = (case fm_sb fm of Some (_, sid) \<Rightarrow> sid | None \<Rightarrow> Null);
                dev_name = (if fm_has_devname fm \<and> fm_offset_ok fm then fm_devname fm else s_id)
            in evaluate_secure_mount en (mc\<lparr>mc_dev_name := dev_name, mc_fs_type := fs_type\<rparr>) False))"

section \<open>The tests, on strings\<close>

lemma sd_prefix:
  "length (buf :: u8 list) = 8 \<Longrightarrow>
   take 7 buf = map of_nat (str ''/dev/sd'') \<longleftrightarrow>
     take 5 buf = map of_nat (str ''/dev/'') \<and> buf ! 5 = 115 \<and> buf ! 6 = 100"
  by (auto simp: eval_nat_numeral length_Suc_conv str_def)

text \<open>
  Seven characters and the terminator fit the buffer, so its eighth byte is the terminator
  of every longer name, and never the letter that is compared with it.
\<close>

lemma removable_iff: "is_removable_device p \<longleftrightarrow> has_prefix (str ''/dev/sd'') (c_str p)"
proof (cases p)
  case (Str s)
  let ?buf = "probe_read_str s (replicate 8 0)"
  have len: "length ?buf = 8" by simp
  have last: "?buf ! 7 = 0"
    by (auto simp: probe_read_str_def Let_def nth_append min_def nth_Cons')
  have nz: "\<forall>b \<in> set (map of_nat (str ''/dev/sd'')). (b :: u8) \<noteq> 0" by (simp add: str_def)
  have "take 7 ?buf = map of_nat (str ''/dev/sd'') \<longleftrightarrow>
      take 7 (c_string s) = map of_nat (str ''/dev/sd'')"
    using probe_prefix [OF nz, of "replicate 8 0" s] by (simp add: eval_nat_numeral)
  moreover have "take 7 ?buf = map of_nat (str ''/dev/sd'') \<longleftrightarrow>
      take 5 ?buf = map of_nat (str ''/dev/'') \<and> ?buf ! 5 = 115 \<and> ?buf ! 6 = 100"
    by (rule sd_prefix [OF len])
  moreover have "has_prefix (str ''/dev/sd'') (c_str p) \<longleftrightarrow>
      take 7 (c_string s) = map of_nat (str ''/dev/sd'')"
    using Str by (simp add: has_prefix_def c_str_def eval_nat_numeral)
  moreover have "is_removable_device p \<longleftrightarrow>
      take 5 ?buf = map of_nat (str ''/dev/'') \<and> ?buf ! 5 = 115 \<and> ?buf ! 6 = 100"
    using Str last by (simp add: is_removable_device_def bpf_probe_read_kernel_str_def)
  ultimately show ?thesis by blast
qed (simp_all add: is_removable_device_def bpf_probe_read_kernel_str_def c_str_def has_prefix_def str_def)

lemma prefix_terminated:
  assumes "0 \<notin> set pat"
  shows "take (length pat) (p @ 0 # rest) = pat \<longleftrightarrow> take (length pat) p = pat"
proof (cases "length pat \<le> length p")
  case False
  then obtain m where m: "length pat - length p = Suc m" by (metis Suc_diff_Suc not_le)
  have "0 \<in> set (take (length pat) (p @ 0 # rest))" by (simp add: m)
  then have "take (length pat) (p @ 0 # rest) \<noteq> pat" using assms by metis
  moreover have "take (length pat) p \<noteq> pat" using False by (metis length_take min.cobounded1 not_le)
  ultimately show ?thesis by blast
qed simp

lemma has_prefix_length: "has_prefix q p \<Longrightarrow> length q \<le> length p"
  unfolding has_prefix_def by (metis length_map length_take min.cobounded1)

lemma sensitive_iff:
  assumes "resolves_to dp p"
  shows "is_sensitive_path (dp_buf dp) (dp_len dp) \<longleftrightarrow>
    has_prefix (str ''/mnt'') p \<or> has_prefix (str ''/media'') p \<or> has_prefix (str ''/run/media'') p"
proof -
  obtain rest where buf: "dp_buf dp = p @ 0 # rest" and len: "dp_len dp = int (length p) + 1"
    using assms by (auto simp: resolves_to_def)
  have prefix: "take (length q) (dp_buf dp) = map of_nat q \<longleftrightarrow> has_prefix q p"
    if "0 \<notin> set (map of_nat q :: u8 list)" for q
    using prefix_terminated [OF that, of p rest] by (simp add: buf has_prefix_def)
  have lits: "0 \<notin> set (map of_nat (str ''/mnt'') :: u8 list)" "0 \<notin> set (map of_nat (str ''/media'') :: u8 list)"
    "0 \<notin> set (map of_nat (str ''/run/media'') :: u8 list)"
    by (simp_all add: str_def)
  have lens: "length (str ''/mnt'') = 4" "length (str ''/media'') = 6" "length (str ''/run/media'') = 10"
    by simp_all
  have slash: "dp_buf dp ! 0 = 47" if "has_prefix (47 # q) p" for q
    using that by (cases p) (auto simp: has_prefix_def buf)
  show ?thesis
    using prefix [OF lits(1)] prefix [OF lits(2)] prefix [OF lits(3)]
      has_prefix_length [of "str ''/mnt''" p] has_prefix_length [of "str ''/media''" p]
      has_prefix_length [of "str ''/run/media''" p]
      slash [of "str ''mnt''"] slash [of "str ''media''"] slash [of "str ''run/media''"]
    unfolding lens
    by (auto simp: is_sensitive_path_def len str_Cons)
qed

lemma terminated_at_five:
  "length (buf :: u8 list) = 6 \<Longrightarrow> buf ! 5 = 0 \<Longrightarrow>
   take 6 buf = map of_nat (str ''media'') @ [0] \<longleftrightarrow> take 5 buf = map of_nat (str ''media'')"
  by (auto simp: eval_nat_numeral length_Suc_conv str_def)

lemma terminated_at_three:
  "length (buf :: u8 list) = 6 \<Longrightarrow>
   take 4 buf = map of_nat (str ''mnt'') @ [0] \<longleftrightarrow> take 3 buf = map of_nat (str ''mnt'') \<and> buf ! 3 = 0"
  by (auto simp: eval_nat_numeral length_Suc_conv str_def)

lemma component_iff:
  "fallback_component p \<longleftrightarrow> c_str p = map of_nat (str ''mnt'') \<or> has_prefix (str ''media'') (c_str p)"
proof (cases p)
  case (Str s)
  let ?c = "c_string s" and ?buf = "probe_read_str s (replicate 6 0)"
  have len: "length ?buf = 6" by simp
  have nz: "\<forall>b \<in> set ?c. b \<noteq> 0" using c_string_nonzero [of s] by metis
  have five: "?buf ! 5 = 0"
    by (auto simp: probe_read_str_def Let_def nth_append min_def nth_Cons')
  have three: "?buf ! 3 = 0 \<longleftrightarrow> length ?c = 3" if "3 \<le> length ?c"
    using that nz by (auto simp: probe_read_str_def Let_def nth_append min_def nth_Cons' simp flip: c_string_def)
  have lits: "\<forall>b \<in> set (map of_nat (str ''mnt'')). (b :: u8) \<noteq> 0"
    "\<forall>b \<in> set (map of_nat (str ''media'')). (b :: u8) \<noteq> 0" by (simp_all add: str_def)
  have mnt: "take 3 ?buf = map of_nat (str ''mnt'') \<longleftrightarrow> take 3 ?c = map of_nat (str ''mnt'')"
    using probe_prefix [OF lits(1), of "replicate 6 0" s] by (simp add: eval_nat_numeral)
  have media: "take 5 ?buf = map of_nat (str ''media'') \<longleftrightarrow> take 5 ?c = map of_nat (str ''media'')"
    using probe_prefix [OF lits(2), of "replicate 6 0" s] by (simp add: eval_nat_numeral)
  have "take 6 ?buf = map of_nat (str ''media'') @ [0] \<longleftrightarrow> take 5 ?buf = map of_nat (str ''media'')"
    by (rule terminated_at_five [OF len five])
  moreover have "take 4 ?buf = map of_nat (str ''mnt'') @ [0] \<longleftrightarrow>
      take 3 ?buf = map of_nat (str ''mnt'') \<and> ?buf ! 3 = 0"
    by (rule terminated_at_three [OF len])
  moreover have "take 3 ?c = map of_nat (str ''mnt'') \<and> ?buf ! 3 = 0 \<longleftrightarrow> ?c = map of_nat (str ''mnt'')"
  proof -
    have "3 \<le> length ?c" if "take 3 ?c = map of_nat (str ''mnt'')"
      using arg_cong [OF that, of length] by simp
    moreover have "length ?c = 3" if "?c = map of_nat (str ''mnt'')"
      using arg_cong [OF that, of length] by simp
    ultimately show ?thesis using three by auto
  qed
  moreover have "has_prefix (str ''media'') (c_str p) \<longleftrightarrow> take 5 ?c = map of_nat (str ''media'')"
    using Str by (simp add: has_prefix_def c_str_def eval_nat_numeral)
  moreover have "fallback_component p \<longleftrightarrow>
      take 4 ?buf = map of_nat (str ''mnt'') @ [0] \<or> take 6 ?buf = map of_nat (str ''media'') @ [0]"
    using Str by (simp add: fallback_component_def bpf_probe_read_kernel_str_def Let_def)
  ultimately show ?thesis using mnt media Str by (simp add: c_str_def)
next
  case Fault
  have "replicate k (0 :: u8) \<noteq> map of_nat (str ''mnt'') @ [0]"
    "replicate k (0 :: u8) \<noteq> map of_nat (str ''media'') @ [0]" for k
    by (cases k; simp add: str_def)+
  with Fault show ?thesis
    by (simp add: fallback_component_def bpf_probe_read_kernel_str_def Let_def c_str_def has_prefix_def str_def)
qed (simp_all add: fallback_component_def c_str_def has_prefix_def str_def)

lemma fallback_from_iff:
  "fallback_from anc i k \<longleftrightarrow>
   (\<exists>j < k. (\<forall>l < j. anc (i + l) \<noteq> None) \<and> (\<exists>name. anc (i + j) = Some name \<and> fallback_component name))"
proof (induction k arbitrary: i)
  case 0
  then show ?case by simp
next
  case (Suc k)
  show ?case
  proof (cases "anc i")
    case None
    then show ?thesis by (force simp: less_Suc_eq_0_disj)
  next
    case (Some name)
    then show ?thesis
      by (simp add: Suc.IH Ex_less_Suc2 All_less_Suc2)
  qed
qed

section \<open>Verdicts\<close>

lemma evaluate_denies:
  "hr_ret (evaluate_secure_mount en mc allow_d_path) = - EPERM \<longleftrightarrow>
   has_prefix (str ''/dev/sd'') (c_str (mc_dev_name mc)) \<or>
   (if mc_path_buffer mc \<and> allow_d_path \<and> dp_len (mc_d_path mc) > 0
    then is_sensitive_path (dp_buf (mc_d_path mc)) (dp_len (mc_d_path mc))
    else fallback_dentry_check (mc_ancestors mc))"
  by (auto simp: evaluate_secure_mount_def removable_iff Let_def)

lemma evaluate_otherwise:
  "hr_ret (evaluate_secure_mount en mc allow_d_path) \<noteq> - EPERM \<Longrightarrow>
   evaluate_secure_mount en mc allow_d_path = allow"
  by (auto simp: evaluate_secure_mount_def Let_def)

section \<open>The record\<close>

definition mount_path :: "mount_call \<Rightarrow> bool \<Rightarrow> u8 list" where
  "mount_path mc allow_d_path =
     (if mc_path_buffer mc \<and> allow_d_path \<and> dp_len (mc_d_path mc) > 0
      then take 511 (path_of (mc_d_path mc)) else [])"

definition mount_device :: "mount_call \<Rightarrow> u8 list" where
  "mount_device mc = text_of 256 (str ''N/A'') (mc_dev_name mc)"

definition mount_type :: "mount_call \<Rightarrow> u8 list" where
  "mount_type mc = (if mc_fs_type mc = Null then [] else text_of 64 (str ''N/A'') (mc_fs_type mc))"

definition mount_reported :: "mount_call \<Rightarrow> bool \<Rightarrow> mount_alert" where
  "mount_reported mc allow_d_path =
     \<lparr>mount_pid = t_tgid (mc_task mc),
      mount_dev_name = shown (mount_device mc),
      mount_fs_type = shown (mount_type mc),
      mount_mount_point = shown (mount_path mc allow_d_path)\<rparr>"

definition mount_noise :: "mount_call \<Rightarrow> bool \<Rightarrow> effect list" where
  "mount_noise mc allow_d_path =
     noise (mount_device mc) @ noise (mount_type mc) @ noise (mount_path mc allow_d_path)"

text \<open>The path buffer is not empty: it is the value of a per-CPU array of 4096 bytes.\<close>

definition mount_sound :: "mount_call \<Rightarrow> bool \<Rightarrow> bool" where
  "mount_sound mc allow_d_path \<longleftrightarrow> dp_buf (mc_d_path mc) \<noteq> []"

lemma not_available_array: "4 \<le> n \<Longrightarrow> not_available n = c_char_array n (str ''N/A'')"
proof -
  assume "4 \<le> n"
  then have "n - 3 = Suc (n - 4)" by linarith
  then have "replicate (n - 3) (0 :: u8) = 0 # replicate (n - 4) 0" by (simp only: replicate_Suc)
  moreover have "length (str ''N/A'') = 3" by simp
  ultimately show ?thesis
    by (simp only: not_available_def c_char_array_def kernel_string_def append_Cons append_Nil)
qed

lemma fits_not_available: "4 \<le> n \<Longrightarrow> fits_array n (str ''N/A'')"
  by (simp add: fits_array_def printable_def str_def)

lemma not_available_simps:
  "4 \<le> n \<Longrightarrow> length (not_available n) = n" "4 \<le> n \<Longrightarrow> c_string (not_available n) = kernel_string (str ''N/A'')"
  using length_c_char_array [OF fits_not_available] c_string_char_array [OF fits_not_available]
  by (simp_all add: not_available_array)

lemma name_field_array:
  assumes "4 \<le> n"
  shows "length (name_field n p) = n" and "c_string (name_field n p) = text_of n (str ''N/A'') p"
proof -
  have "length (name_field n p) = n \<and> c_string (name_field n p) = text_of n (str ''N/A'') p"
    using assms not_available_simps [OF assms]
    by (cases p) (simp_all add: name_field_def bpf_probe_read_kernel_str_def text_of_def)
  then show "length (name_field n p) = n" "c_string (name_field n p) = text_of n (str ''N/A'') p" by blast+
qed

definition point_field :: "mount_call \<Rightarrow> bool \<Rightarrow> u8 list" where
  "point_field mc allow_d_path =
     (let path = (if allow_d_path \<and> dp_len (mc_d_path mc) > 0 then dp_buf (mc_d_path mc)
                  else (dp_buf (mc_d_path mc))[0 := 0])
      in if mc_path_buffer mc \<and> path ! 0 \<noteq> 0 then probe_read_str path (replicate 512 0)
         else replicate 512 0)"

lemma c_string_zeros: "c_string (replicate n 0) = []"
  by (cases n) (simp_all add: c_string_def)

lemma c_string_first: "arr \<noteq> [] \<Longrightarrow> arr ! 0 = 0 \<Longrightarrow> c_string arr = []"
  by (cases arr) (simp_all add: c_string_def)

lemma point_field_array:
  "length (point_field mc b) = 512"
  "mount_sound mc b \<Longrightarrow> c_string (point_field mc b) = mount_path mc b"
proof -
  show "length (point_field mc b) = 512" by (simp add: point_field_def Let_def)
  assume "mount_sound mc b"
  then have "dp_buf (mc_d_path mc) \<noteq> []" by (simp add: mount_sound_def)
  then show "c_string (point_field mc b) = mount_path mc b"
    using c_string_first [of "dp_buf (mc_d_path mc)"]
    by (auto simp: point_field_def mount_path_def path_of_def c_string_zeros Let_def simp del: replicate.simps)
qed

definition mount_struct_of :: "mount_call \<Rightarrow> bool \<Rightarrow> mount_struct" where
  "mount_struct_of mc allow_d_path =
     \<lparr>ms_pid = t_tgid (mc_task mc),
      ms_dev_name = (if mc_dev_name mc = Null then not_available 256 else name_field 256 (mc_dev_name mc)),
      ms_fs_type = (if mc_fs_type mc = Null then replicate 64 0 else name_field 64 (mc_fs_type mc)),
      ms_mount_point = point_field mc allow_d_path\<rparr>"

lemma mount_record:
  assumes "d \<in> set (hr_events (evaluate_secure_mount en mc b))"
  shows "d = mount_image en (mount_struct_of mc b)"
  using assms
  by (auto simp: evaluate_secure_mount_def dispatch_mount_alert_def submit_member mount_image_def
      mount_struct_of_def point_field_def Let_def simp del: replicate.simps split: if_splits)

lemma mount_struct_of_simps:
  "mount_sized (mount_struct_of mc b)"
  "mount_sound mc b \<Longrightarrow> mount_meaning (mount_struct_of mc b) = mount_reported mc b"
  "mount_sound mc b \<Longrightarrow> mount_grumbles (mount_struct_of mc b) = mount_noise mc b"
proof -
  have dev: "c_string (ms_dev_name (mount_struct_of mc b)) = mount_device mc"
    by (simp add: mount_struct_of_def mount_device_def not_available_simps name_field_array text_of_def)
  have fs: "c_string (ms_fs_type (mount_struct_of mc b)) = mount_type mc"
    by (simp add: mount_struct_of_def mount_type_def name_field_array c_string_zeros del: replicate.simps)
  have point: "c_string (ms_mount_point (mount_struct_of mc b)) = mount_path mc b" if "mount_sound mc b"
    using point_field_array(2) [OF that] by (simp add: mount_struct_of_def)
  show "mount_sized (mount_struct_of mc b)"
    by (simp add: mount_sized_def mount_struct_of_def not_available_simps name_field_array point_field_array)
  show "mount_sound mc b \<Longrightarrow> mount_meaning (mount_struct_of mc b) = mount_reported mc b"
    "mount_sound mc b \<Longrightarrow> mount_grumbles (mount_struct_of mc b) = mount_noise mc b"
    by (simp_all add: mount_meaning_def mount_reported_def mount_grumbles_def mount_noise_def dev fs point)
      (simp add: mount_struct_of_def)
qed

lemma evaluate_one: "length (hr_events (evaluate_secure_mount en mc b)) \<le> 1"
  by (simp add: evaluate_secure_mount_def dispatch_mount_alert_def submit_def Let_def split: option.split)

lemma mount_reads_back:
  assumes "mount_sound mc b" and "d \<in> set (hr_events (evaluate_secure_mount en mc b))"
  shows "836 \<le> length d \<and> mount_view en d = mount_reported mc b \<and> mount_warnings d = mount_noise mc b"
  using mount_record [OF assms(2)] mount_struct_of_simps [of mc b] assms(1)
    mount_layout.length_image mount_layout.view_image mount_layout.warnings_image by simp

interpretation sb_mount_hook: reporting_hook mount_secure_spec en 836 "mount_view en" mount_warnings
  "\<lambda>(mc, flags). mount_secure_sb_mount en mc flags" "\<lambda>(mc, _). is_module_active en (mc_state mc)"
  "\<lambda>(mc, _). mount_sound mc True" "\<lambda>(mc, _). mount_reported mc True"
  "\<lambda>(mc, _). mount_noise mc True" for en
  by unfold_locales
    (use mount_reads_back evaluate_one in \<open>auto simp: mount_secure_sb_mount_def split: if_splits\<close>)

text \<open>The call the newer interface makes of the mount behind \<open>from_path\<close>.\<close>

definition moved_call :: "mount_call \<Rightarrow> from_mount \<Rightarrow> mount_call" where
  "moved_call mc fm =
     mc\<lparr>mc_dev_name := if fm_has_devname fm \<and> fm_offset_ok fm then fm_devname fm
                       else (case fm_sb fm of Some (_, sid) \<Rightarrow> sid | None \<Rightarrow> Null),
        mc_fs_type := (case fm_sb fm of Some (Some name, _) \<Rightarrow> name | _ \<Rightarrow> Null)\<rparr>"

lemma move_mount_eq:
  "mount_secure_move_mount en mc fm =
     (if \<not> is_module_active en (mc_state mc) \<or> fm_flags fm AND SECURE_MOVE_MNT_FLAGS = SECURE_MOVE_MNT_FLAGS
      then allow else evaluate_secure_mount en (moved_call mc fm) False)"
  by (simp add: mount_secure_move_mount_def moved_call_def)

interpretation move_mount_hook: reporting_hook mount_secure_spec en 836 "mount_view en" mount_warnings
  "\<lambda>(mc, fm). mount_secure_move_mount en mc fm" "\<lambda>(mc, _). is_module_active en (mc_state mc)"
  "\<lambda>(mc, fm). mount_sound (moved_call mc fm) False" "\<lambda>(mc, fm). mount_reported (moved_call mc fm) False"
  "\<lambda>(mc, fm). mount_noise (moved_call mc fm) False" for en
  by unfold_locales (use mount_reads_back evaluate_one in \<open>auto simp: move_mount_eq split: if_splits\<close>)

section \<open>Properties\<close>

text \<open>
  C31: with the path buffer at hand and the target's path resolved, whatever its bytes, a mount
  without the three flags is refused, while the module is active, exactly when the device's
  name begins with /dev/sd or the path with /mnt, /media or /run/media. Through the newer
  interface, where the path is not available, exactly when the device's name begins so or one
  of the 32 dentries from the target upwards, as far as parent pointers go, is called mnt or a
  name that begins with media: a directory mnt that is further up is not seen.
\<close>

theorem mount_verdict:
  assumes "mc_path_buffer mc" and "resolves_to (mc_d_path mc) p"
  shows "(hr_ret (mount_secure_sb_mount en mc flags) = - EPERM \<longleftrightarrow>
      is_module_active en (mc_state mc) \<and> flags AND SECURE_MOUNT_FLAGS \<noteq> SECURE_MOUNT_FLAGS \<and>
      (has_prefix (str ''/dev/sd'') (c_str (mc_dev_name mc)) \<or>
       has_prefix (str ''/mnt'') p \<or> has_prefix (str ''/media'') p \<or> has_prefix (str ''/run/media'') p)) \<and>
    (hr_ret (mount_secure_move_mount en mc fm) = - EPERM \<longleftrightarrow>
      is_module_active en (mc_state mc) \<and> fm_flags fm AND SECURE_MOVE_MNT_FLAGS \<noteq> SECURE_MOVE_MNT_FLAGS \<and>
      (has_prefix (str ''/dev/sd'')
         (c_str (if fm_has_devname fm \<and> fm_offset_ok fm then fm_devname fm
                 else (case fm_sb fm of Some (_, sid) \<Rightarrow> sid | None \<Rightarrow> Null))) \<or>
       (\<exists>j < 32. (\<forall>l < j. mc_ancestors mc l \<noteq> None) \<and>
          (\<exists>name. mc_ancestors mc j = Some name \<and>
             (c_str name = map of_nat (str ''mnt'') \<or> has_prefix (str ''media'') (c_str name))))))"
proof
  have "dp_len (mc_d_path mc) > 0" using assms(2) by (simp add: resolves_to_def)
  then show "hr_ret (mount_secure_sb_mount en mc flags) = - EPERM \<longleftrightarrow>
      is_module_active en (mc_state mc) \<and> flags AND SECURE_MOUNT_FLAGS \<noteq> SECURE_MOUNT_FLAGS \<and>
      (has_prefix (str ''/dev/sd'') (c_str (mc_dev_name mc)) \<or>
       has_prefix (str ''/mnt'') p \<or> has_prefix (str ''/media'') p \<or> has_prefix (str ''/run/media'') p)"
    using assms(1) by (simp add: mount_secure_sb_mount_def evaluate_denies sensitive_iff [OF assms(2)])
  show "hr_ret (mount_secure_move_mount en mc fm) = - EPERM \<longleftrightarrow>
      is_module_active en (mc_state mc) \<and> fm_flags fm AND SECURE_MOVE_MNT_FLAGS \<noteq> SECURE_MOVE_MNT_FLAGS \<and>
      (has_prefix (str ''/dev/sd'')
         (c_str (if fm_has_devname fm \<and> fm_offset_ok fm then fm_devname fm
                 else (case fm_sb fm of Some (_, sid) \<Rightarrow> sid | None \<Rightarrow> Null))) \<or>
       (\<exists>j < 32. (\<forall>l < j. mc_ancestors mc l \<noteq> None) \<and>
          (\<exists>name. mc_ancestors mc j = Some name \<and>
             (c_str name = map of_nat (str ''mnt'') \<or> has_prefix (str ''media'') (c_str name)))))"
    by (simp add: mount_secure_move_mount_def Let_def evaluate_denies fallback_dentry_check_def
        fallback_from_iff component_iff)
qed

text \<open>A stick mounted on \<open>/mnt\<close> by an unprivileged helper, with two of the three flags.\<close>

definition demo_target :: dpath where
  "demo_target = \<lparr>dp_len = 5, dp_buf = map of_nat (str ''/mnt'') @ [0]\<rparr>"

definition demo_mount :: "kptr \<Rightarrow> dpath \<Rightarrow> mount_call" where
  "demo_mount device target =
     \<lparr>mc_state = Map.empty,
      mc_task = \<lparr>t_tgid = 77, t_pid = 77, t_uid = 1000, t_comm = None\<rparr>,
      mc_dev_name = device, mc_fs_type = Str (kernel_string (str ''vfat'')), mc_path_buffer = True,
      mc_d_path = target, mc_ancestors = (\<lambda>_. None), mc_reserved = None\<rparr>"

lemma demo_target_resolves: "resolves_to demo_target (map of_nat (str ''/mnt''))"
  by (simp add: resolves_to_def demo_target_def str_def)

theorem mount_verdict_witness:
  "hr_ret (mount_secure_sb_mount Little (demo_mount Null demo_target) 6) = - EPERM \<and>
   hr_ret (mount_secure_sb_mount Little (demo_mount Null demo_target) 14) \<noteq> - EPERM"
proof -
  let ?mc = "demo_mount Null demo_target"
  have mc: "mc_path_buffer ?mc" "resolves_to (mc_d_path ?mc) (map of_nat (str ''/mnt''))"
    by (simp_all add: demo_mount_def demo_target_resolves)
  have "is_module_active Little (mc_state ?mc)"
    by (simp add: demo_mount_def is_module_active_def)
  moreover have "(6 :: u64) AND SECURE_MOUNT_FLAGS \<noteq> SECURE_MOUNT_FLAGS"
    "(14 :: u64) AND SECURE_MOUNT_FLAGS = SECURE_MOUNT_FLAGS"
    by (simp_all add: SECURE_MOUNT_FLAGS_def)
  moreover have "has_prefix (str ''/mnt'') (map of_nat (str ''/mnt''))" by (simp add: has_prefix_def)
  ultimately show ?thesis using mount_verdict [OF mc, THEN conjunct1] by blast
qed

text \<open>
  A card is not recognised by its device. Whatever the name behind /dev/mmc, a mount
  without any of the three flags passes, unless its target is one of the three directories.
\<close>

theorem cards_not_recognised:
  assumes "has_prefix (str ''/dev/mmc'') (c_str (mc_dev_name mc))"
    and "mc_path_buffer mc" and "resolves_to (mc_d_path mc) p"
    and "\<not> has_prefix (str ''/mnt'') p" and "\<not> has_prefix (str ''/media'') p"
    and "\<not> has_prefix (str ''/run/media'') p"
  shows "mount_secure_sb_mount en mc flags = allow"
proof -
  have "take 8 (c_str (mc_dev_name mc)) = map of_nat (str ''/dev/mmc'')"
    using assms(1) by (simp add: has_prefix_def eval_nat_numeral)
  then have "take 7 (take 8 (c_str (mc_dev_name mc))) = take 7 (map of_nat (str ''/dev/mmc''))"
    by (rule arg_cong)
  then have "take 7 (c_str (mc_dev_name mc)) \<noteq> map of_nat (str ''/dev/sd'')" by (simp add: str_def)
  then have "\<not> has_prefix (str ''/dev/sd'') (c_str (mc_dev_name mc))"
    by (simp add: has_prefix_def eval_nat_numeral)
  moreover have "dp_len (mc_d_path mc) > 0" using assms(3) by (simp add: resolves_to_def)
  ultimately have "hr_ret (evaluate_secure_mount en mc True) \<noteq> - EPERM"
    using assms by (simp add: evaluate_denies sensitive_iff [OF assms(3)])
  then show ?thesis by (simp add: mount_secure_sb_mount_def evaluate_otherwise)
qed

text \<open>A card mounted on \<open>/srv\<close>.\<close>

theorem cards_not_recognised_witness:
  "mount_secure_sb_mount Little
     (demo_mount (Str (kernel_string (str ''/dev/mmcblk0p1'')))
        \<lparr>dp_len = 5, dp_buf = map of_nat (str ''/srv'') @ [0]\<rparr>) 0 = allow"
proof -
  let ?mc = "demo_mount (Str (kernel_string (str ''/dev/mmcblk0p1'')))
    \<lparr>dp_len = 5, dp_buf = map of_nat (str ''/srv'') @ [0]\<rparr>"
  have card: "has_prefix (str ''/dev/mmc'') (c_str (mc_dev_name ?mc))"
    by (simp add: demo_mount_def has_prefix_def c_str_def kernel_string_def str_def)
  have buffer: "mc_path_buffer ?mc" by (simp add: demo_mount_def)
  have srv: "resolves_to (mc_d_path ?mc) (map of_nat (str ''/srv''))"
    by (simp add: demo_mount_def resolves_to_def str_def)
  have elsewhere: "\<not> has_prefix (str ''/mnt'') (map of_nat (str ''/srv''))" "\<not> has_prefix (str ''/media'') (map of_nat (str ''/srv''))"
    "\<not> has_prefix (str ''/run/media'') (map of_nat (str ''/srv''))"
    by (simp_all add: has_prefix_def str_def)
  show ?thesis by (rule cards_not_recognised [OF card buffer srv elsewhere])
qed

end
