(* ===== verification/BB_Kernel_Dump.thy ===== *)
theory BB_Kernel_Dump
  imports BB_Kernel BB_Dump_Restrict
begin

text \<open>
  \<open>bpf/dump_restrict.bpf.c\<close>: the hooks on opening a core file and on \<open>prctl\<close>, and the pair
  that blocks a piped handler. The observer runs in the crashing process and pushes a token;
  the hook on \<open>execve\<close> pops one when the kernel spawns the handler. The lemmas follow the
  tokens through arbitrary interleavings of the two.
\<close>

section \<open>The synchronous hooks\<close>

record dump_call =
  dc_state :: kmap
  dc_task :: task
  dc_core_state :: bool
  dc_reserved :: "u8 list option"

definition PR_SET_DUMPABLE :: int where "PR_SET_DUMPABLE = 4"

definition dump_record :: "endian \<Rightarrow> task \<Rightarrow> u32 \<Rightarrow> u8 list" where
  "dump_record en t action_type =
     u32_to_ne_bytes en (t_tgid t) @ u32_to_ne_bytes en (get_global_uid t) @
     u32_to_ne_bytes en action_type @ extract_safe_comm (t_comm t) (replicate 16 0)"

definition dispatch_dump_alert :: "endian \<Rightarrow> u8 list option \<Rightarrow> task \<Rightarrow> u32 \<Rightarrow> u8 list list" where
  "dispatch_dump_alert en reserved t action_type = submit reserved (\<lambda>_. dump_record en t action_type)"

definition dump_restrict_file_open :: "endian \<Rightarrow> dump_call \<Rightarrow> hook_result" where
  "dump_restrict_file_open en c =
     (if \<not> is_module_active en (dc_state c) then allow
      else if \<not> dc_core_state c then allow
      else if get_global_uid (dc_task c) \<noteq> 0
      then deny (- EACCES) (dispatch_dump_alert en (dc_reserved c) (dc_task c) 1)
      else allow)"

definition dump_restrict_task_prctl :: "endian \<Rightarrow> dump_call \<Rightarrow> int \<Rightarrow> u64 \<Rightarrow> hook_result" where
  "dump_restrict_task_prctl en c opt arg2 =
     (if \<not> is_module_active en (dc_state c) then allow
      else if opt = PR_SET_DUMPABLE \<and> arg2 = 1
      then (if get_global_uid (dc_task c) \<noteq> 0
            then deny (- EPERM) (dispatch_dump_alert en (dc_reserved c) (dc_task c) 2)
            else allow)
      else allow)"

section \<open>The queue between the observer and the enforcement\<close>

text \<open>
  The oldest token comes first. A push onto a full queue fails and leaves it alone; the
  observer does not look at the result.
\<close>

type_synonym token_queue = "u8 list list"

definition queue_entries :: nat where "queue_entries = 512"

definition bpf_map_push_elem :: "token_queue \<Rightarrow> u8 list \<Rightarrow> token_queue" where
  "bpf_map_push_elem q token = (if length q < queue_entries then q @ [token] else q)"

definition dump_restrict_observer :: "endian \<Rightarrow> dump_call \<Rightarrow> token_queue \<Rightarrow> token_queue" where
  "dump_restrict_observer en c q =
     (if \<not> is_module_active en (dc_state c) then q
      else if \<not> dc_core_state c then q
      else if get_global_uid (dc_task c) = 0 then q
      else bpf_map_push_elem q (dump_record en (dc_task c) 3))"

text \<open>
  \<open>he_parent_mm\<close>: the parent has a memory descriptor, so it is no kernel thread;
  \<open>he_inode\<close>: the inode of the program, \<open>None\<close> when a pointer on the way is null.
\<close>

record handler_exec =
  he_state :: kmap
  he_files :: kmap
  he_parent_mm :: bool
  he_inode :: "inode option"
  he_reserved :: "u8 list option"

definition dump_restrict_bprm_check ::
    "endian \<Rightarrow> handler_exec \<Rightarrow> token_queue \<Rightarrow> hook_result \<times> token_queue" where
  "dump_restrict_bprm_check en e q =
     (if \<not> is_module_active en (he_state e) then (allow, q)
      else if he_parent_mm e then (allow, q)
      else case he_inode e of
             None \<Rightarrow> (allow, q)
           | Some f_inode \<Rightarrow>
               if watched (he_files e) (extract_dir_id_from_inode en f_inode)
               then (case q of
                       [] \<Rightarrow> (allow, q)
                     | token # q' \<Rightarrow>
                         if u32_from_ne_bytes en (take 4 token) \<noteq> 0
                         then (deny (- EPERM) (submit (he_reserved e) (\<lambda>_. token)), q')
                         else (allow, q'))
               else (allow, q))"

text \<open>
  The two halves as the kernel calls them, in any order: \<open>Setup\<close> in a process that spawns a
  helper, \<open>Spawn\<close> when a program is executed. The results are those of the executions.
\<close>

datatype dump_step = Setup dump_call | Spawn handler_exec

fun dump_run :: "endian \<Rightarrow> dump_step list \<Rightarrow> token_queue \<Rightarrow> hook_result list \<times> token_queue" where
  "dump_run en [] q = ([], q)"
| "dump_run en (Setup c # steps) q = dump_run en steps (dump_restrict_observer en c q)"
| "dump_run en (Spawn e # steps) q =
     (case dump_restrict_bprm_check en e q of
        (r, q') \<Rightarrow> (case dump_run en steps q' of (rs, q'') \<Rightarrow> (r # rs, q'')))"

lemma dump_run_Spawn:
  "dump_run en (Spawn e # steps) q =
   (case dump_restrict_bprm_check en e q of
      (r, q') \<Rightarrow> (r # fst (dump_run en steps q'), snd (dump_run en steps q')))"
  by (simp split: prod.split)

section \<open>Records\<close>

definition dump_struct_of :: "task \<Rightarrow> u32 \<Rightarrow> dump_struct" where
  "dump_struct_of t action =
     \<lparr>ds_pid = t_tgid t, ds_uid = t_uid t, ds_action_type = action, ds_comm = comm_array (t_comm t)\<rparr>"

definition dump_reported :: "task \<Rightarrow> u32 \<Rightarrow> dump_alert" where
  "dump_reported t action =
     \<lparr>dump_pid = t_tgid t, dump_uid = t_uid t, dump_action_type = action,
      dump_comm = shown (comm_of (t_comm t))\<rparr>"

lemma dump_record_image: "dump_record en t action = dump_image en (dump_struct_of t action)"
  by (simp add: dump_record_def dump_image_def dump_struct_of_def comm_array_def get_global_uid_def)

lemma dump_struct_of_simps [simp]:
  "comm_sized (t_comm t) \<Longrightarrow> dump_sized (dump_struct_of t action)"
  "dump_meaning (dump_struct_of t action) = dump_reported t action"
  "dump_grumbles (dump_struct_of t action) = noise (comm_of (t_comm t))"
  "ds_pid (dump_struct_of t action) = t_tgid t"
  by (simp_all add: dump_struct_of_def dump_sized_def dump_meaning_def dump_grumbles_def dump_reported_def
      comm_of_def length_comm_array)

lemma dump_record_parsed:
  "comm_sized (t_comm t) \<Longrightarrow>
   dump_try_from_bytes en (dump_record en t action) = (noise (comm_of (t_comm t)), Inr (dump_reported t action))"
  using dump_layout.parse_image by (simp add: dump_record_image)

lemma dump_dispatch_reads_back:
  assumes "comm_sized (t_comm t)" and "d \<in> set (dispatch_dump_alert en reserved t action)"
  shows "28 \<le> length d \<and> dump_view en d = dump_reported t action \<and> dump_warnings d = noise (comm_of (t_comm t))"
  using assms dump_layout.length_image dump_layout.view_image dump_layout.warnings_image
  by (auto simp: dispatch_dump_alert_def submit_member dump_record_image)

lemma dump_dispatch_one: "length (dispatch_dump_alert en reserved t action) \<le> 1"
  by (simp add: dispatch_dump_alert_def submit_def split: option.split)

text \<open>The tokens a queue may hold: structures of the right size, of processes with a pid.\<close>

definition token_ok :: "endian \<Rightarrow> u8 list \<Rightarrow> bool" where
  "token_ok en token \<longleftrightarrow> (\<exists>c. token = dump_image en c \<and> dump_sized c \<and> ds_pid c \<noteq> 0)"

lemma token_ok_pid: "token_ok en token \<Longrightarrow> u32_from_ne_bytes en (take 4 token) \<noteq> 0"
  by (auto simp: token_ok_def dump_image_def)

lemma token_ok_length: "token_ok en token \<Longrightarrow> 28 \<le> length token"
  using dump_layout.length_image by (auto simp: token_ok_def)

lemma record_token_ok:
  "comm_sized (t_comm t) \<Longrightarrow> t_tgid t \<noteq> 0 \<Longrightarrow> token_ok en (dump_record en t action)"
  unfolding token_ok_def by (rule exI [of _ "dump_struct_of t action"]) (simp add: dump_record_image)

text \<open>The observer keeps the queue readable, and its size within the bound.\<close>

lemma observer_token_ok:
  "\<forall>x \<in> set q. token_ok en x \<Longrightarrow> comm_sized (t_comm (dc_task c)) \<Longrightarrow> t_tgid (dc_task c) \<noteq> 0 \<Longrightarrow>
   \<forall>x \<in> set (dump_restrict_observer en c q). token_ok en x"
  by (simp add: dump_restrict_observer_def bpf_map_push_elem_def record_token_ok)

lemma observer_bound:
  "length q \<le> queue_entries \<Longrightarrow> length (dump_restrict_observer en c q) \<le> queue_entries"
  by (simp add: dump_restrict_observer_def bpf_map_push_elem_def)

section \<open>Interfaces\<close>

interpretation dump_open_hook: reporting_hook dump_restrict_spec en 28 "dump_view en" dump_warnings
  "dump_restrict_file_open en" "\<lambda>c. is_module_active en (dc_state c)" "\<lambda>c. comm_sized (t_comm (dc_task c))"
  "\<lambda>c. dump_reported (dc_task c) 1" "\<lambda>c. noise (comm_of (t_comm (dc_task c)))" for en
  by unfold_locales
    (use dump_dispatch_reads_back dump_dispatch_one in \<open>auto simp: dump_restrict_file_open_def split: if_splits\<close>)

interpretation dump_prctl_hook: reporting_hook dump_restrict_spec en 28 "dump_view en" dump_warnings
  "\<lambda>(c, opt, arg2). dump_restrict_task_prctl en c opt arg2"
  "\<lambda>(c, _). is_module_active en (dc_state c)" "\<lambda>(c, _). comm_sized (t_comm (dc_task c))"
  "\<lambda>(c, _). dump_reported (dc_task c) 2" "\<lambda>(c, _). noise (comm_of (t_comm (dc_task c)))" for en
  by unfold_locales
    (use dump_dispatch_reads_back dump_dispatch_one in \<open>auto simp: dump_restrict_task_prctl_def split: if_splits\<close>)

interpretation dump_spawn_hook: reporting_hook dump_restrict_spec en 28 "dump_view en" dump_warnings
  "\<lambda>(e, q). fst (dump_restrict_bprm_check en e q)" "\<lambda>(e, _). is_module_active en (he_state e)"
  "\<lambda>(_, q). \<forall>token \<in> set q. token_ok en token" "\<lambda>(_, q). dump_view en (hd q)"
  "\<lambda>(_, q). dump_warnings (hd q)" for en
  by unfold_locales
    (auto simp: dump_restrict_bprm_check_def submit_def token_ok_length split: option.splits list.splits if_splits)

section \<open>The life of a token\<close>

text \<open>The crashes and executions of a sequence of steps that are the program's concern.\<close>

definition unprivileged_crash :: "endian \<Rightarrow> dump_call \<Rightarrow> bool" where
  "unprivileged_crash en c \<longleftrightarrow>
     is_module_active en (dc_state c) \<and> dc_core_state c \<and> get_global_uid (dc_task c) \<noteq> 0"

definition handler_started :: "endian \<Rightarrow> handler_exec \<Rightarrow> bool" where
  "handler_started en e \<longleftrightarrow>
     is_module_active en (he_state e) \<and> \<not> he_parent_mm e \<and>
     (\<exists>i. he_inode e = Some i \<and> watched (he_files e) (extract_dir_id_from_inode en i))"

fun crashes :: "endian \<Rightarrow> dump_step list \<Rightarrow> dump_call list" where
  "crashes en [] = []"
| "crashes en (Setup c # steps) = (if unprivileged_crash en c then [c] else []) @ crashes en steps"
| "crashes en (Spawn e # steps) = crashes en steps"

fun executions :: "dump_step list \<Rightarrow> handler_exec list" where
  "executions [] = []"
| "executions (Setup c # steps) = executions steps"
| "executions (Spawn e # steps) = e # executions steps"

definition handlings :: "endian \<Rightarrow> dump_step list \<Rightarrow> handler_exec list" where
  "handlings en steps = filter (handler_started en) (executions steps)"

definition tokens :: "endian \<Rightarrow> dump_step list \<Rightarrow> token_queue" where
  "tokens en steps = map (\<lambda>c. dump_record en (dc_task c) 3) (crashes en steps)"

text \<open>The crashing processes have a pid, and a name of 16 bytes when they have one.\<close>

definition crashes_sound :: "dump_step list \<Rightarrow> bool" where
  "crashes_sound steps \<longleftrightarrow>
     (\<forall>c. Setup c \<in> set steps \<longrightarrow> comm_sized (t_comm (dc_task c)) \<and> t_tgid (dc_task c) \<noteq> 0)"

text \<open>Every crash finds room in the queue: at most 511 tokens are outstanding then.\<close>

fun never_full :: "endian \<Rightarrow> dump_step list \<Rightarrow> token_queue \<Rightarrow> bool" where
  "never_full en [] q \<longleftrightarrow> True"
| "never_full en (Setup c # steps) q \<longleftrightarrow>
     (unprivileged_crash en c \<longrightarrow> length q < queue_entries) \<and>
     never_full en steps (dump_restrict_observer en c q)"
| "never_full en (Spawn e # steps) q \<longleftrightarrow> never_full en steps (snd (dump_restrict_bprm_check en e q))"

text \<open>The executions that were refused, each with the hook's result.\<close>

definition refused :: "hook_result \<Rightarrow> bool" where
  "refused r \<longleftrightarrow> hr_ret r = - EPERM"

definition refusals :: "endian \<Rightarrow> dump_step list \<Rightarrow> token_queue \<Rightarrow> (handler_exec \<times> hook_result) list" where
  "refusals en steps q = filter (\<lambda>(e, r). refused r) (zip (executions steps) (fst (dump_run en steps q)))"

lemma refused_simps [simp]: "\<not> refused allow" "refused (deny (- EPERM) es)"
  by (simp_all add: refused_def)

lemma life_Nil [simp]: "handlings en [] = []" "tokens en [] = []" "refusals en [] q = []"
  by (simp_all add: handlings_def tokens_def refusals_def)

lemma life_Setup [simp]:
  "handlings en (Setup c # steps) = handlings en steps"
  "tokens en (Setup c # steps) =
     (if unprivileged_crash en c then dump_record en (dc_task c) 3 # tokens en steps else tokens en steps)"
  "refusals en (Setup c # steps) q = refusals en steps (dump_restrict_observer en c q)"
  "crashes_sound (Setup c # steps) \<longleftrightarrow>
     comm_sized (t_comm (dc_task c)) \<and> t_tgid (dc_task c) \<noteq> 0 \<and> crashes_sound steps"
  by (auto simp: handlings_def tokens_def refusals_def crashes_sound_def)

lemma life_Spawn [simp]:
  "handlings en (Spawn e # steps) = (if handler_started en e then e # handlings en steps else handlings en steps)"
  "tokens en (Spawn e # steps) = tokens en steps"
  "crashes_sound (Spawn e # steps) \<longleftrightarrow> crashes_sound steps"
  by (auto simp: handlings_def tokens_def crashes_sound_def)

lemma refusals_Spawn:
  "dump_restrict_bprm_check en e q = (r, q') \<Longrightarrow>
   refusals en (Spawn e # steps) q = (if refused r then [(e, r)] else []) @ refusals en steps q'"
  by (simp add: refusals_def dump_run_Spawn del: dump_run.simps(3))

lemma observer_eq:
  "dump_restrict_observer en c q =
   (if unprivileged_crash en c then bpf_map_push_elem q (dump_record en (dc_task c) 3) else q)"
  by (simp add: dump_restrict_observer_def unprivileged_crash_def)

lemma bprm_eq:
  assumes "\<forall>token \<in> set q. token_ok en token"
  shows "dump_restrict_bprm_check en e q =
    (if handler_started en e \<and> q \<noteq> []
     then (deny (- EPERM) (submit (he_reserved e) (\<lambda>_. hd q)), tl q) else (allow, q))"
  using assms token_ok_pid
  by (cases q) (auto simp: dump_restrict_bprm_check_def handler_started_def split: option.split)

text \<open>
  What a refused execution does with the token it took: it reports it when the ring buffer
  has room. \<open>spends\<close> says so of every refusal and token, in order.
\<close>

definition spend :: "handler_exec \<Rightarrow> u8 list \<Rightarrow> hook_result" where
  "spend e token = deny (- EPERM) (submit (he_reserved e) (\<lambda>_. token))"

definition spends :: "(handler_exec \<times> hook_result) list \<Rightarrow> token_queue \<Rightarrow> bool" where
  "spends answers toks \<longleftrightarrow>
     list_all2 (\<lambda>(e, r) token. r = spend e token) answers toks"

lemma never_full_push:
  "never_full en (Setup c # steps) q \<Longrightarrow>
   dump_restrict_observer en c q = (if unprivileged_crash en c then q @ [dump_record en (dc_task c) 3] else q)"
  by (simp add: observer_eq bpf_map_push_elem_def)

lemma tokens_conserved:
  assumes "never_full en steps q" "\<forall>token \<in> set q. token_ok en token" "crashes_sound steps"
  shows "\<exists>spent. spends (refusals en steps q) spent \<and>
    spent @ snd (dump_run en steps q) = q @ tokens en steps \<and>
    (\<forall>token \<in> set (snd (dump_run en steps q)). token_ok en token)"
  using assms
proof (induction steps arbitrary: q)
  case Nil
  then show ?case by (intro exI [of _ "[]"]) (simp add: spends_def)
next
  case (Cons s steps)
  show ?case
  proof (cases s)
    case (Setup c)
    let ?q = "dump_restrict_observer en c q"
    have "\<forall>token \<in> set ?q. token_ok en token"
      by (rule observer_token_ok) (use Cons.prems in \<open>simp_all add: Setup\<close>)
    moreover have "never_full en steps ?q" "crashes_sound steps" using Cons.prems by (simp_all add: Setup)
    ultimately obtain spent where "spends (refusals en steps ?q) spent"
      "spent @ snd (dump_run en steps ?q) = ?q @ tokens en steps"
      "\<forall>token \<in> set (snd (dump_run en steps ?q)). token_ok en token"
      using Cons.IH [of ?q] by blast
    then show ?thesis using never_full_push [of en c steps q] Cons.prems(1)
      by (intro exI [of _ spent]) (simp add: Setup split: if_splits)
  next
    case (Spawn e)
    obtain r q' where step: "dump_restrict_bprm_check en e q = (r, q')" by force
    have eq: "(r, q') = (if handler_started en e \<and> q \<noteq> [] then (spend e (hd q), tl q) else (allow, q))"
      using bprm_eq [OF Cons.prems(2), of e] step by (simp add: spend_def)
    then have "set q' \<subseteq> set q" by (auto split: if_splits dest: list.set_sel(2))
    with Cons.prems(2) have "\<forall>token \<in> set q'. token_ok en token" by blast
    moreover have "never_full en steps q'" "crashes_sound steps" using Cons.prems by (simp_all add: Spawn step)
    ultimately obtain spent where spent: "spends (refusals en steps q') spent"
      "spent @ snd (dump_run en steps q') = q' @ tokens en steps"
      "\<forall>token \<in> set (snd (dump_run en steps q')). token_ok en token"
      using Cons.IH [of q'] by blast
    have run: "snd (dump_run en (Spawn e # steps) q) = snd (dump_run en steps q')"
      by (simp add: dump_run_Spawn step del: dump_run.simps(3))
    show ?thesis
    proof (cases "handler_started en e \<and> q \<noteq> []")
      case True
      then have "r = spend e (hd q)" "q = hd q # q'" using eq by simp_all
      then show ?thesis
        using spent refusals_Spawn [OF step, of steps] run
        by (intro exI [of _ "hd q # spent"]) (simp add: Spawn spends_def spend_def del: dump_run.simps(3))
    next
      case False
      then have "r = allow" "q' = q" using eq by auto
      then show ?thesis
        using spent refusals_Spawn [OF step, of steps] run
        by (intro exI [of _ spent]) (simp add: Spawn del: dump_run.simps(3))
    qed
  qed
qed

text \<open>
  When the queue is empty: unless, in some last part of the steps, more unprivileged
  processes crashed than handlers were executed.
\<close>

definition in_arrears :: "endian \<Rightarrow> dump_step list \<Rightarrow> bool" where
  "in_arrears en steps \<longleftrightarrow>
     (\<exists>before after. steps = before @ after \<and> length (handlings en after) < length (crashes en after))"

lemma in_arrears_Nil [simp]: "\<not> in_arrears en []"
  by (simp add: in_arrears_def)

lemma in_arrears_Cons:
  "in_arrears en (s # steps) \<longleftrightarrow>
   in_arrears en steps \<or> length (handlings en (s # steps)) < length (crashes en (s # steps))"
  by (auto simp: in_arrears_def Cons_eq_append_conv)

lemma in_arrears_all: "length (handlings en steps) < length (crashes en steps) \<Longrightarrow> in_arrears en steps"
  unfolding in_arrears_def by (rule exI [of _ "[]"]) simp

lemma queue_in_arrears:
  assumes "never_full en steps q" "\<forall>token \<in> set q. token_ok en token" "crashes_sound steps"
  shows "snd (dump_run en steps q) \<noteq> [] \<longleftrightarrow>
    in_arrears en steps \<or> length (handlings en steps) < length q + length (crashes en steps)"
  using assms
proof (induction steps arbitrary: q)
  case Nil
  then show ?case by simp
next
  case (Cons s steps)
  show ?case
  proof (cases s)
    case (Setup c)
    let ?q = "dump_restrict_observer en c q"
    have "\<forall>token \<in> set ?q. token_ok en token"
      by (rule observer_token_ok) (use Cons.prems in \<open>simp_all add: Setup\<close>)
    moreover have "never_full en steps ?q" "crashes_sound steps" using Cons.prems by (simp_all add: Setup)
    ultimately have "snd (dump_run en steps ?q) \<noteq> [] \<longleftrightarrow>
        in_arrears en steps \<or> length (handlings en steps) < length ?q + length (crashes en steps)"
      using Cons.IH [of ?q] by blast
    then show ?thesis using never_full_push [of en c steps q] Cons.prems(1)
      by (auto simp: Setup in_arrears_Cons split: if_splits)
  next
    case (Spawn e)
    obtain r q' where step: "dump_restrict_bprm_check en e q = (r, q')" by force
    have eq: "q' = (if handler_started en e then tl q else q)"
      using bprm_eq [OF Cons.prems(2), of e] step by (auto split: if_splits)
    then have "set q' \<subseteq> set q" by (cases q) auto
    with Cons.prems(2) have "\<forall>token \<in> set q'. token_ok en token" by blast
    moreover have "never_full en steps q'" "crashes_sound steps" using Cons.prems by (simp_all add: Spawn step)
    ultimately have ih: "snd (dump_run en steps q') \<noteq> [] \<longleftrightarrow>
        in_arrears en steps \<or> length (handlings en steps) < length q' + length (crashes en steps)"
      using Cons.IH [of q'] by blast
    have run: "snd (dump_run en (Spawn e # steps) q) = snd (dump_run en steps q')"
      by (simp add: dump_run_Spawn step del: dump_run.simps(3))
    show ?thesis unfolding Spawn run ih using eq in_arrears_all [of en steps]
      by (cases q) (auto simp: in_arrears_Cons simp del: dump_run.simps(3))
  qed
qed

section \<open>Properties\<close>


definition demo_crash :: "u32 \<Rightarrow> u32 \<Rightarrow> dump_call" where
  "demo_crash pid uid =
     \<lparr>dc_state = Map.empty, dc_task = \<lparr>t_tgid = pid, t_pid = pid, t_uid = uid, t_comm = None\<rparr>,
      dc_core_state = True, dc_reserved = None\<rparr>"

definition demo_handler :: handler_exec where
  "demo_handler =
     \<lparr>he_state = Map.empty, he_files = (\<lambda>_. Some [1]), he_parent_mm = False,
      he_inode = Some \<lparr>i_ino = 9, i_dev = 1, i_mode = 0x81ED, i_nlink = 1, s_magic = 0xEF53\<rparr>,
      he_reserved = Some []\<rparr>"

lemma demo_comm: "comm_sized None"
  by (simp add: comm_sized_def)

lemma demo_crash_simps:
  "uid \<noteq> 0 \<Longrightarrow> unprivileged_crash en (demo_crash pid uid)"
  "\<not> unprivileged_crash en (demo_crash pid 0)"
  "handler_started en demo_handler"
  "pid \<noteq> 0 \<Longrightarrow> token_ok en (dump_record en (dc_task (demo_crash pid uid)) 3)"
  using record_token_ok [of "dc_task (demo_crash pid uid)" en 3] demo_comm
  by (simp_all add: unprivileged_crash_def demo_crash_def is_module_active_def get_global_uid_def
      handler_started_def demo_handler_def watched_def)

text \<open>Two crashes, then two executions, the first with a full ring buffer.\<close>

definition demo_steps :: "dump_step list" where
  "demo_steps =
     [Setup (demo_crash 7 1000), Setup (demo_crash 8 1000),
      Spawn (demo_handler\<lparr>he_reserved := None\<rparr>), Spawn demo_handler]"

lemma demo_blind: "handler_started en (demo_handler\<lparr>he_reserved := None\<rparr>)"
  by (simp add: handler_started_def demo_handler_def watched_def is_module_active_def)

lemma demo_crash_sound:
  "comm_sized (t_comm (dc_task (demo_crash pid uid)))" "t_tgid (dc_task (demo_crash pid uid)) = pid"
  "crashes_sound []"
  by (simp_all add: crashes_sound_def demo_crash_def demo_comm)

lemma demo_steps_run:
  "dump_run Little demo_steps [] =
   ([deny (- EPERM) [], deny (- EPERM) [dump_record Little (dc_task (demo_crash 8 1000)) 3]], [])"
  by (simp add: demo_steps_def observer_eq bpf_map_push_elem_def queue_entries_def bprm_eq demo_crash_simps
      demo_blind) (simp add: demo_handler_def)


text \<open>
  The queue overflows silently. After any number of unprivileged crashes, the handler
  is refused for the first 512 of the executions that follow, and runs for all the others.
\<close>

lemma crashes_queue:
  assumes "\<forall>c \<in> set calls. unprivileged_crash en c" and "length q \<le> queue_entries"
  shows "dump_run en (map Setup calls @ steps) q =
    dump_run en steps (take queue_entries (q @ map (\<lambda>c. dump_record en (dc_task c) 3) calls))"
  using assms
proof (induction calls arbitrary: q)
  case Nil
  then show ?case by simp
next
  case (Cons c cs)
  then show ?case by (auto simp: observer_eq bpf_map_push_elem_def not_less take_Cons')
qed

lemma handlers_drain:
  assumes "\<forall>e \<in> set execs. handler_started en e" and "\<forall>token \<in> set q. token_ok en token"
  shows "map hr_ret (fst (dump_run en (map Spawn execs) q)) =
    replicate (min (length execs) (length q)) (- EPERM) @ replicate (length execs - length q) 0"
  using assms
proof (induction execs arbitrary: q)
  case Nil
  then show ?case by simp
next
  case (Cons e es)
  then show ?case
    by (cases q) (simp_all add: dump_run_Spawn bprm_eq del: dump_run.simps(3))
qed

theorem dump_queue_fails_open:
  assumes "\<forall>c \<in> set calls. unprivileged_crash en c \<and> token_ok en (dump_record en (dc_task c) 3)"
    and "\<forall>e \<in> set execs. handler_started en e"
    and "length execs = length calls"
  shows "map hr_ret (fst (dump_run en (map Setup calls @ map Spawn execs) [])) =
    replicate (min 512 (length calls)) (- EPERM) @ replicate (length calls - 512) 0"
proof -
  let ?q = "take queue_entries (map (\<lambda>c. dump_record en (dc_task c) 3) calls)"
  have run: "dump_run en (map Setup calls @ map Spawn execs) [] = dump_run en (map Spawn execs) ?q"
    using assms(1) crashes_queue [of calls en "[]"] by simp
  have "\<forall>token \<in> set ?q. token_ok en token" using assms(1) by (auto dest!: in_set_takeD)
  then show ?thesis
    unfolding run using handlers_drain [OF assms(2), of ?q] assms(3)
    by (simp add: queue_entries_def min.commute)
qed

theorem dump_queue_fails_open_witness:
  "map hr_ret (fst (dump_run Little
     (map Setup (replicate 513 (demo_crash 7 1000)) @ map Spawn (replicate 513 demo_handler)) [])) =
   replicate 512 (- EPERM) @ [0]"
proof -
  have "replicate (513 - 512) (0 :: int) = [0]" by simp
  then show ?thesis
    using dump_queue_fails_open [of "replicate 513 (demo_crash 7 1000)" Little "replicate 513 demo_handler"]
    by (simp add: demo_crash_simps)
qed

text \<open>
  Tokens are not tied to the crash that pushed them. When root's crash is handled before
  an unprivileged one, root's handler is refused, in the name of the other process, and the
  handler of the unprivileged crash runs.
\<close>

theorem dump_token_misspent:
  assumes "unprivileged_crash en c" and "token_ok en (dump_record en (dc_task c) 3)"
    and "get_global_uid (dc_task root_crash) = 0"
    and "handler_started en root_handler" and "handler_started en handler"
    and "he_reserved root_handler = Some mem"
  shows "fst (dump_run en [Setup c, Setup root_crash, Spawn root_handler, Spawn handler] []) =
    [deny (- EPERM) [dump_record en (dc_task c) 3], allow]"
proof -
  have "\<not> unprivileged_crash en root_crash" using assms(3) by (simp add: unprivileged_crash_def)
  then show ?thesis
    using assms by (simp add: observer_eq bpf_map_push_elem_def queue_entries_def bprm_eq)
qed

theorem dump_token_misspent_witness:
  "fst (dump_run Little
     [Setup (demo_crash 7 1000), Setup (demo_crash 1 0), Spawn demo_handler, Spawn demo_handler] []) =
   [deny (- EPERM) [dump_record Little (dc_task (demo_crash 7 1000)) 3], allow]"
  by (rule dump_token_misspent [where mem = "[]"])
    (simp_all add: demo_crash_simps, simp_all add: demo_crash_def demo_handler_def get_global_uid_def)

lemma dump_init_watches:
  assumes "mp_get_map (su_provider su) (str ''protected_files'') p = Inr m"
    and "map_keys (su_api su) m = {}" and "bpf_hash_ok (su_api su) 16"
    and "read_to_string (su_host su) (str ''/proc/sys/kernel/core_pattern'') = Some core_pattern"
    and "piped_handler core_pattern = Some w" and "names_file (su_host su) w i"
  obtains m' where "snd (dump_init su p) = (Inr (), mp_store (su_provider su) (str ''protected_files'') m' p)"
    and "\<And>k. map_lookup (su_api su) k m' =
      (if k = extract_dir_id_from_inode (su_endian su) i then Some protected_value else None)"
proof -
  have key: "get_secure_hardware_key (su_endian su) (su_host su) w =
      Some (extract_dir_id_from_inode (su_endian su) i)"
    using assms(6) hardware_key_dir_id by (auto simp: names_file_def get_secure_hardware_key_def)
  obtain m' where m': "map_update (su_api su) (extract_dir_id_from_inode (su_endian su) i) protected_value m = Inr m'"
    by (rule map_update_room [OF bpf_hash_room [OF assms(3)], of m "extract_dir_id_from_inode (su_endian su) i" protected_value])
      (simp_all add: assms(2))
  have "map_lookup (su_api su) k m = None" for k using assms(2) by (auto simp: map_keys_def)
  then have "map_lookup (su_api su) k m' =
      (if k = extract_dir_id_from_inode (su_endian su) i then Some protected_value else None)" for k
    using map_update_lookup [OF assms(3) m'] by auto
  then show ?thesis
    by (rule that [rotated]) (simp add: dump_init_def assms(1,4,5) key m')
qed

text \<open>The crash whose token an execution after these steps takes.\<close>

lemma next_token:
  assumes "never_full en steps []" "crashes_sound steps" "snd (dump_run en steps []) \<noteq> []"
  shows "length (refusals en steps []) < length (crashes en steps)"
    and "hd (snd (dump_run en steps [])) =
      dump_record en (dc_task (crashes en steps ! length (refusals en steps []))) 3"
proof -
  obtain spent where spent: "spends (refusals en steps []) spent"
    "spent @ snd (dump_run en steps []) = tokens en steps"
    using tokens_conserved [OF assms(1) _ assms(2)] by auto
  then have len: "length spent = length (refusals en steps [])"
    by (simp add: spends_def list_all2_lengthD)
  have "length spent < length (tokens en steps)"
    unfolding spent(2) [symmetric] using assms(3) by simp
  then show less: "length (refusals en steps []) < length (crashes en steps)"
    by (simp add: len tokens_def)
  have "hd (snd (dump_run en steps [])) = tokens en steps ! length spent"
    unfolding spent(2) [symmetric] using assms(3) by (simp add: nth_append hd_conv_nth)
  then show "hd (snd (dump_run en steps [])) =
      dump_record en (dc_task (crashes en steps ! length (refusals en steps []))) 3"
    using less by (simp add: len tokens_def)
qed

lemma crash_sound: "crashes_sound steps \<Longrightarrow> c \<in> set (crashes en steps) \<Longrightarrow> comm_sized (t_comm (dc_task c))"
  by (induction en steps rule: crashes.induct) (auto split: if_splits)

text \<open>
  C12: from the core pattern to the report. The initialisation reads a piped pattern, the
  handler it names is an inode, and the watchlist and the queue were empty. Whatever
  unprivileged and other crashes and executions follow, in whatever order, as long as every
  crash finds room in the queue (and a crashing process has a process id and a name of 16
  bytes): with the module active, a kernel thread's child is refused that inode exactly when,
  in some last part of the steps before, more unprivileged processes crashed than handlers were
  executed (root's crashes push no token, but the handlers of root's crashes take one). The
  record it submits, when the ring buffer has room, is that of the first unprivileged crash no
  earlier refusal has answered, and the module's parser reads it as that crash.
\<close>

theorem piped_crash_blocked:
  assumes "mp_get_map (su_provider su) (str ''protected_files'') p = Inr m"
    and "map_keys (su_api su) m = {}" and "bpf_hash_ok (su_api su) 16"
    and "read_to_string (su_host su) (str ''/proc/sys/kernel/core_pattern'') = Some core_pattern"
    and "piped_handler core_pattern = Some w" and "names_file (su_host su) w i"
    and "never_full (su_endian su) steps []" and "crashes_sound steps"
  shows "\<exists>m'. snd (dump_init su p) = (Inr (), mp_store (su_provider su) (str ''protected_files'') m' p) \<and>
    (\<forall>e. is_module_active (su_endian su) (he_state e) \<and> \<not> he_parent_mm e \<and> he_inode e = Some i \<and>
        he_files e = kmap_of (su_api su) m' \<longrightarrow>
      fst (dump_restrict_bprm_check (su_endian su) e (snd (dump_run (su_endian su) steps []))) =
      (if in_arrears (su_endian su) steps
       then deny (- EPERM) (submit (he_reserved e) (\<lambda>_. dump_record (su_endian su)
          (dc_task (crashes (su_endian su) steps ! length (refusals (su_endian su) steps []))) 3))
       else allow)) \<and>
    (in_arrears (su_endian su) steps \<longrightarrow>
      length (refusals (su_endian su) steps []) < length (crashes (su_endian su) steps)) \<and>
    (\<forall>c \<in> set (crashes (su_endian su) steps).
      snd (dump_try_from_bytes (su_endian su) (dump_record (su_endian su) (dc_task c) 3)) =
      Inr \<lparr>dump_pid = t_tgid (dc_task c), dump_uid = t_uid (dc_task c), dump_action_type = 3,
           dump_comm = shown (comm_of (t_comm (dc_task c)))\<rparr>)"
proof (rule dump_init_watches [OF assms(1-6)], goal_cases)
  case (1 m')
  let ?en = "su_endian su" and ?q = "snd (dump_run (su_endian su) steps [])"
  have ok: "\<forall>token \<in> set ?q. token_ok ?en token"
    using tokens_conserved [OF assms(7) _ assms(8)] by auto
  have arrears: "?q \<noteq> [] \<longleftrightarrow> in_arrears ?en steps"
    using queue_in_arrears [OF assms(7) _ assms(8)] in_arrears_all by auto
  have "handler_started ?en e" if "is_module_active ?en (he_state e) \<and> \<not> he_parent_mm e \<and> he_inode e = Some i \<and>
        he_files e = kmap_of (su_api su) m'" for e
    using that by (simp add: handler_started_def watched_def kmap_of_def 1(2) protected_value_def)
  moreover have "\<forall>c \<in> set (crashes ?en steps).
      snd (dump_try_from_bytes ?en (dump_record ?en (dc_task c) 3)) = Inr (dump_reported (dc_task c) 3)"
    using crash_sound [OF assms(8)] by (simp add: dump_record_parsed)
  ultimately show ?case
    using 1(1) next_token [OF assms(7,8)] arrears
    by (intro exI [of _ m']) (simp add: bprm_eq [OF ok] dump_reported_def)
qed

text \<open>\<open>|/bin/core %p\<close>, with the handler at inode 9 of device 8:2.\<close>

definition demo_core_ctx :: "((u8 list \<times> u8 list) list, (u8 list \<times> u8 list) list) init_ctx" where
  "demo_core_ctx =
     \<lparr>su_endian = Little,
      su_host = \<lparr>walk = (\<lambda>_ _. []),
        openat = (\<lambda>_ _. Some \<lparr>of_meta = Some \<lparr>md_ino = 9, md_dev = 2050\<rparr>, of_xattr = (\<lambda>_. None)\<rparr>),
        read_to_string = (\<lambda>_. Some ([] @ 124 # str ''/bin/core'' @ 32 # str ''%p'')), parse_toml = (\<lambda>_. None)\<rparr>,
      su_api = hash_map 16,
      su_provider = \<lparr>mp_get_map = (\<lambda>_ p. Inr p), mp_store = (\<lambda>_ m _. m)\<rparr>\<rparr>"

definition demo_core_inode :: inode where
  "demo_core_inode = \<lparr>i_ino = 9, i_dev = 0x800002, i_mode = 0x81ED, i_nlink = 1, s_magic = 0xEF53\<rparr>"

text \<open>
  Two crashes and one execution: the next one is refused in the name of the second crash.
\<close>

definition demo_arrears :: "dump_step list" where
  "demo_arrears = [Setup (demo_crash 7 1000), Setup (demo_crash 8 1000), Spawn demo_handler]"

lemma demo_arrears_simps:
  "never_full Little demo_arrears []" "crashes_sound demo_arrears" "in_arrears Little demo_arrears"
  "crashes Little demo_arrears = [demo_crash 7 1000, demo_crash 8 1000]"
  "length (refusals Little demo_arrears []) = 1"
proof -
  have step: "dump_restrict_bprm_check Little demo_handler
      [dump_record Little (dc_task (demo_crash 7 1000)) 3, dump_record Little (dc_task (demo_crash 8 1000)) 3] =
    (deny (- EPERM) (submit (he_reserved demo_handler) (\<lambda>_. dump_record Little (dc_task (demo_crash 7 1000)) 3)),
     [dump_record Little (dc_task (demo_crash 8 1000)) 3])"
    by (simp add: bprm_eq demo_crash_simps)
  show "never_full Little demo_arrears []"
    by (simp add: demo_arrears_def observer_eq bpf_map_push_elem_def queue_entries_def demo_crash_simps)
  show "crashes_sound demo_arrears" by (simp add: demo_arrears_def demo_crash_sound)
  show "in_arrears Little demo_arrears"
    by (rule in_arrears_all) (simp add: demo_arrears_def demo_crash_simps)
  show "crashes Little demo_arrears = [demo_crash 7 1000, demo_crash 8 1000]"
    by (simp add: demo_arrears_def demo_crash_simps)
  show "length (refusals Little demo_arrears []) = 1"
    by (simp add: demo_arrears_def observer_eq bpf_map_push_elem_def queue_entries_def demo_crash_simps
        refusals_Spawn [OF step])
qed

theorem piped_crash_blocked_witness:
  "\<exists>m'. snd (dump_init demo_core_ctx []) = (Inr (), m') \<and>
     fst (dump_restrict_bprm_check Little
       (demo_handler\<lparr>he_files := kmap_of (hash_map 16) m', he_inode := Some demo_core_inode\<rparr>)
       (snd (dump_run Little demo_arrears []))) =
     deny (- EPERM) [dump_record Little (dc_task (demo_crash 8 1000)) 3]"
proof -
  have words: "\<forall>c \<in> set (str ''/bin/core''). \<not> is_whitespace c" by (simp add: str_def is_whitespace_def)
  have names: "names_file (su_host demo_core_ctx) (str ''/bin/core'') demo_core_inode"
    unfolding names_file_def
    by (rule exI [of _ "\<lparr>of_meta = Some \<lparr>md_ino = 9, md_dev = 2050\<rparr>, of_xattr = \<lambda>_. None\<rparr>"],
        rule exI [of _ "\<lparr>md_ino = 9, md_dev = 2050\<rparr>"], rule exI [of _ 8], rule exI [of _ 2])
      (simp add: demo_core_ctx_def demo_core_inode_def stat_of_def gnu_dev_makedev_def)
  have ctx: "mp_get_map (su_provider demo_core_ctx) (str ''protected_files'') [] = Inr []"
    "map_keys (su_api demo_core_ctx) [] = {}" "bpf_hash_ok (su_api demo_core_ctx) 16"
    "read_to_string (su_host demo_core_ctx) (str ''/proc/sys/kernel/core_pattern'') =
      Some ([] @ 124 # str ''/bin/core'' @ 32 # str ''%p'')"
    using hash_map_ok [of 16] by (simp_all add: demo_core_ctx_def map_keys_def) (simp add: hash_map_def)
  have pattern: "piped_handler ([] @ 124 # str ''/bin/core'' @ 32 # str ''%p'') = Some (str ''/bin/core'')"
    by (rule piped_handler_args) (use words in \<open>simp_all add: str_def\<close>)
  have steps: "never_full (su_endian demo_core_ctx) demo_arrears []" "crashes_sound demo_arrears"
    by (simp_all add: demo_arrears_simps demo_core_ctx_def)
  have fields: "su_endian demo_core_ctx = Little" "su_api demo_core_ctx = hash_map 16"
    "mp_store (su_provider demo_core_ctx) n x y = x" for n x y
    by (simp_all add: demo_core_ctx_def)
  obtain m' where m': "snd (dump_init demo_core_ctx []) = (Inr (), m')"
    and deny: "\<And>e. is_module_active Little (he_state e) \<and> \<not> he_parent_mm e \<and>
        he_inode e = Some demo_core_inode \<and> he_files e = kmap_of (hash_map 16) m' \<Longrightarrow>
      fst (dump_restrict_bprm_check Little e (snd (dump_run Little demo_arrears []))) =
      deny (- EPERM) (submit (he_reserved e) (\<lambda>_. dump_record Little (dc_task (demo_crash 8 1000)) 3))"
    using piped_crash_blocked [OF ctx pattern names steps, unfolded fields] demo_arrears_simps by auto
  show ?thesis
    by (rule exI [of _ m']) (use m' in \<open>simp add: deny demo_handler_def is_module_active_def\<close>)
qed

end
