(* ===== verification/BB_Kernel_Madvise.thy ===== *)
theory BB_Kernel_Madvise
  imports BB_Kernel BB_Madvise_Ratelimit
begin

text \<open>
  \<open>bpf/madvise_ratelimit.bpf.c\<close>: the tracepoint that counts the \<open>MADV_DONTNEED\<close> calls of a
  user and kills the thread that exceeds the quota. The lemmas give the exact calls of a
  user that are killed, whatever other users do in between.
\<close>

section \<open>The tracepoint\<close>

definition RATELIMIT_WINDOW_NS :: u64 where "RATELIMIT_WINDOW_NS = 1000000000"
definition RATELIMIT_THRESHOLD :: u64 where "RATELIMIT_THRESHOLD = 10000"
definition MADV_DONTNEED :: u32 where "MADV_DONTNEED = 4"

record madvise_tracker =
  window_start :: u64
  tr_count :: u32

type_synonym trackers = "u32 \<rightharpoonup> madvise_tracker"

text \<open>
  \<open>ma_args2\<close> is the third argument of the system call, \<open>ma_now\<close> the clock and \<open>ma_sig\<close> the
  result of sending the signal.
\<close>

record madvise_call =
  ma_state :: kmap
  ma_task :: task
  ma_args2 :: u64
  ma_now :: u64
  ma_sig :: int
  ma_reserved :: "u8 list option"

definition madvise_record :: "endian \<Rightarrow> task \<Rightarrow> u64 \<Rightarrow> u8 list" where
  "madvise_record en t current_count =
     u32_to_ne_bytes en (t_tgid t) @ u32_to_ne_bytes en (t_pid t) @
     u32_to_ne_bytes en (ucast current_count) @ u32_to_ne_bytes en 1 @
     extract_safe_comm (t_comm t) (replicate 16 0)"

text \<open>
  An insertion into the map of least recently used users may evict others: \<open>evict\<close> gives
  what is left before the new entry. The counter is incremented and read back by one step.
\<close>

definition madvise_ratelimit_sys_enter ::
    "endian \<Rightarrow> (u32 \<Rightarrow> trackers \<Rightarrow> trackers) \<Rightarrow> madvise_call \<Rightarrow> trackers \<Rightarrow> hook_result \<times> trackers" where
  "madvise_ratelimit_sys_enter en evict c m =
     (if \<not> is_module_active en (ma_state c) then (allow, m)
      else if (ucast (ma_args2 c) :: u32) \<noteq> MADV_DONTNEED then (allow, m)
      else (let uid = get_global_uid (ma_task c); now = ma_now c
            in case m uid of
                 None \<Rightarrow> (allow, (evict uid m)(uid \<mapsto> \<lparr>window_start = now, tr_count = 1\<rparr>))
               | Some state \<Rightarrow>
                   if now - window_start state > RATELIMIT_WINDOW_NS
                   then (allow, m(uid \<mapsto> \<lparr>window_start = now, tr_count = 1\<rparr>))
                   else (let count = tr_count state + 1; current_count = (ucast count :: u64)
                         in if current_count > RATELIMIT_THRESHOLD
                            then (\<lparr>hr_ret = 0,
                                   hr_events = submit (ma_reserved c) (\<lambda>_. madvise_record en (ma_task c) current_count),
                                   hr_kill = (ma_sig c = 0)\<rparr>,
                                  m(uid \<mapsto> state\<lparr>tr_count := if ma_sig c = 0 then 0 else count\<rparr>))
                            else (allow, m(uid \<mapsto> state\<lparr>tr_count := count\<rparr>)))))"

fun madvise_run ::
    "endian \<Rightarrow> (u32 \<Rightarrow> trackers \<Rightarrow> trackers) \<Rightarrow> madvise_call list \<Rightarrow> trackers \<Rightarrow> hook_result list \<times> trackers" where
  "madvise_run en evict [] m = ([], m)"
| "madvise_run en evict (c # cs) m =
     (case madvise_ratelimit_sys_enter en evict c m of
        (r, m') \<Rightarrow> (r # fst (madvise_run en evict cs m'), snd (madvise_run en evict cs m')))"

section \<open>The record\<close>

definition madvise_struct_of :: "task \<Rightarrow> u64 \<Rightarrow> madvise_struct" where
  "madvise_struct_of t n =
     \<lparr>as_pid = t_tgid t, as_tid = t_pid t, as_count = ucast n, as_action_type = 1,
      as_comm = comm_array (t_comm t)\<rparr>"

lemma madvise_reads_back:
  assumes "comm_sized (t_comm t)"
  shows "32 \<le> length (madvise_record en t n) \<and>
    madvise_view en (madvise_record en t n) = madvise_meaning (madvise_struct_of t n) \<and>
    madvise_warnings (madvise_record en t n) = madvise_grumbles (madvise_struct_of t n)"
proof -
  have "madvise_record en t n = madvise_image en (madvise_struct_of t n)"
    by (simp add: madvise_record_def madvise_image_def madvise_struct_of_def comm_array_def)
  moreover have "madvise_sized (madvise_struct_of t n)"
    using length_comm_array [OF assms] by (simp add: madvise_sized_def madvise_struct_of_def)
  ultimately show ?thesis
    using madvise_layout.length_image madvise_layout.view_image madvise_layout.warnings_image by simp
qed

definition counted :: "madvise_call \<Rightarrow> trackers \<Rightarrow> u64" where
  "counted c m = (case m (t_uid (ma_task c)) of Some state \<Rightarrow> ucast (tr_count state + 1) | None \<Rightarrow> 0)"

interpretation madvise_hook: reporting_hook madvise_ratelimit_spec en 32 "madvise_view en" madvise_warnings
  "\<lambda>(c, m). fst (madvise_ratelimit_sys_enter en evict c m)" "\<lambda>(c, _). is_module_active en (ma_state c)"
  "\<lambda>(c, _). comm_sized (t_comm (ma_task c))"
  "\<lambda>(c, m). madvise_meaning (madvise_struct_of (ma_task c) (counted c m))"
  "\<lambda>(c, m). madvise_grumbles (madvise_struct_of (ma_task c) (counted c m))" for en evict
  by unfold_locales
    (use madvise_reads_back in \<open>auto simp: madvise_ratelimit_sys_enter_def get_global_uid_def counted_def
        submit_member submit_def Let_def split: option.splits if_splits\<close>)

section \<open>The calls of one user\<close>

text \<open>The calls that count against a user.\<close>

definition own :: "endian \<Rightarrow> u32 \<Rightarrow> madvise_call \<Rightarrow> bool" where
  "own en u c \<longleftrightarrow>
     is_module_active en (ma_state c) \<and> (ucast (ma_args2 c) :: u32) = MADV_DONTNEED \<and> t_uid (ma_task c) = u"

text \<open>
  What is documented of the map of least recently used users: it evicts nothing while it has
  fewer entries than its capacity. There is room when the users it knows and those who call
  are not more than that.
\<close>

definition MADVISE_USERS :: nat where "MADVISE_USERS = 8192"

definition evicts_when_full :: "(u32 \<Rightarrow> trackers \<Rightarrow> trackers) \<Rightarrow> bool" where
  "evicts_when_full evict \<longleftrightarrow> (\<forall>v m. finite (dom m) \<and> card (dom m) < MADVISE_USERS \<longrightarrow> evict v m = m)"

definition users_fit :: "madvise_call list \<Rightarrow> trackers \<Rightarrow> bool" where
  "users_fit cs m \<longleftrightarrow> finite (dom m) \<and> card (dom m \<union> (\<lambda>c. t_uid (ma_task c)) ` set cs) \<le> MADVISE_USERS"

text \<open>The results of the user's own calls.\<close>

definition results_of :: "endian \<Rightarrow> u32 \<Rightarrow> madvise_call list \<Rightarrow> hook_result list \<Rightarrow> hook_result list" where
  "results_of en u cs rs = map snd (filter (\<lambda>(c, _). own en u c) (zip cs rs))"

lemma results_of_simps [simp]:
  "results_of en u [] [] = []"
  "results_of en u (c # cs) (r # rs) = (if own en u c then [r] else []) @ results_of en u cs rs"
  by (simp_all add: results_of_def)

lemma fit_no_eviction:
  assumes "evicts_when_full evict" and "users_fit (c # cs) m" and "m (t_uid (ma_task c)) = None"
  shows "evict v m = m"
proof -
  let ?all = "dom m \<union> (\<lambda>c. t_uid (ma_task c)) ` set (c # cs)"
  have "finite ?all" using assms(2) by (simp add: users_fit_def)
  moreover have "dom m \<subset> ?all" using assms(3) by auto
  ultimately have "card (dom m) < card ?all" by (rule psubset_card_mono)
  with assms(1,2) show ?thesis by (simp add: evicts_when_full_def users_fit_def)
qed

text \<open>A call touches the entry of its user only.\<close>

lemma step_frame:
  assumes "evicts_when_full evict" and "users_fit (c # cs) m"
  shows "v \<noteq> t_uid (ma_task c) \<Longrightarrow> snd (madvise_ratelimit_sys_enter en evict c m) v = m v"
    and "users_fit cs (snd (madvise_ratelimit_sys_enter en evict c m))"
proof -
  have room: "m (t_uid (ma_task c)) = None \<Longrightarrow> evict (t_uid (ma_task c)) m = m"
    using fit_no_eviction [OF assms] by blast
  then show frame: "v \<noteq> t_uid (ma_task c) \<Longrightarrow> snd (madvise_ratelimit_sys_enter en evict c m) v = m v" for v
    by (auto simp: madvise_ratelimit_sys_enter_def get_global_uid_def Let_def split: option.split)
  let ?m' = "snd (madvise_ratelimit_sys_enter en evict c m)"
  have sub: "dom ?m' \<union> (\<lambda>c. t_uid (ma_task c)) ` set cs \<subseteq> dom m \<union> (\<lambda>c. t_uid (ma_task c)) ` set (c # cs)"
    (is "?l \<subseteq> ?r") using frame by (fastforce simp: domIff)
  have fin: "finite ?r" using assms(2) by (simp add: users_fit_def)
  have "finite ?l" by (rule finite_subset [OF sub fin])
  moreover have "card ?l \<le> card ?r" by (rule card_mono [OF fin sub])
  ultimately show "users_fit cs ?m'" using assms(2) unfolding users_fit_def by simp
qed

lemma step_quiet: "\<not> own en (t_uid (ma_task c)) c \<Longrightarrow> madvise_ratelimit_sys_enter en evict c m = (allow, m)"
  by (auto simp: own_def madvise_ratelimit_sys_enter_def)

lemma step_other:
  assumes "evicts_when_full evict" and "users_fit (c # cs) m" and "\<not> own en u c"
  shows "snd (madvise_ratelimit_sys_enter en evict c m) u = m u"
  using step_frame(1) [OF assms(1,2), of u en] step_quiet [of en c evict m] assms(3)
  by (cases "u = t_uid (ma_task c)") auto

lemma step_first:
  "own en u c \<Longrightarrow> m u = None \<Longrightarrow>
   fst (madvise_ratelimit_sys_enter en evict c m) = allow \<and>
   snd (madvise_ratelimit_sys_enter en evict c m) u = Some \<lparr>window_start = ma_now c, tr_count = 1\<rparr>"
  by (simp add: own_def madvise_ratelimit_sys_enter_def get_global_uid_def)

lemma step_expired:
  "own en u c \<Longrightarrow> m u = Some t \<Longrightarrow> ma_now c - window_start t > RATELIMIT_WINDOW_NS \<Longrightarrow>
   fst (madvise_ratelimit_sys_enter en evict c m) = allow \<and>
   snd (madvise_ratelimit_sys_enter en evict c m) u = Some \<lparr>window_start = ma_now c, tr_count = 1\<rparr>"
  by (simp add: own_def madvise_ratelimit_sys_enter_def get_global_uid_def)

lemma step_in_window:
  assumes "own en u c" and "m u = Some state" and "\<not> ma_now c - window_start state > RATELIMIT_WINDOW_NS"
  shows "madvise_ratelimit_sys_enter en evict c m =
    (if (ucast (tr_count state + 1) :: u64) > RATELIMIT_THRESHOLD
     then (\<lparr>hr_ret = 0,
            hr_events = submit (ma_reserved c) (\<lambda>_. madvise_record en (ma_task c) (ucast (tr_count state + 1))),
            hr_kill = (ma_sig c = 0)\<rparr>,
           m(u \<mapsto> state\<lparr>tr_count := if ma_sig c = 0 then 0 else tr_count state + 1\<rparr>))
     else (allow, m(u \<mapsto> state\<lparr>tr_count := tr_count state + 1\<rparr>)))"
  using assms by (simp add: own_def madvise_ratelimit_sys_enter_def get_global_uid_def Let_def)

lemma step_counted:
  assumes "own en u c" and "m u = Some \<lparr>window_start = s, tr_count = of_nat k\<rparr>" and "k \<le> 10000"
    and "ma_now c - s \<le> RATELIMIT_WINDOW_NS" and "ma_sig c = 0"
  shows "hr_kill (fst (madvise_ratelimit_sys_enter en evict c m)) \<longleftrightarrow> k = 10000"
    and "snd (madvise_ratelimit_sys_enter en evict c m) u =
      Some \<lparr>window_start = s, tr_count = of_nat (Suc k mod 10001)\<rparr>"
proof -
  have "unat (ucast (of_nat k + 1 :: u32) :: u64) = Suc k"
  proof -
    have "(of_nat k + 1 :: u32) = of_nat (Suc k)" by simp
    moreover have "unat (of_nat (Suc k) :: u32) = Suc k"
      using assms(3) by (simp only: unat_of_nat) simp
    ultimately have "unat (of_nat k + 1 :: u32) = Suc k" by (simp only:)
    then show ?thesis using assms(3) by (simp only: unsigned_ucast_eq) (simp add: take_bit_nat_eq_self)
  qed
  then have over: "(ucast (of_nat k + 1 :: u32) :: u64) > RATELIMIT_THRESHOLD \<longleftrightarrow> k = 10000"
    using assms(3) by (auto simp: word_less_nat_alt RATELIMIT_THRESHOLD_def)
  have "\<not> ma_now c - s > RATELIMIT_WINDOW_NS" using assms(4) by simp
  note step = step_in_window [where evict = evict and m = m, OF assms(1,2), unfolded madvise_tracker.simps, OF this]
  have count: "of_nat (Suc k mod 10001) = (if k = 10000 then 0 else of_nat k + 1 :: u32)"
    using assms(3) by (cases "k = 10000") (simp_all add: mod_less)
  show "hr_kill (fst (madvise_ratelimit_sys_enter en evict c m)) \<longleftrightarrow> k = 10000"
    unfolding step over using assms(5) by simp
  show "snd (madvise_ratelimit_sys_enter en evict c m) u =
      Some \<lparr>window_start = s, tr_count = of_nat (Suc k mod 10001)\<rparr>"
    unfolding step over count using assms(5) by simp
qed

text \<open>
  Within one window, starting from a count of \<open>k\<close>: every call that brings the count to 10001
  is fatal and starts the count again.
\<close>

definition one_window :: "endian \<Rightarrow> u32 \<Rightarrow> u64 \<Rightarrow> madvise_call list \<Rightarrow> bool" where
  "one_window en u s cs \<longleftrightarrow>
     (\<forall>c \<in> set cs. own en u c \<longrightarrow> ma_now c - s \<le> RATELIMIT_WINDOW_NS \<and> ma_sig c = 0)"

definition own_calls :: "endian \<Rightarrow> u32 \<Rightarrow> madvise_call list \<Rightarrow> nat" where
  "own_calls en u cs = length (filter (own en u) cs)"

lemma own_calls_simps [simp]:
  "own_calls en u [] = 0"
  "own_calls en u (c # cs) = (if own en u c then Suc (own_calls en u cs) else own_calls en u cs)"
  by (simp_all add: own_calls_def)

lemma window_counts:
  assumes "evicts_when_full evict" and "users_fit cs m" and "one_window en u s cs" and "k \<le> 10000"
    and "m u = Some \<lparr>window_start = s, tr_count = of_nat k\<rparr>"
  shows "map hr_kill (results_of en u cs (fst (madvise_run en evict cs m))) =
      map (\<lambda>i. (k + i + 1) mod 10001 = 0) [0..<own_calls en u cs] \<and>
    snd (madvise_run en evict cs m) u =
      Some \<lparr>window_start = s, tr_count = of_nat ((k + own_calls en u cs) mod 10001)\<rparr>"
  using assms(2-)
proof (induction cs arbitrary: k m)
  case Nil
  then show ?case by simp
next
  case (Cons c cs)
  obtain r m' where step: "madvise_ratelimit_sys_enter en evict c m = (r, m')" by force
  have fit: "users_fit cs m'" using step_frame(2) [OF assms(1) Cons.prems(1), of en] by (simp add: step)
  have win: "one_window en u s cs" using Cons.prems(2) by (simp add: one_window_def)
  show ?case
  proof (cases "own en u c")
    case False
    have "m' u = m u" using step_other [OF assms(1) Cons.prems(1) False] by (simp add: step)
    then show ?thesis using Cons.IH [OF fit win Cons.prems(3)] Cons.prems(4) False by (simp add: step)
  next
    case True
    have now: "ma_now c - s \<le> RATELIMIT_WINDOW_NS" "ma_sig c = 0"
      using Cons.prems(2) True by (simp_all add: one_window_def)
    have kill: "hr_kill r \<longleftrightarrow> k = 10000"
      and next_state: "m' u = Some \<lparr>window_start = s, tr_count = of_nat (Suc k mod 10001)\<rparr>"
      using step_counted [where m = m and evict = evict and k = k, OF True Cons.prems(4,3) now] by (simp_all add: step)
    have "Suc k mod 10001 \<le> 10000" by (simp add: mod_less_eq_dividend less_Suc_eq_le flip: less_Suc_eq_le)
    note IH = Cons.IH [where m = m' and k = "Suc k mod 10001", OF fit win this next_state]
    have shift: "(Suc k mod 10001 + i + 1) mod 10001 = (k + Suc i + 1) mod 10001" for i
      by (metis add_Suc_right add_Suc_shift mod_add_left_eq Suc_eq_plus1)
    have "hr_kill r \<longleftrightarrow> (k + 0 + 1) mod 10001 = 0"
      using kill Cons.prems(3) by (cases "k = 10000") simp_all
    moreover have "map (\<lambda>i. (Suc k mod 10001 + i + 1) mod 10001 = 0) [0..<n] =
        map (\<lambda>i. (k + i + 1) mod 10001 = 0) [1..<Suc n]" for n
    proof -
      have "[1..<Suc n] = map Suc [0..<n]" by (simp add: map_Suc_upt)
      then show ?thesis by (simp only: shift map_map comp_def)
    qed
    moreover have "(Suc k mod 10001 + n) mod 10001 = (k + Suc n) mod 10001" for n
      by (metis add_Suc_shift mod_add_left_eq)
    ultimately show ?thesis using IH True by (simp add: step upt_conv_Cons del: upt_Suc)
  qed
qed

section \<open>Properties\<close>

text \<open>
  C14: the quota of a user, whichever of its processes call, counted in its MADV_DONTNEED calls
  while the module is active. In a sequence of calls, by anybody and at any times, that begins
  with such a call of a user the map does not know, and in which the user's others follow
  within a second of it, exactly every 10001st of them is fatal; provided that the users the
  map knows and those who call are at most the 8192 it has room for, so that it evicts nobody,
  and that the signals the hook sends to the user's processes are delivered.
\<close>

theorem madvise_quota:
  assumes "evicts_when_full evict" and "users_fit (c # cs) m"
    and "m u = None" and "own en u c" and "one_window en u (ma_now c) cs"
  shows "map hr_kill (results_of en u (c # cs) (fst (madvise_run en evict (c # cs) m))) =
    map (\<lambda>i. (i + 1) mod 10001 = 0) [0..<own_calls en u (c # cs)]"
proof -
  obtain r m' where step: "madvise_ratelimit_sys_enter en evict c m = (r, m')" by force
  have fit: "users_fit cs m'" using step_frame(2) [OF assms(1,2), of en] by (simp add: step)
  have first: "r = allow" "m' u = Some \<lparr>window_start = ma_now c, tr_count = of_nat 1\<rparr>"
    using step_first [where m = m and evict = evict, OF assms(4,3)] by (simp_all add: step)
  have "map hr_kill (results_of en u cs (fst (madvise_run en evict cs m'))) =
      map (\<lambda>i. (1 + i + 1) mod 10001 = 0) [0..<own_calls en u cs]"
    using window_counts [where m = m' and k = 1, OF assms(1) fit assms(5) _ first(2)] by simp
  moreover have "map (\<lambda>i. (i + 1) mod 10001 = 0) [0..<Suc n] =
      False # map (\<lambda>i. (1 + i + 1) mod 10001 = 0) [0..<n]" for n
    by (simp add: upt_conv_Cons flip: map_Suc_upt del: upt_Suc)
  ultimately show ?thesis using assms(4) first(1) by (simp add: step del: upt_Suc)
qed

text \<open>Two processes of one user, and another user in between.\<close>

definition demo_madvise :: "u32 \<Rightarrow> u32 \<Rightarrow> u64 \<Rightarrow> madvise_call" where
  "demo_madvise uid pid now =
     \<lparr>ma_state = Map.empty, ma_task = \<lparr>t_tgid = pid, t_pid = pid, t_uid = uid, t_comm = None\<rparr>,
      ma_args2 = 4, ma_now = now, ma_sig = 0, ma_reserved = None\<rparr>"

lemma demo_own [simp]: "own en u (demo_madvise uid pid now) \<longleftrightarrow> uid = u"
  by (simp add: own_def demo_madvise_def is_module_active_def MADV_DONTNEED_def)

lemma own_calls_replicate: "own_calls en u (replicate n c) = (if own en u c then n else 0)"
  by (simp add: own_calls_def)

lemma own_calls_append: "own_calls en u (a @ b) = own_calls en u a + own_calls en u b"
  by (simp add: own_calls_def)

theorem madvise_quota_witness:
  "map hr_kill (results_of Little 1000 (demo_madvise 1000 7 5 # demo_madvise 33 9 5 # replicate 10000 (demo_madvise 1000 8 6))
     (fst (madvise_run Little (\<lambda>_ m. m)
        (demo_madvise 1000 7 5 # demo_madvise 33 9 5 # replicate 10000 (demo_madvise 1000 8 6)) Map.empty)))
     ! 10000"
proof -
  let ?cs = "demo_madvise 33 9 5 # replicate 10000 (demo_madvise 1000 8 6)"
  have "evicts_when_full (\<lambda>_ m. m)" by (simp add: evicts_when_full_def)
  moreover have "users_fit (demo_madvise 1000 7 5 # ?cs) Map.empty"
  proof -
    have "(\<lambda>c. t_uid (ma_task c)) ` set (demo_madvise 1000 7 5 # ?cs) \<subseteq> {1000, 33}"
      by (auto simp: demo_madvise_def)
    then have "card ((\<lambda>c. t_uid (ma_task c)) ` set (demo_madvise 1000 7 5 # ?cs)) \<le> card {1000, 33 :: u32}"
      by (rule card_mono [rotated]) simp
    then show ?thesis by (simp add: users_fit_def MADVISE_USERS_def del: set_replicate)
  qed
  moreover have "one_window Little 1000 (ma_now (demo_madvise 1000 7 5)) ?cs"
    by (simp add: one_window_def demo_own) (simp add: demo_madvise_def RATELIMIT_WINDOW_NS_def)
  moreover have "own_calls Little 1000 (demo_madvise 1000 7 5 # ?cs) = 10001"
    by (simp add: own_calls_replicate)
  ultimately show ?thesis
    using madvise_quota [of "\<lambda>_ m. m" "demo_madvise 1000 7 5" ?cs Map.empty 1000 Little]
    by (simp del: upt_Suc madvise_run.simps own_calls_simps)
qed

text \<open>
  The window does not roll. It starts at a call and ends a second later, so the quota can
  be spent at its end and again at the start of the next one: 19999 calls within a moment
  are neither fatal nor reported.
\<close>

lemma quiet_window:
  assumes "evicts_when_full evict" and "users_fit cs m" and "one_window en u s cs"
    and "k + own_calls en u cs \<le> 10000" and "m u = Some \<lparr>window_start = s, tr_count = of_nat k\<rparr>"
  shows "True \<notin> set (map hr_kill (results_of en u cs (fst (madvise_run en evict cs m))))"
    and "snd (madvise_run en evict cs m) u =
      Some \<lparr>window_start = s, tr_count = of_nat (k + own_calls en u cs)\<rparr>"
  using window_counts [where m = m and k = k, OF assms(1-3) _ assms(5)] assms(4) by auto

lemma users_fit_append:
  "evicts_when_full evict \<Longrightarrow> users_fit (a @ b) m \<Longrightarrow> users_fit b (snd (madvise_run en evict a m))"
proof (induction a arbitrary: m)
  case (Cons c a)
  obtain r m' where step: "madvise_ratelimit_sys_enter en evict c m = (r, m')" by force
  have "users_fit (a @ b) m'" using step_frame(2) [of evict c "a @ b" m en] Cons.prems by (simp add: step)
  with Cons.IH [of m'] Cons.prems(1) show ?case by (simp add: step)
qed simp

lemma users_fit_prefix: "users_fit (a @ b) m \<Longrightarrow> users_fit a m"
proof -
  assume fit: "users_fit (a @ b) m"
  let ?r = "dom m \<union> (\<lambda>c. t_uid (ma_task c)) ` set (a @ b)"
  have "card (dom m \<union> (\<lambda>c. t_uid (ma_task c)) ` set a) \<le> card ?r"
    using fit by (intro card_mono) (auto simp: users_fit_def)
  with fit show ?thesis by (simp add: users_fit_def)
qed

lemma run_append:
  "madvise_run en evict (a @ b) m =
   (fst (madvise_run en evict a m) @ fst (madvise_run en evict b (snd (madvise_run en evict a m))),
    snd (madvise_run en evict b (snd (madvise_run en evict a m))))"
  by (induction a arbitrary: m) (simp_all split: prod.split)

lemma run_length [simp]: "length (fst (madvise_run en evict cs m)) = length cs"
  by (induction cs arbitrary: m) (simp_all split: prod.split)

lemma results_append:
  "length rs = length a \<Longrightarrow> results_of en u (a @ b) (rs @ rs') = results_of en u a rs @ results_of en u b rs'"
  by (simp add: results_of_def)

lemma quiet_first:
  assumes "evicts_when_full evict" and "users_fit (c # cs) m"
    and "one_window en u (ma_now c) cs" and "own_calls en u cs \<le> 9999" and "own en u c"
    and "m u = None \<or> (\<exists>t. m u = Some t \<and> ma_now c - window_start t > RATELIMIT_WINDOW_NS)"
  shows "True \<notin> set (map hr_kill (results_of en u (c # cs) (fst (madvise_run en evict (c # cs) m))))"
    and "snd (madvise_run en evict (c # cs) m) u =
      Some \<lparr>window_start = ma_now c, tr_count = of_nat (1 + own_calls en u cs)\<rparr>"
proof -
  obtain r m' where step: "madvise_ratelimit_sys_enter en evict c m = (r, m')" by force
  have fit: "users_fit cs m'" using step_frame(2) [OF assms(1,2), of en] by (simp add: step)
  have "r = allow" and m': "m' u = Some \<lparr>window_start = ma_now c, tr_count = of_nat 1\<rparr>"
    using assms(6) step_first [where m = m and evict = evict, OF assms(5)]
      step_expired [where m = m and evict = evict, OF assms(5)] by (auto simp: step)
  then show "True \<notin> set (map hr_kill (results_of en u (c # cs) (fst (madvise_run en evict (c # cs) m))))"
    and "snd (madvise_run en evict (c # cs) m) u =
      Some \<lparr>window_start = ma_now c, tr_count = of_nat (1 + own_calls en u cs)\<rparr>"
    using quiet_window [where m = m' and k = 1, OF assms(1) fit assms(3) _ m'] assms(4,5) by (simp_all add: step)
qed

theorem madvise_burst_passes:
  assumes "evicts_when_full evict" and "users_fit ((c # late) @ d # early) m" and "m u = None"
    and "own en u c" and "one_window en u (ma_now c) late" and "own_calls en u late \<le> 9999"
    and "own en u d" and "ma_now d - ma_now c > RATELIMIT_WINDOW_NS"
    and "one_window en u (ma_now d) early" and "own_calls en u early \<le> 9999"
  shows "True \<notin> set (map hr_kill (results_of en u ((c # late) @ d # early)
    (fst (madvise_run en evict ((c # late) @ d # early) m))))"
proof -
  define m' where "m' = snd (madvise_run en evict (c # late) m)"
  note fit = users_fit_prefix [OF assms(2)]
  have fit': "users_fit (d # early) m'" unfolding m'_def by (rule users_fit_append [OF assms(1,2)])
  have "\<exists>t. m' u = Some t \<and> ma_now d - window_start t > RATELIMIT_WINDOW_NS"
    using quiet_first(2) [where m = m, OF assms(1) fit assms(5,6,4)] assms(3,8) by (simp add: m'_def)
  then show ?thesis
    using quiet_first(1) [where m = m, OF assms(1) fit assms(5,6,4)]
      quiet_first(1) [where m = m', OF assms(1) fit' assms(9,10,7)] assms(3)
    by (simp add: run_append results_append m'_def del: madvise_run.simps append_Cons)
qed

text \<open>
  One call, a second of silence, and 19999 calls within one nanosecond.
\<close>

theorem madvise_burst_passes_witness:
  "let late = replicate 9999 (demo_madvise 1000 7 1000000005); d = demo_madvise 1000 7 1000000006;
       early = replicate 9999 (demo_madvise 1000 7 1000000006);
       cs = (demo_madvise 1000 7 5 # late) @ d # early
   in True \<notin> set (map hr_kill (results_of Little 1000 cs (fst (madvise_run Little (\<lambda>_ m. m) cs Map.empty))))"
proof -
  let ?cs = "(demo_madvise 1000 7 5 # replicate 9999 (demo_madvise 1000 7 1000000005)) @
    demo_madvise 1000 7 1000000006 # replicate 9999 (demo_madvise 1000 7 1000000006)"
  have "(\<lambda>c. t_uid (ma_task c)) ` set ?cs \<subseteq> {1000}" by (auto simp: demo_madvise_def)
  then have "card ((\<lambda>c. t_uid (ma_task c)) ` set ?cs) \<le> card {1000 :: u32}"
    by (rule card_mono [rotated]) simp
  then have "users_fit ?cs Map.empty"
    by (simp add: users_fit_def MADVISE_USERS_def del: set_replicate set_append list.set)
  then show ?thesis
    unfolding Let_def
    by (rule madvise_burst_passes [rotated])
      (simp_all add: evicts_when_full_def one_window_def own_calls_replicate del: replicate.simps,
        simp_all add: demo_madvise_def RATELIMIT_WINDOW_NS_def)
qed

end
