(* ===== verification/BB_Kernel_Io.thy ===== *)
theory BB_Kernel_Io
  imports BB_Kernel BB_Io_Restrict
begin

text \<open>
  \<open>bpf/io_restrict.bpf.c\<close>: the probes on \<open>io_uring_setup\<close>, \<open>vmsplice\<close>, \<open>splice\<close> and
  \<open>write\<close>, and the release of pipes. The lemmas give the exact set of tainted pipes after any
  sequence of these calls, and what becomes of it when one end of a pipe is closed or the
  module is switched off.
\<close>

section \<open>Identifiers of pipes\<close>

definition xorshift33 :: "u64 \<Rightarrow> u64" where
  "xorshift33 hash = hash XOR drop_bit 33 hash"

definition generate_opaque_pipe_id :: "u64 \<Rightarrow> u64 \<Rightarrow> u64" where
  "generate_opaque_pipe_id pipe_ptr ino =
     (let hash = pipe_ptr XOR ino;
          hash = xorshift33 hash;
          hash = hash * 0xff51afd7ed558ccd;
          hash = xorshift33 hash;
          hash = hash * 0xc4ceb9fe1a85ec53
      in xorshift33 hash)"

section \<open>What the probes see\<close>

text \<open>
  The descriptor table of the current task, \<open>None\<close> when a pointer on the way is null; an
  open file with its inode, mode and private data, which is the pipe's address for a pipe.
\<close>

record file_obj =
  fo_inode :: "inode option"
  fo_mode :: u32
  fo_private :: u64

record fdtable =
  ft_max_fds :: u32
  ft_fd :: "(u32 \<Rightarrow> file_obj option) option"

record io_call =
  ic_state :: kmap
  ic_task :: task
  ic_files :: "fdtable option"
  ic_reserved :: "u8 list option"

text \<open>The snapshot of a descriptor; \<open>None\<close> stands for one that is not valid.\<close>

record file_meta =
  me_mode :: "16 word"
  me_fmode :: u32
  me_private :: u64
  me_ino :: u64

definition extract_file_meta :: "fdtable option \<Rightarrow> u32 \<Rightarrow> file_meta option" where
  "extract_file_meta files fd_num =
     (case files of
        None \<Rightarrow> None
      | Some fdt \<Rightarrow>
          if fd_num \<ge> ft_max_fds fdt then None
          else (case ft_fd fdt of
                  None \<Rightarrow> None
                | Some fd_array \<Rightarrow>
                    (case fd_array fd_num of
                       None \<Rightarrow> None
                     | Some f \<Rightarrow>
                         (case fo_inode f of
                            None \<Rightarrow> None
                          | Some i \<Rightarrow>
                              Some \<lparr>me_mode = i_mode i, me_fmode = fo_mode f,
                                    me_private = fo_private f, me_ino = i_ino i\<rparr>))))"

definition S_ISFIFO :: "16 word \<Rightarrow> bool" where "S_ISFIFO m \<longleftrightarrow> m AND 0xF000 = 0x1000"
definition FMODE_READ :: u32 where "FMODE_READ = 1"
definition FMODE_WRITE :: u32 where "FMODE_WRITE = 2"
definition SPLICE_F_MOVE :: u32 where "SPLICE_F_MOVE = 1"
definition SPLICE_F_GIFT :: u32 where "SPLICE_F_GIFT = 8"

definition io_record :: "endian \<Rightarrow> task \<Rightarrow> u32 \<Rightarrow> rstr \<Rightarrow> u8 list" where
  "io_record en t action_type syscall_name =
     u32_to_ne_bytes en (t_tgid t) @ u32_to_ne_bytes en (t_pid t) @ u32_to_ne_bytes en action_type @
     probe_read_str (kernel_string syscall_name) (replicate 16 0)"

definition dispatch_io_alert :: "endian \<Rightarrow> io_call \<Rightarrow> u32 \<Rightarrow> rstr \<Rightarrow> u8 list list" where
  "dispatch_io_alert en c action_type syscall_name =
     submit (ic_reserved c) (\<lambda>_. io_record en (ic_task c) action_type syscall_name)"

definition neutralise :: "u8 list list \<Rightarrow> hook_result" where
  "neutralise events = \<lparr>hr_ret = 0, hr_events = events, hr_kill = True\<rparr>"

definition warn_only :: "u8 list list \<Rightarrow> hook_result" where
  "warn_only events = \<lparr>hr_ret = 0, hr_events = events, hr_kill = False\<rparr>"

section \<open>The taint map\<close>

text \<open>A hash map of \<open>cap\<close> entries: an update fails when the key is new and the map full.\<close>

type_synonym taint_map = "(u64 \<times> u8) list"

definition TAINTED_READONLY :: u8 where "TAINTED_READONLY = 1"

definition taint_update :: "nat \<Rightarrow> u64 \<Rightarrow> u8 \<Rightarrow> taint_map \<Rightarrow> taint_map option" where
  "taint_update cap k v m =
     (if map_of m k \<noteq> None \<or> length m < cap then Some (AList.update k v m) else None)"

definition tainted :: "taint_map \<Rightarrow> u64 \<Rightarrow> bool" where
  "tainted m k \<longleftrightarrow> (case map_of m k of None \<Rightarrow> False | Some taint \<Rightarrow> taint = TAINTED_READONLY)"

section \<open>The probes\<close>

text \<open>
  \<open>exe\<close>: \<open>None\<close> without a memory descriptor, otherwise the inode of the program, if any.
\<close>

definition io_restrict_uring_setup ::
    "endian \<Rightarrow> io_call \<Rightarrow> kmap \<Rightarrow> inode option option \<Rightarrow> hook_result" where
  "io_restrict_uring_setup en c binaries exe =
     (if \<not> is_module_active en (ic_state c) then allow
      else if get_global_uid (ic_task c) = 0 then allow
      else case exe of
             None \<Rightarrow> allow
           | Some exe_inode \<Rightarrow>
               if (case exe_inode of
                     None \<Rightarrow> False
                   | Some i \<Rightarrow> watched binaries (extract_dir_id_from_inode en i))
               then allow
               else neutralise (dispatch_io_alert en c 1 (str ''io_uring_setup'')))"

definition io_restrict_vmsplice :: "endian \<Rightarrow> io_call \<Rightarrow> hook_result" where
  "io_restrict_vmsplice en c =
     (if \<not> is_module_active en (ic_state c) then allow
      else if get_global_uid (ic_task c) \<noteq> 0
      then neutralise (dispatch_io_alert en c 2 (str ''vmsplice''))
      else allow)"

definition splice_to_pipe ::
    "endian \<Rightarrow> nat \<Rightarrow> io_call \<Rightarrow> file_meta \<Rightarrow> file_meta \<Rightarrow> taint_map \<Rightarrow> hook_result \<times> taint_map" where
  "splice_to_pipe en cap c in_meta out_meta m =
     (let out_id = generate_opaque_pipe_id (me_private out_meta) (me_ino out_meta)
      in if tainted m out_id
         then (neutralise (dispatch_io_alert en c 5 (str ''splice'')), m)
         else if \<not> S_ISFIFO (me_mode in_meta) \<and> me_fmode in_meta AND FMODE_READ \<noteq> 0 \<and>
                 me_fmode in_meta AND FMODE_WRITE = 0
         then (case taint_update cap out_id TAINTED_READONLY m of
                 None \<Rightarrow> (warn_only (dispatch_io_alert en c 6 (str ''splice'')), m)
               | Some m' \<Rightarrow> (allow, m'))
         else (allow, m))"

definition io_restrict_splice ::
    "endian \<Rightarrow> nat \<Rightarrow> io_call \<Rightarrow> u32 \<Rightarrow> u32 \<Rightarrow> u32 \<Rightarrow> taint_map \<Rightarrow> hook_result \<times> taint_map" where
  "io_restrict_splice en cap c fd_in fd_out flags m =
     (if \<not> is_module_active en (ic_state c) then (allow, m)
      else if get_global_uid (ic_task c) = 0 then (allow, m)
      else if flags AND (SPLICE_F_GIFT OR SPLICE_F_MOVE) \<noteq> 0
      then (neutralise (dispatch_io_alert en c 4 (str ''splice'')), m)
      else case (extract_file_meta (ic_files c) fd_in, extract_file_meta (ic_files c) fd_out) of
             (Some in_meta, Some out_meta) \<Rightarrow>
               if S_ISFIFO (me_mode in_meta) \<and> me_private in_meta \<noteq> 0 \<and>
                  tainted m (generate_opaque_pipe_id (me_private in_meta) (me_ino in_meta))
               then (neutralise (dispatch_io_alert en c 5 (str ''splice'')), m)
               else if S_ISFIFO (me_mode out_meta) \<and> me_private out_meta \<noteq> 0
               then splice_to_pipe en cap c in_meta out_meta m
               else (allow, m)
           | _ \<Rightarrow> (allow, m))"

definition io_restrict_write :: "endian \<Rightarrow> io_call \<Rightarrow> u32 \<Rightarrow> taint_map \<Rightarrow> hook_result" where
  "io_restrict_write en c fd m =
     (if \<not> is_module_active en (ic_state c) then allow
      else if get_global_uid (ic_task c) = 0 then allow
      else case extract_file_meta (ic_files c) fd of
             None \<Rightarrow> allow
           | Some meta \<Rightarrow>
               if S_ISFIFO (me_mode meta) \<and> me_private meta \<noteq> 0 \<and>
                  tainted m (generate_opaque_pipe_id (me_private meta) (me_ino meta))
               then neutralise (dispatch_io_alert en c 5 (str ''write''))
               else allow)"

definition io_restrict_pipe_release :: "endian \<Rightarrow> kmap \<Rightarrow> u64 \<Rightarrow> u64 \<Rightarrow> taint_map \<Rightarrow> taint_map" where
  "io_restrict_pipe_release en st pipe ino m =
     (if \<not> is_module_active en st then m
      else if pipe = 0 then m
      else AList.delete (generate_opaque_pipe_id pipe ino) m)"

text \<open>
  The calls in the order they happen. \<open>Release\<close> is the release of one open file of a pipe:
  the kernel calls it for each of them, and frees the pipe after the last.
\<close>

datatype pipe_step =
    Splice io_call u32 u32 u32
  | Write io_call u32
  | Release kmap u64 u64

fun io_step :: "endian \<Rightarrow> nat \<Rightarrow> pipe_step \<Rightarrow> taint_map \<Rightarrow> hook_result \<times> taint_map" where
  "io_step en cap (Splice c fd_in fd_out flags) m = io_restrict_splice en cap c fd_in fd_out flags m"
| "io_step en cap (Write c fd) m = (io_restrict_write en c fd m, m)"
| "io_step en cap (Release st pipe ino) m = (allow, io_restrict_pipe_release en st pipe ino m)"

fun io_run :: "endian \<Rightarrow> nat \<Rightarrow> pipe_step list \<Rightarrow> taint_map \<Rightarrow> hook_result list \<times> taint_map" where
  "io_run en cap [] m = ([], m)"
| "io_run en cap (s # ss) m =
     (case io_step en cap s m of
        (r, m') \<Rightarrow> (r # fst (io_run en cap ss m'), snd (io_run en cap ss m')))"

section \<open>Identifiers can be computed backwards\<close>

definition pipe_id_seed :: "u64 \<Rightarrow> u64" where
  "pipe_id_seed h =
     xorshift33 (xorshift33 (xorshift33 h * 0x9cb4b2f8129337db) * 0x4f74430c22a54005)"

lemma xorshift33_twice [simp]: "xorshift33 (xorshift33 h) = h"
  by (rule bit_word_eqI) (auto simp: xorshift33_def bit_simps)

lemma multipliers:
  "(h :: u64) * 0xff51afd7ed558ccd * 0x4f74430c22a54005 = h"
  "(h :: u64) * 0xc4ceb9fe1a85ec53 * 0x9cb4b2f8129337db = h"
  "(h :: u64) * 0x4f74430c22a54005 * 0xff51afd7ed558ccd = h"
  "(h :: u64) * 0x9cb4b2f8129337db * 0xc4ceb9fe1a85ec53 = h"
proof -
  have "(0xff51afd7ed558ccd :: u64) * 0x4f74430c22a54005 = 1"
    "(0xc4ceb9fe1a85ec53 :: u64) * 0x9cb4b2f8129337db = 1"
    "(0x4f74430c22a54005 :: u64) * 0xff51afd7ed558ccd = 1"
    "(0x9cb4b2f8129337db :: u64) * 0xc4ceb9fe1a85ec53 = 1"
    by simp_all
  then show "(h :: u64) * 0xff51afd7ed558ccd * 0x4f74430c22a54005 = h"
    "(h :: u64) * 0xc4ceb9fe1a85ec53 * 0x9cb4b2f8129337db = h"
    "(h :: u64) * 0x4f74430c22a54005 * 0xff51afd7ed558ccd = h"
    "(h :: u64) * 0x9cb4b2f8129337db * 0xc4ceb9fe1a85ec53 = h"
    by (simp_all only: mult.assoc mult_1_right)
qed

lemma pipe_id_seed: "pipe_id_seed (generate_opaque_pipe_id p i) = p XOR i"
  by (simp only: pipe_id_seed_def generate_opaque_pipe_id_def Let_def multipliers xorshift33_twice)

lemma generate_seed: "generate_opaque_pipe_id (pipe_id_seed h) 0 = h"
  by (simp only: pipe_id_seed_def generate_opaque_pipe_id_def Let_def multipliers xorshift33_twice
      xor.right_neutral)

lemma pipe_id_eq_iff:
  "generate_opaque_pipe_id p i = generate_opaque_pipe_id q j \<longleftrightarrow> p XOR i = q XOR j"
  by (metis pipe_id_seed generate_opaque_pipe_id_def)

section \<open>Records\<close>

definition io_misread :: "endian \<Rightarrow> task \<Rightarrow> u32 \<Rightarrow> rstr \<Rightarrow> io_alert" where
  "io_misread en t action sc = io_view en (io_kernel_record en (t_tgid t) (t_pid t) action sc)"

definition io_misread_noise :: "endian \<Rightarrow> task \<Rightarrow> u32 \<Rightarrow> rstr \<Rightarrow> effect list" where
  "io_misread_noise en t action sc = io_warnings (io_kernel_record en (t_tgid t) (t_pid t) action sc)"

lemma io_record_kernel:
  "fits_array 16 sc \<Longrightarrow> io_record en t action sc = io_kernel_record en (t_tgid t) (t_pid t) action sc"
  by (simp add: io_record_def io_kernel_record_def c_char_array_zeros)

lemma syscall_names:
  "fits_array 16 (str ''io_uring_setup'')" "fits_array 16 (str ''vmsplice'')"
  "fits_array 16 (str ''splice'')" "fits_array 16 (str ''write'')"
  by (simp_all add: fits_array_def printable_def str_def)

lemma io_dispatch_reads_back:
  "fits_array 16 sc \<Longrightarrow> d \<in> set (dispatch_io_alert en c action sc) \<Longrightarrow>
   24 \<le> length d \<and> io_view en d = io_misread en (ic_task c) action sc \<and>
   io_warnings d = io_misread_noise en (ic_task c) action sc"
  by (auto simp: dispatch_io_alert_def submit_member io_record_kernel io_misread_def io_misread_noise_def
      io_view_kernel_record(3))

lemma io_dispatch_one: "length (dispatch_io_alert en c action sc) \<le> 1"
  by (simp add: dispatch_io_alert_def submit_def split: option.split)

lemma verdict_simps [simp]:
  "hr_ret (neutralise es) = 0" "hr_events (neutralise es) = es" "hr_kill (neutralise es)"
  "hr_ret (warn_only es) = 0" "hr_events (warn_only es) = es" "\<not> hr_kill (warn_only es)"
  by (simp_all add: neutralise_def warn_only_def)

interpretation uring_hook: reporting_hook io_restrict_spec en 24 "io_view en" io_warnings
  "\<lambda>(c, binaries, exe). io_restrict_uring_setup en c binaries exe"
  "\<lambda>(c, _). is_module_active en (ic_state c)" "\<lambda>_. True"
  "\<lambda>(c, _). io_misread en (ic_task c) 1 (str ''io_uring_setup'')"
  "\<lambda>(c, _). io_misread_noise en (ic_task c) 1 (str ''io_uring_setup'')" for en
  by unfold_locales
    (use io_dispatch_reads_back [OF syscall_names(1)] io_dispatch_one in
      \<open>auto simp: io_restrict_uring_setup_def split: option.splits if_splits\<close>)

interpretation vmsplice_hook: reporting_hook io_restrict_spec en 24 "io_view en" io_warnings
  "io_restrict_vmsplice en" "\<lambda>c. is_module_active en (ic_state c)" "\<lambda>_. True"
  "\<lambda>c. io_misread en (ic_task c) 2 (str ''vmsplice'')"
  "\<lambda>c. io_misread_noise en (ic_task c) 2 (str ''vmsplice'')" for en
  by unfold_locales
    (use io_dispatch_reads_back [OF syscall_names(2)] io_dispatch_one in
      \<open>auto simp: io_restrict_vmsplice_def split: if_splits\<close>)

interpretation write_hook: reporting_hook io_restrict_spec en 24 "io_view en" io_warnings
  "\<lambda>(c, fd, m). io_restrict_write en c fd m" "\<lambda>(c, _). is_module_active en (ic_state c)" "\<lambda>_. True"
  "\<lambda>(c, _). io_misread en (ic_task c) 5 (str ''write'')"
  "\<lambda>(c, _). io_misread_noise en (ic_task c) 5 (str ''write'')" for en
  by unfold_locales
    (use io_dispatch_reads_back [OF syscall_names(4)] io_dispatch_one in
      \<open>auto simp: io_restrict_write_def split: option.splits if_splits\<close>)

text \<open>The action a splice reports.\<close>

definition splice_action :: "io_call \<Rightarrow> u32 \<Rightarrow> u32 \<Rightarrow> u32 \<Rightarrow> taint_map \<Rightarrow> u32" where
  "splice_action c fd_in fd_out flags m =
     (let taint = (\<lambda>fd. case extract_file_meta (ic_files c) fd of
            None \<Rightarrow> False
          | Some meta \<Rightarrow> S_ISFIFO (me_mode meta) \<and> me_private meta \<noteq> 0 \<and>
              tainted m (generate_opaque_pipe_id (me_private meta) (me_ino meta)))
      in if flags AND (SPLICE_F_GIFT OR SPLICE_F_MOVE) \<noteq> 0 then 4
         else if taint fd_in \<or> taint fd_out then 5 else 6)"

lemma splice_events:
  "hr_events (fst (io_restrict_splice en cap c fd_in fd_out flags m)) \<noteq> [] \<Longrightarrow>
   hr_events (fst (io_restrict_splice en cap c fd_in fd_out flags m)) =
     dispatch_io_alert en c (splice_action c fd_in fd_out flags m) (str ''splice'')"
  by (auto simp: io_restrict_splice_def splice_to_pipe_def splice_action_def Let_def
      split: option.splits if_splits)

lemma splice_event:
  assumes "d \<in> set (hr_events (fst (io_restrict_splice en cap c fd_in fd_out flags m)))"
  shows "d \<in> set (dispatch_io_alert en c (splice_action c fd_in fd_out flags m) (str ''splice''))"
proof -
  have "hr_events (fst (io_restrict_splice en cap c fd_in fd_out flags m)) \<noteq> []" using assms by force
  from splice_events [OF this] assms show ?thesis by simp
qed

interpretation splice_hook: reporting_hook io_restrict_spec en 24 "io_view en" io_warnings
  "\<lambda>(c, fd_in, fd_out, flags, m). fst (io_restrict_splice en cap c fd_in fd_out flags m)"
  "\<lambda>(c, _). is_module_active en (ic_state c)" "\<lambda>_. True"
  "\<lambda>(c, fd_in, fd_out, flags, m). io_misread en (ic_task c) (splice_action c fd_in fd_out flags m) (str ''splice'')"
  "\<lambda>(c, fd_in, fd_out, flags, m).
     io_misread_noise en (ic_task c) (splice_action c fd_in fd_out flags m) (str ''splice'')"
  for en cap
proof unfold_locales
  fix x :: "io_call \<times> u32 \<times> u32 \<times> u32 \<times> taint_map" and d
  obtain c :: io_call and fd_in fd_out flags m where x: "x = (c, fd_in, fd_out, flags, m)" by (cases x)
  show "\<not> (case x of (c, _) \<Rightarrow> is_module_active en (ic_state c)) \<Longrightarrow>
      (case x of (c, fd_in, fd_out, flags, m) \<Rightarrow> fst (io_restrict_splice en cap c fd_in fd_out flags m)) = allow"
    by (simp add: x io_restrict_splice_def)
  show "length (hr_events (case x of (c, fd_in, fd_out, flags, m) \<Rightarrow>
      fst (io_restrict_splice en cap c fd_in fd_out flags m))) \<le> 1"
    using splice_events [of en cap c fd_in fd_out flags m] io_dispatch_one
    by (cases "hr_events (fst (io_restrict_splice en cap c fd_in fd_out flags m)) = []") (simp_all add: x)
  assume "d \<in> set (hr_events (case x of (c, fd_in, fd_out, flags, m) \<Rightarrow>
      fst (io_restrict_splice en cap c fd_in fd_out flags m)))"
  then have "d \<in> set (dispatch_io_alert en c (splice_action c fd_in fd_out flags m) (str ''splice''))"
    by (simp only: x prod.case splice_event)
  then show "24 \<le> length d \<and> io_view en d = (case x of (c, fd_in, fd_out, flags, m) \<Rightarrow>
      io_misread en (ic_task c) (splice_action c fd_in fd_out flags m) (str ''splice'')) \<and>
      io_warnings d = (case x of (c, fd_in, fd_out, flags, m) \<Rightarrow>
      io_misread_noise en (ic_task c) (splice_action c fd_in fd_out flags m) (str ''splice''))"
    using io_dispatch_reads_back [OF syscall_names(3)] by (simp add: x)
qed

section \<open>Which pipes are tainted\<close>

text \<open>The identifier a descriptor of a pipe stands for.\<close>

definition pipe_id :: "file_meta \<Rightarrow> u64 option" where
  "pipe_id meta =
     (if S_ISFIFO (me_mode meta) \<and> me_private meta \<noteq> 0
      then Some (generate_opaque_pipe_id (me_private meta) (me_ino meta)) else None)"

definition pipe_at :: "io_call \<Rightarrow> u32 \<Rightarrow> u64 option" where
  "pipe_at c fd = Option.bind (extract_file_meta (ic_files c) fd) pipe_id"

definition watched_call :: "endian \<Rightarrow> io_call \<Rightarrow> bool" where
  "watched_call en c \<longleftrightarrow> is_module_active en (ic_state c) \<and> t_uid (ic_task c) \<noteq> 0"

text \<open>A descriptor opened for reading only that is no pipe.\<close>

definition read_only_source :: "io_call \<Rightarrow> u32 \<Rightarrow> bool" where
  "read_only_source c fd \<longleftrightarrow>
     (\<exists>meta. extract_file_meta (ic_files c) fd = Some meta \<and> \<not> S_ISFIFO (me_mode meta) \<and>
        bit (me_fmode meta) 0 \<and> \<not> bit (me_fmode meta) 1)"

text \<open>
  The steps that put a taint on an identifier, on a map with room: a \<open>splice\<close>, by somebody
  other than root while the module is active and without the flags that are fatal in
  themselves, from such a descriptor into the pipe.
\<close>

fun taints :: "endian \<Rightarrow> pipe_step \<Rightarrow> u64 \<Rightarrow> bool" where
  "taints en (Splice c fd_in fd_out flags) k \<longleftrightarrow>
     watched_call en c \<and> \<not> bit flags 0 \<and> \<not> bit flags 3 \<and> read_only_source c fd_in \<and> pipe_at c fd_out = Some k"
| "taints en _ k \<longleftrightarrow> False"

text \<open>
  The steps that take it off: the release, while the module is active, of an open file of a
  pipe with the identifier.
\<close>

fun releases :: "endian \<Rightarrow> pipe_step \<Rightarrow> u64 \<Rightarrow> bool" where
  "releases en (Release st pipe ino) k \<longleftrightarrow>
     is_module_active en st \<and> pipe \<noteq> 0 \<and> generate_opaque_pipe_id pipe ino = k"
| "releases en _ k \<longleftrightarrow> False"

lemma tainted_update:
  "taint_update cap k TAINTED_READONLY m = Some m' \<Longrightarrow> tainted m' k' \<longleftrightarrow> k' = k \<or> tainted m k'"
  by (auto simp: taint_update_def tainted_def update_conv' split: if_splits)

lemma tainted_delete: "tainted (AList.delete k m) k' \<longleftrightarrow> k' \<noteq> k \<and> tainted m k'"
  by (simp add: tainted_def delete_conv')

lemma update_length: "length (AList.update k v m) = (if k \<in> fst ` set m then length m else Suc (length m))"
  by (induction m) auto

lemma update_size: "taint_update cap k v m = Some m' \<Longrightarrow> length m' \<le> Suc (length m)"
  by (auto simp: taint_update_def update_length split: if_splits)

text \<open>One step, on a map with room.\<close>

lemma flag_mask: "flags AND (SPLICE_F_GIFT OR SPLICE_F_MOVE) = 0 \<longleftrightarrow> \<not> bit flags 0 \<and> \<not> bit (flags :: u32) 3"
proof -
  have "SPLICE_F_GIFT OR SPLICE_F_MOVE = 2 ^ 3 OR 2 ^ 0" by (simp add: SPLICE_F_GIFT_def SPLICE_F_MOVE_def)
  then have "flags AND (SPLICE_F_GIFT OR SPLICE_F_MOVE) = (flags AND 2 ^ 3) OR (flags AND 2 ^ 0)"
    by (simp only: bit.conj_disj_distrib)
  then show ?thesis by (simp only: or_eq_0_iff and_exp_eq_0_iff_not_bit) blast
qed

lemma mode_mask:
  "mode AND FMODE_READ = 0 \<longleftrightarrow> \<not> bit mode 0" "mode AND FMODE_WRITE = 0 \<longleftrightarrow> \<not> bit mode 1"
proof -
  have masks: "FMODE_READ = 2 ^ 0" "FMODE_WRITE = 2 ^ 1" by (simp_all add: FMODE_READ_def FMODE_WRITE_def)
  show "mode AND FMODE_READ = 0 \<longleftrightarrow> \<not> bit mode 0"
    unfolding masks by (rule and_exp_eq_0_iff_not_bit)
  show "mode AND FMODE_WRITE = 0 \<longleftrightarrow> \<not> bit mode 1"
    unfolding masks by (rule and_exp_eq_0_iff_not_bit)
qed

lemma splice_taints:
  assumes "length m < cap"
  shows "tainted (snd (io_restrict_splice en cap c fd_in fd_out flags m)) k \<longleftrightarrow>
      taints en (Splice c fd_in fd_out flags) k \<or> tainted m k"
    and "length (snd (io_restrict_splice en cap c fd_in fd_out flags m)) \<le> Suc (length m)"
proof -
  have room: "taint_update cap id v m = Some (AList.update id v m)" for id v
    using assms by (simp add: taint_update_def)
  show "tainted (snd (io_restrict_splice en cap c fd_in fd_out flags m)) k \<longleftrightarrow>
      taints en (Splice c fd_in fd_out flags) k \<or> tainted m k"
    by (auto simp: io_restrict_splice_def splice_to_pipe_def Let_def flag_mask mode_mask room
        tainted_update [OF room]
        read_only_source_def pipe_at_def pipe_id_def watched_call_def get_global_uid_def
        split: option.splits if_splits)
  show "length (snd (io_restrict_splice en cap c fd_in fd_out flags m)) \<le> Suc (length m)"
    by (auto simp: io_restrict_splice_def splice_to_pipe_def Let_def update_size split: option.splits)
qed

lemma step_taints:
  assumes "length m < cap"
  shows "tainted (snd (io_step en cap s m)) k \<longleftrightarrow> taints en s k \<or> tainted m k \<and> \<not> releases en s k"
    and "length (snd (io_step en cap s m)) \<le> Suc (length m)"
proof -
  show "tainted (snd (io_step en cap s m)) k \<longleftrightarrow> taints en s k \<or> tainted m k \<and> \<not> releases en s k"
    using splice_taints [OF assms]
    by (cases s) (auto simp: io_restrict_pipe_release_def tainted_delete simp del: taints.simps(1) intro: taints.simps)
  show "length (snd (io_step en cap s m)) \<le> Suc (length m)"
    using splice_taints(2) [OF assms] length_delete_le [of _ m]
    by (cases s) (auto simp: io_restrict_pipe_release_def intro: le_SucI)
qed

text \<open>
  A pipe's taint is alive after a sequence of steps when one of them tainted it and none after
  that released it.
\<close>

definition taint_alive :: "endian \<Rightarrow> pipe_step list \<Rightarrow> u64 \<Rightarrow> bool" where
  "taint_alive en steps k \<longleftrightarrow>
     (\<exists>before s after. steps = before @ s # after \<and> taints en s k \<and> (\<forall>t \<in> set after. \<not> releases en t k))"

lemma taint_alive_Nil [simp]: "\<not> taint_alive en [] k"
  by (simp add: taint_alive_def)

lemma taint_alive_Cons:
  "taint_alive en (s # ss) k \<longleftrightarrow>
   taint_alive en ss k \<or> taints en s k \<and> (\<forall>t \<in> set ss. \<not> releases en t k)"
  by (auto simp: taint_alive_def Cons_eq_append_conv)

lemma run_taints:
  assumes "length m + length steps \<le> cap"
  shows "tainted (snd (io_run en cap steps m)) k \<longleftrightarrow>
    taint_alive en steps k \<or> tainted m k \<and> (\<forall>t \<in> set steps. \<not> releases en t k)"
  using assms
proof (induction steps arbitrary: m)
  case Nil
  then show ?case by (simp add: taint_alive_def)
next
  case (Cons s ss)
  have room: "length m < cap" using Cons.prems by simp
  obtain r m' where step: "io_step en cap s m = (r, m')" by force
  then have m': "tainted m' k \<longleftrightarrow> taints en s k \<or> tainted m k \<and> \<not> releases en s k" "length m' \<le> Suc (length m)"
    using step_taints [OF room, of en s] by (metis snd_conv)+
  show ?case
    using Cons.IH [of m'] Cons.prems m' by (auto simp: step taint_alive_Cons)
qed

section \<open>Properties\<close>

lemma write_killed:
  "hr_kill (io_restrict_write en c fd m) \<longleftrightarrow>
   watched_call en c \<and> (\<exists>k. pipe_at c fd = Some k \<and> tainted m k)"
  by (auto simp: io_restrict_write_def watched_call_def get_global_uid_def pipe_at_def pipe_id_def
      split: option.splits if_splits)

lemma splice_killed:
  "hr_kill (fst (io_restrict_splice en cap c fd_in fd_out flags m)) \<longleftrightarrow>
   watched_call en c \<and>
   (bit flags 0 \<or> bit flags 3 \<or>
    extract_file_meta (ic_files c) fd_in \<noteq> None \<and> extract_file_meta (ic_files c) fd_out \<noteq> None \<and>
    (\<exists>k. (pipe_at c fd_in = Some k \<or> pipe_at c fd_out = Some k) \<and> tainted m k))"
  by (auto simp: io_restrict_splice_def splice_to_pipe_def watched_call_def get_global_uid_def pipe_at_def
      pipe_id_def flag_mask Let_def split: option.splits if_splits)


text \<open>
  A process with a read-only file at 3, the write end of a pipe at 4 and its read end at 5.
\<close>

definition demo_io :: "u32 \<Rightarrow> io_call" where
  "demo_io uid =
     \<lparr>ic_state = Map.empty, ic_task = \<lparr>t_tgid = 70, t_pid = 71, t_uid = uid, t_comm = None\<rparr>,
      ic_files = Some \<lparr>ft_max_fds = 64, ft_fd = Some
        [3 \<mapsto> \<lparr>fo_inode = Some \<lparr>i_ino = 9, i_dev = 1, i_mode = 0x8124, i_nlink = 1, s_magic = 0xEF53\<rparr>,
              fo_mode = 1, fo_private = 0\<rparr>,
         4 \<mapsto> \<lparr>fo_inode = Some \<lparr>i_ino = 55, i_dev = 1, i_mode = 0x1180, i_nlink = 1, s_magic = 0\<rparr>,
              fo_mode = 2, fo_private = 0x1000\<rparr>,
         5 \<mapsto> \<lparr>fo_inode = Some \<lparr>i_ino = 55, i_dev = 1, i_mode = 0x1180, i_nlink = 1, s_magic = 0\<rparr>,
              fo_mode = 1, fo_private = 0x1000\<rparr>]\<rparr>,
      ic_reserved = None\<rparr>"

lemma demo_io_simps:
  "pipe_at (demo_io uid) 4 = Some (generate_opaque_pipe_id 0x1000 55)"
  "pipe_at (demo_io uid) 5 = Some (generate_opaque_pipe_id 0x1000 55)"
  "uid \<noteq> 0 \<Longrightarrow> watched_call en (demo_io uid)"
  "read_only_source (demo_io uid) 3"
  by (simp_all add: pipe_at_def demo_io_def extract_file_meta_def pipe_id_def S_ISFIFO_def watched_call_def
      is_module_active_def read_only_source_def word_le_nat_alt)

lemma demo_taints: "taints en (Splice (demo_io 1000) 3 4 0) (generate_opaque_pipe_id 0x1000 55)"
  by (simp add: demo_io_simps)

lemma taint_alive_single: "taint_alive en [s] k \<longleftrightarrow> taints en s k"
  by (simp add: taint_alive_Cons)


text \<open>
  C39: every release of an open file while the module is active clears the taint of its pipe,
  not only the one that frees it. Whoever taints a pipe and closes one descriptor of it can go
  on with the others: the same write that was fatal passes.
\<close>

theorem closing_one_end_launders:
  assumes "taints en s k" and "releases en r k" and "2 \<le> cap"
    and "watched_call en c" and "pipe_at c fd = Some k"
  shows "hr_kill (io_restrict_write en c fd (snd (io_run en cap [s] []))) \<and>
    io_restrict_write en c fd (snd (io_run en cap [s, r] [])) = allow"
proof -
  have "\<not> taints en r k" using assms(2) by (cases r) simp_all
  then have dead: "\<not> tainted (snd (io_run en cap [s, r] [])) k"
    using run_taints [of "[]" "[s, r]" cap en k] assms(2,3)
    by (simp add: taint_alive_Cons tainted_def del: io_run.simps)
  have "tainted (snd (io_run en cap [s] [])) k"
    using run_taints [of "[]" "[s]" cap en k] assms(1,3) by (simp add: taint_alive_single)
  moreover have "io_restrict_write en c fd m = allow" if "\<not> tainted m k" for m
    using assms(5) that
    by (auto simp: io_restrict_write_def pipe_at_def pipe_id_def split: option.splits if_splits)
  ultimately show ?thesis using assms(4,5) dead by (simp add: write_killed)
qed

theorem closing_one_end_launders_witness:
  "hr_kill (io_restrict_write Little (demo_io 1000) 4 (snd (io_run Little 2 [Splice (demo_io 1000) 3 4 0] []))) \<and>
   io_restrict_write Little (demo_io 1000) 4
     (snd (io_run Little 2 [Splice (demo_io 1000) 3 4 0, Release Map.empty 0x1000 55] [])) = allow"
  by (rule closing_one_end_launders [OF demo_taints])
    (simp_all add: demo_io_simps is_module_active_def)

text \<open>
  C40: a pipe that is freed while the module is off keeps its taint. Whichever pipe later gets
  an address and an inode number with the same exclusive or, in whichever unprivileged
  process, a write to it with the module active again is fatal.
\<close>

theorem ghost_taint:
  assumes "taints en s k" and "k = generate_opaque_pipe_id pipe ino" and "\<not> is_module_active en off"
    and "2 \<le> cap" and "watched_call en c"
    and "extract_file_meta (ic_files c) fd = Some meta" and "S_ISFIFO (me_mode meta)"
    and "me_private meta \<noteq> 0" and "me_private meta XOR me_ino meta = pipe XOR ino"
  shows "hr_kill (io_restrict_write en c fd (snd (io_run en cap [s, Release off pipe ino] [])))"
proof -
  have "pipe_at c fd = Some k"
    using assms(2,6-9) by (simp add: pipe_at_def pipe_id_def pipe_id_eq_iff)
  moreover have "tainted (snd (io_run en cap [s, Release off pipe ino] [])) k"
    using run_taints [of "[]" "[s, Release off pipe ino]" cap en k] assms(1,3,4)
    by (simp add: taint_alive_Cons del: io_run.simps)
  ultimately show ?thesis using assms(5) by (simp add: write_killed)
qed

theorem ghost_taint_witness:
  "hr_kill (io_restrict_write Little (demo_io 33) 5
     (snd (io_run Little 2 [Splice (demo_io 1000) 3 4 0, Release (\<lambda>_. Some [0, 0, 0, 0]) 0x1000 55] [])))"
proof (rule ghost_taint [OF demo_taints refl])
  show "\<not> is_module_active Little (\<lambda>_. Some [0, 0, 0, 0])"
    by (simp add: is_module_active_def u32_from_ne_bytes_def)
  show "extract_file_meta (ic_files (demo_io 33)) 5 =
      Some \<lparr>me_mode = 0x1180, me_fmode = 1, me_private = 0x1000, me_ino = 55\<rparr>"
    by (simp add: demo_io_def extract_file_meta_def word_le_nat_alt)
qed (simp_all add: demo_io_simps S_ISFIFO_def)

text \<open>
  The identifier of a pipe is no hash of its address. The mixing is a bijection with an
  inverse of the same shape, so the identifier gives the address back to whoever knows the
  inode number; and two pipes share one exactly when their exclusive ors agree.
\<close>

theorem pipe_id_recoverable:
  "pipe_id_seed (generate_opaque_pipe_id pipe_ptr ino) XOR ino = pipe_ptr \<and>
   (generate_opaque_pipe_id p i = generate_opaque_pipe_id q j \<longleftrightarrow> p XOR i = q XOR j) \<and>
   (\<exists>p'. generate_opaque_pipe_id p' ino = h)"
proof (intro conjI)
  show "pipe_id_seed (generate_opaque_pipe_id pipe_ptr ino) XOR ino = pipe_ptr"
    by (simp add: pipe_id_seed xor.assoc)
  show "generate_opaque_pipe_id p i = generate_opaque_pipe_id q j \<longleftrightarrow> p XOR i = q XOR j"
    by (rule pipe_id_eq_iff)
  have "generate_opaque_pipe_id (pipe_id_seed h XOR ino) ino = generate_opaque_pipe_id (pipe_id_seed h) 0"
    by (simp add: pipe_id_eq_iff xor.assoc)
  then show "\<exists>p'. generate_opaque_pipe_id p' ino = h" using generate_seed by metis
qed

end
