(* ===== verification/BB_Kernel_Rename.thy ===== *)
theory BB_Kernel_Rename
  imports BB_Rename_Entropy BB_Kernel
begin

text \<open>
  The hook \<open>rename_entropy_path_rename\<close> of \<open>bpf/rename_entropy.bpf.c\<close>, which scores the
  new name of a file that is renamed in a protected directory and blocks the rename, and
  the user-space mirror of its arithmetic in the tests of \<open>modules/src/rename_entropy.rs\<close>.
  The lemmas show that the two agree, which renames are blocked and which cannot be, and
  that the record the hook submits is read back by the daemon's parser.
\<close>

section \<open>The logarithm table\<close>

text \<open>The table of the kernel program, and the copy of it in the tests of the module.\<close>

definition scaled_log2 :: "u32 list" where
  "scaled_log2 =
    [0, 0, 1024, 1623, 2048, 2377, 2647, 2874, 3072, 3246, 3401, 3542, 3671, 3790, 3900, 4004,
     4100, 4191, 4276, 4356, 4432, 4504, 4572, 4638, 4700, 4760, 4817, 4872, 4925, 4976, 5026,
     5074, 5120, 5164, 5208, 5250, 5291, 5332, 5371, 5410, 5448, 5485, 5521, 5557, 5592, 5626,
     5660, 5693, 5726, 5758, 5789, 5820, 5851, 5881, 5910, 5939, 5968, 5996, 6024, 6052, 6079,
     6106, 6132, 6158, 6184, 6209, 6234, 6259, 6283, 6307, 6331, 6355, 6378, 6401, 6424, 6446,
     6468, 6490, 6512, 6533, 6555, 6576, 6596, 6617, 6638, 6658, 6678, 6698, 6718, 6737, 6757,
     6776, 6795, 6814, 6833, 6851, 6870, 6888, 6906, 6924, 6942, 6960, 6977, 6995, 7012, 7029,
     7046, 7063, 7080, 7096, 7113, 7129, 7145, 7161, 7177, 7193, 7209, 7224, 7240, 7255, 7270,
     7285, 7300, 7315, 7330, 7345, 7359, 7374, 7388, 7402, 7416, 7430, 7444, 7458, 7472, 7486,
     7499, 7513, 7526, 7540, 7553, 7566, 7579, 7592, 7605, 7618, 7631, 7643, 7656, 7668, 7681,
     7693, 7705, 7718, 7730, 7742, 7754, 7766, 7778, 7789, 7801, 7813, 7824, 7836, 7847, 7859,
     7870, 7881, 7892, 7903, 7914, 7925, 7936, 7947, 7958, 7969, 7979, 7990, 8000, 8011, 8021,
     8032, 8042, 8052, 8062, 8072, 8083, 8093, 8103, 8113, 8123, 8132, 8142, 8152, 8162, 8171,
     8181, 8191, 8200, 8210, 8219, 8229, 8238, 8247, 8257, 8266, 8275, 8284, 8294, 8303, 8312,
     8321, 8330, 8339, 8348, 8356, 8365, 8374, 8383, 8392, 8400, 8409, 8418, 8426, 8435, 8443,
     8452, 8460, 8469, 8477, 8485, 8494, 8502, 8510, 8518, 8527, 8535, 8543, 8551, 8559, 8567,
     8575, 8583, 8591, 8599, 8607, 8615, 8622, 8630, 8638, 8646, 8653, 8661, 8669, 8676, 8684]"

definition SCALED_LOG2 :: "u32 list" where
  "SCALED_LOG2 =
    [0, 0, 1024, 1623, 2048, 2377, 2647, 2874, 3072, 3246, 3401, 3542, 3671, 3790, 3900, 4004,
     4100, 4191, 4276, 4356, 4432, 4504, 4572, 4638, 4700, 4760, 4817, 4872, 4925, 4976, 5026,
     5074, 5120, 5164, 5208, 5250, 5291, 5332, 5371, 5410, 5448, 5485, 5521, 5557, 5592, 5626,
     5660, 5693, 5726, 5758, 5789, 5820, 5851, 5881, 5910, 5939, 5968, 5996, 6024, 6052, 6079,
     6106, 6132, 6158, 6184, 6209, 6234, 6259, 6283, 6307, 6331, 6355, 6378, 6401, 6424, 6446,
     6468, 6490, 6512, 6533, 6555, 6576, 6596, 6617, 6638, 6658, 6678, 6698, 6718, 6737, 6757,
     6776, 6795, 6814, 6833, 6851, 6870, 6888, 6906, 6924, 6942, 6960, 6977, 6995, 7012, 7029,
     7046, 7063, 7080, 7096, 7113, 7129, 7145, 7161, 7177, 7193, 7209, 7224, 7240, 7255, 7270,
     7285, 7300, 7315, 7330, 7345, 7359, 7374, 7388, 7402, 7416, 7430, 7444, 7458, 7472, 7486,
     7499, 7513, 7526, 7540, 7553, 7566, 7579, 7592, 7605, 7618, 7631, 7643, 7656, 7668, 7681,
     7693, 7705, 7718, 7730, 7742, 7754, 7766, 7778, 7789, 7801, 7813, 7824, 7836, 7847, 7859,
     7870, 7881, 7892, 7903, 7914, 7925, 7936, 7947, 7958, 7969, 7979, 7990, 8000, 8011, 8021,
     8032, 8042, 8052, 8062, 8072, 8083, 8093, 8103, 8113, 8123, 8132, 8142, 8152, 8162, 8171,
     8181, 8191, 8200, 8210, 8219, 8229, 8238, 8247, 8257, 8266, 8275, 8284, 8294, 8303, 8312,
     8321, 8330, 8339, 8348, 8356, 8365, 8374, 8383, 8392, 8400, 8409, 8418, 8426, 8435, 8443,
     8452, 8460, 8469, 8477, 8485, 8494, 8502, 8510, 8518, 8527, 8535, 8543, 8551, 8559, 8567,
     8575, 8583, 8591, 8599, 8607, 8615, 8622, 8630, 8638, 8646, 8653, 8661, 8669, 8676, 8684]"

section \<open>The score in the kernel\<close>

text \<open>The cleared scratch buffer with the name in it; the counters are bytes and wrap.\<close>

definition scratch_name :: "u8 list \<Rightarrow> u8 list" where
  "scratch_name d_name = probe_read_str d_name (replicate 256 0)"

definition count_byte :: "u8 \<Rightarrow> 'w::len word list \<Rightarrow> 'w word list" where
  "count_byte c counts = counts[unat c := counts ! unat c + 1]"

definition calculate_character_counts :: "u8 list \<Rightarrow> u8 list" where
  "calculate_character_counts name =
     fold count_byte (takeWhile (\<lambda>c. c \<noteq> 0) (take 255 name)) (replicate 256 0)"

definition compute_entropy :: "u8 list \<Rightarrow> u32" where
  "compute_entropy counts =
     fold (\<lambda>count sum_c_log_c.
       let c = ucast count AND 0xFF
       in if c = 0 then sum_c_log_c else sum_c_log_c + c * scaled_log2 ! unat c) counts 0"

definition h_scaled :: "u32 \<Rightarrow> u32 \<Rightarrow> u32" where
  "h_scaled nlen sum_c_log_c =
     (let safe_nlen = (if nlen > 0 then nlen else 1);
          log_nlen = scaled_log2 ! unat (safe_nlen AND 0xFF)
      in if log_nlen > sum_c_log_c div safe_nlen then log_nlen - sum_c_log_c div safe_nlen else 0)"

section \<open>The mirror in the module's tests\<close>

text \<open>
  \<open>saturating_sub\<close>, \<open>+=\<close> and \<open>*\<close> on \<open>u32\<close>; the sums stay far below \<open>2 ^ 32\<close> for a name of
  at most 255 bytes.
\<close>

definition compute_entropy_mirror :: "u8 list \<Rightarrow> u32" where
  "compute_entropy_mirror bytes =
     (let safe_nlen = (if bytes \<noteq> [] then of_nat (length bytes) else 1);
          counts = fold count_byte bytes (replicate 256 0 :: u32 list);
          sum_c_log_c = fold (\<lambda>c s. if c > 0 then s + c * SCALED_LOG2 ! unat (c AND 0xFF) else s) counts 0;
          log_nlen = SCALED_LOG2 ! unat (safe_nlen AND 0xFF);
          average = sum_c_log_c div safe_nlen
      in if average \<le> log_nlen then log_nlen - average else 0)"

section \<open>The hook\<close>

text \<open>
  What the hook reads: the state map, whether the lookup of its scratch memory succeeds, the
  watchlist's entries for the two directories, the new name and its length as the dentry has
  them, the lineage, the path buffer with the new directory's path (\<open>None\<close> when there is
  none or \<open>bpf_d_path\<close> fails), the memory the ring buffer hands out (\<open>None\<close> when it is full),
  which holds whatever it held before.
\<close>

record rename_call =
  rc_state :: kmap
  rc_scratch :: bool
  rc_old_protected :: "u8 option"
  rc_new_protected :: "u8 option"
  rc_d_name :: "u8 list"
  rc_pid :: u32
  rc_ppid :: u32
  rc_dir_path :: "u8 list option"
  rc_reserved :: "u8 list option"

text \<open>A denied rename kills the caller; the record is submitted if there was room for it.\<close>

definition kill_and_deny :: "u8 list list \<Rightarrow> hook_result" where
  "kill_and_deny events = \<lparr>hr_ret = - EPERM, hr_events = events, hr_kill = True\<rparr>"

lemma kill_and_deny_simps [simp]:
  "hr_ret (kill_and_deny es) = - EPERM" "hr_events (kill_and_deny es) = es" "hr_kill (kill_and_deny es)"
  "kill_and_deny es \<noteq> allow"
  by (simp_all add: kill_and_deny_def allow_def)

definition directory_protected :: "u8 option \<Rightarrow> bool" where
  "directory_protected entry \<longleftrightarrow> (case entry of None \<Rightarrow> False | Some v \<Rightarrow> v \<noteq> 0)"

text \<open>The extension boundary is looked for in the last eight bytes of the name.\<close>

definition find_dot :: "nat \<Rightarrow> u8 list \<Rightarrow> nat option" where
  "find_dot nlen name =
     map_option (\<lambda>i. nlen - 1 - i) (position (\<lambda>i. name ! (nlen - 1 - i) = 46) [0..<min 8 nlen])"

definition whitelisted_extensions :: "u8 list list" where
  "whitelisted_extensions =
     [[108, 111, 103], [103, 105, 116], [116, 109, 112], [115, 119, 112]]"

definition extension_whitelisted :: "nat \<Rightarrow> u8 list \<Rightarrow> bool" where
  "extension_whitelisted nlen name =
     (case find_dot nlen name of
        None \<Rightarrow> False
      | Some dot_pos \<Rightarrow>
          dot_pos > 0 \<and> nlen - dot_pos \<le> 5 \<and>
          [name ! ((dot_pos + 1) mod 256), name ! ((dot_pos + 2) mod 256), name ! ((dot_pos + 3) mod 256)]
            \<in> set whitelisted_extensions)"

definition rename_event :: "endian \<Rightarrow> rename_call \<Rightarrow> u8 list \<Rightarrow> u8 list \<Rightarrow> u8 list" where
  "rename_event en rc name event =
     u32_to_ne_bytes en (rc_pid rc) @ u32_to_ne_bytes en (rc_ppid rc) @
     (case rc_dir_path rc of
        None \<Rightarrow> take 4096 (drop 8 event)
      | Some p \<Rightarrow> probe_read_str p (take 4096 (drop 8 event))) @
     probe_read_str name (take 256 (drop 4104 event))"

definition rename_hook :: "endian \<Rightarrow> rename_call \<Rightarrow> hook_result" where
  "rename_hook en rc =
     (if \<not> is_module_active en (rc_state rc) then allow
      else if \<not> rc_scratch rc then allow
      else if \<not> directory_protected (rc_old_protected rc) \<and> \<not> directory_protected (rc_new_protected rc)
      then allow
      else (let original_nlen = length (rc_d_name rc);
                nlen = min 255 original_nlen
            in if nlen < 8 then allow
               else (let name = scratch_name (rc_d_name rc)
                     in if original_nlen \<le> 255 \<and> extension_whitelisted nlen name then allow
                        else if h_scaled (of_nat nlen) (compute_entropy (calculate_character_counts name)) > 4300
                        then kill_and_deny (submit (rc_reserved rc) (rename_event en rc name))
                        else allow)))"

section \<open>Byte counts\<close>

lemma length_count_byte [simp]: "length (count_byte c counts) = length counts"
  by (simp add: count_byte_def)

lemma length_counts [simp]: "length (fold count_byte bs counts) = length counts"
  by (induction bs arbitrary: counts) simp_all

lemma counts_nth:
  "length counts = 256 \<Longrightarrow>
   fold count_byte bs counts ! unat b = counts ! unat b + of_nat (count_list bs b)"
proof (induction bs arbitrary: counts)
  case Nil
  then show ?case by simp
next
  case (Cons c bs)
  have "unat b < 256" using unsigned_less [of b] by simp
  with Cons show ?case
    by (cases "c = b") (simp_all add: count_byte_def word_unat_eq_iff [of c b])
qed

lemma byte_list_eqI:
  assumes "length xs = 256" "length ys = 256" "\<And>b :: u8. xs ! unat b = ys ! unat b"
  shows "xs = ys"
proof (rule nth_equalityI)
  fix i
  assume "i < length xs"
  then have "unat (of_nat i :: u8) = i" using assms(1) by (simp add: unat_of_nat)
  with assms(3) [of "of_nat i"] show "xs ! i = ys ! i" by simp
qed (use assms in simp)

lemma ucast_of_nat_byte:
  assumes "n < 256"
  shows "(ucast (of_nat n :: u8) :: u32) = of_nat n"
  using assms by (simp add: word_eq_iff_unsigned unsigned_ucast_eq unat_of_nat take_bit_nat_eq_self_iff
      unsigned_of_nat take_bit_nat_def)

lemma counts_widen:
  assumes "length bs < 256"
  shows "map ucast (fold count_byte bs (replicate 256 0 :: u8 list)) =
    (fold count_byte bs (replicate 256 0) :: u32 list)"
proof (rule byte_list_eqI)
  fix b :: u8
  have "unat b < 256" using unsigned_less [of b] by simp
  moreover have "count_list bs b < 256"
    using assms count_le_length [of bs b] by linarith
  ultimately show "map ucast (fold count_byte bs (replicate 256 0 :: u8 list)) ! unat b =
      (fold count_byte bs (replicate 256 0) :: u32 list) ! unat b"
    by (simp add: counts_nth ucast_of_nat_byte)
qed simp_all

section \<open>The two computations agree\<close>

lemma tables_equal: "SCALED_LOG2 = scaled_log2"
  by (simp only: SCALED_LOG2_def scaled_log2_def)

lemma mask_byte: "ucast (c :: u8) AND 0xFF = (ucast c :: u32)"
proof -
  have "ucast c AND mask 8 = (ucast c :: u32)"
    by (rule bit_word_eqI) (auto simp: bit_simps dest: bit_imp_le_length)
  then show ?thesis by (simp add: mask_eq_exp_minus_1)
qed

lemma compute_entropy_widen:
  "compute_entropy counts =
     fold (\<lambda>c s. if c > 0 then s + c * SCALED_LOG2 ! unat (c AND 0xFF) else s) (map ucast counts) 0"
proof -
  have "fold (\<lambda>count s. let c = ucast count AND 0xFF in if c = 0 then s else s + c * scaled_log2 ! unat c) counts a =
      fold (\<lambda>c s. if c > 0 then s + c * SCALED_LOG2 ! unat (c AND 0xFF) else s) (map ucast counts) a" for a
    by (induction counts arbitrary: a)
      (simp_all add: Let_def mask_byte tables_equal word_gt_0)
  then show ?thesis by (simp add: compute_entropy_def)
qed

lemma unat_of_nat_short: "n < 256 \<Longrightarrow> unat (of_nat n :: u32) = n"
  by (simp add: unat_of_nat)

lemma length_index: "n < 256 \<Longrightarrow> unat (of_nat n AND 0xFF :: u32) = n"
  by (metis mask_byte ucast_of_nat_byte unat_of_nat_short)

text \<open>The names Linux allows: one to 255 bytes, none of them zero.\<close>

definition valid_name :: "u8 list \<Rightarrow> bool" where
  "valid_name d \<longleftrightarrow> d \<noteq> [] \<and> length d \<le> 255 \<and> 0 \<notin> set d"

lemma takeWhile_valid [simp]: "valid_name d \<Longrightarrow> takeWhile (\<lambda>b. b \<noteq> 0) d = d"
  by (auto simp: valid_name_def takeWhile_eq_all_conv)

lemma c_string_valid: "valid_name d \<Longrightarrow> c_string d = d"
  by (simp add: valid_name_def)

lemma scratch_name_valid:
  assumes "valid_name d"
  shows "scratch_name d = d @ replicate (256 - length d) 0"
proof -
  have "256 - length d = Suc (255 - length d)"
    using assms unfolding valid_name_def by linarith
  with assms show ?thesis
    by (simp add: scratch_name_def probe_read_str_def Let_def valid_name_def)
qed

lemma counts_valid:
  assumes "valid_name d"
  shows "calculate_character_counts (scratch_name d) = fold count_byte d (replicate 256 0)"
proof -
  have "take 255 (scratch_name d) = d @ replicate (255 - length d) 0"
    using assms by (simp add: scratch_name_valid valid_name_def)
  moreover have "takeWhile (\<lambda>b. b \<noteq> 0) (d @ replicate (255 - length d) 0) = d"
    using assms by (simp add: takeWhile_append takeWhile_replicate)
  ultimately show ?thesis by (simp add: calculate_character_counts_def)
qed

definition kernel_score :: "u8 list \<Rightarrow> u32" where
  "kernel_score d =
     h_scaled (of_nat (min 255 (length d))) (compute_entropy (calculate_character_counts (scratch_name d)))"

lemma kernel_score_mirror:
  assumes "valid_name d"
  shows "kernel_score d = compute_entropy_mirror d"
proof -
  have pos: "(of_nat (length d) :: u32) > 0" "d \<noteq> []" "min 255 (length d) = length d"
    using assms by (auto simp: valid_name_def word_less_nat_alt unat_of_nat_short)
  have widen: "map ucast (fold count_byte d (replicate 256 0 :: u8 list)) =
      (fold count_byte d (replicate 256 0) :: u32 list)"
    using assms by (intro counts_widen) (simp add: valid_name_def)
  show ?thesis
    unfolding kernel_score_def counts_valid [OF assms] compute_entropy_widen widen pos(3)
    using pos by (auto simp: h_scaled_def compute_entropy_mirror_def Let_def tables_equal)
qed

section \<open>Bounds on the score\<close>

lemma mirror_unfold:
  assumes "valid_name d"
  obtains s where "s = fold (\<lambda>c s. if c > 0 then s + c * SCALED_LOG2 ! unat (c AND 0xFF) else s)
      (fold count_byte d (replicate 256 0)) 0"
    and "compute_entropy_mirror d =
      (if s div of_nat (length d) \<le> scaled_log2 ! length d
       then scaled_log2 ! length d - s div of_nat (length d) else 0)"
  using assms that by (simp add: compute_entropy_mirror_def Let_def valid_name_def length_index tables_equal)

lemma word_sub_le: "(a :: u32) \<le> b \<Longrightarrow> b - a \<le> b"
  by (simp add: word_le_nat_alt unat_sub)

lemma mirror_le_log:
  assumes "valid_name d"
  shows "compute_entropy_mirror d \<le> scaled_log2 ! length d"
  by (rule mirror_unfold [OF assms]) (simp add: word_sub_le)

lemma length_table [simp]: "length scaled_log2 = 256"
  by (simp add: scaled_log2_def)

lemma short_table:
  assumes "n \<le> 18"
  shows "scaled_log2 ! n \<le> 4276"
proof -
  have "list_all (\<lambda>x. x \<le> 4276) (take 19 scaled_log2)" by (simp add: scaled_log2_def)
  moreover from assms have "scaled_log2 ! n = take 19 scaled_log2 ! n" "n < length (take 19 scaled_log2)"
    by simp_all
  ultimately show ?thesis unfolding list_all_length by presburger
qed

lemma long_table: "19 \<le> n \<Longrightarrow> n < 256 \<Longrightarrow> 4300 < scaled_log2 ! n"
proof -
  assume n: "19 \<le> n" "n < 256"
  have "list_all (\<lambda>x. 4300 < x) (drop 19 scaled_log2)"
    by (simp add: scaled_log2_def)
  moreover from n have "scaled_log2 ! n = drop 19 scaled_log2 ! (n - 19)" "n - 19 < length (drop 19 scaled_log2)"
    by simp_all
  ultimately show ?thesis unfolding list_all_length by presburger
qed

text \<open>A name without a repeated byte scores the logarithm of its length.\<close>

lemma count_list_distinct: "distinct xs \<Longrightarrow> count_list xs x = (if x \<in> set xs then 1 else 0)"
  by (induction xs) auto

lemma distinct_counts:
  assumes "distinct d" and "c \<in> set (fold count_byte d (replicate 256 0) :: u32 list)"
  shows "c = 0 \<or> c = 1"
proof -
  from assms(2) obtain i where i: "i < 256" "c = fold count_byte d (replicate 256 0) ! i"
    by (auto simp: in_set_conv_nth)
  have "unat (of_nat i :: u8) = i" using i(1) by (simp add: unat_of_nat)
  with i counts_nth [of "replicate 256 0 :: u32 list" d "of_nat i"] have
    "c = of_nat (count_list d (of_nat i))" by simp
  then show ?thesis by (simp add: count_list_distinct [OF assms(1)])
qed

lemma sum_of_ones:
  "\<forall>c \<in> set cs. c = 0 \<or> c = 1 \<Longrightarrow>
   fold (\<lambda>c s. if c > 0 then s + c * SCALED_LOG2 ! unat (c AND 0xFF) else s) cs a = a"
proof (induction cs arbitrary: a)
  case Nil
  then show ?case by simp
next
  case (Cons c cs)
  have "SCALED_LOG2 ! 1 = 0" by (simp add: SCALED_LOG2_def)
  then have "(if c > 0 then a + c * SCALED_LOG2 ! unat (c AND 0xFF) else a) = a"
    using Cons.prems by auto
  with Cons show ?case by simp
qed

lemma mirror_distinct:
  assumes "valid_name d" and "distinct d"
  shows "compute_entropy_mirror d = scaled_log2 ! length d"
  by (rule mirror_unfold [OF assms(1)]) (simp add: sum_of_ones distinct_counts [OF assms(2)])

section \<open>The extension\<close>

lemma position_upt:
  assumes "i < n" and "P i" and "\<And>j. j < i \<Longrightarrow> \<not> P j"
  shows "position P [0..<n] = Some i"
proof -
  have "position P (map f [0..<n]) = Some i" if "i < n" "P (f i)" "\<And>j. j < i \<Longrightarrow> \<not> P (f j)"
    for f :: "nat \<Rightarrow> nat" and n i
    using that
  proof (induction i arbitrary: f n)
    case 0
    then show ?case by (cases n) (simp_all add: upt_conv_Cons del: upt_Suc)
  next
    case (Suc i)
    then obtain m where n: "n = Suc m" by (cases n) auto
    have "position P (map (f \<circ> Suc) [0..<m]) = Some i"
      using Suc.prems n by (intro Suc.IH) auto
    moreover have "[0..<n] = 0 # map Suc [0..<m]" by (simp add: n map_Suc_upt upt_conv_Cons del: upt_Suc)
    ultimately show ?case using Suc.prems(3) [of 0] by simp
  qed
  from this [of i n id] assms show ?thesis by simp
qed

lemma find_dot_extension:
  assumes "46 \<notin> set ext" and "length ext < 8" and "nlen = length stem + Suc (length ext)"
  shows "find_dot nlen (stem @ 46 # ext @ rest) = Some (length stem)"
proof -
  have at: "(stem @ 46 # ext @ rest) ! (nlen - 1 - i) = (if i < length ext then ext ! (length ext - 1 - i) else 46)"
    if "i \<le> length ext" for i
    using that assms(3) by (auto simp: nth_append nth_Cons' le_Suc_eq)
  have "position (\<lambda>i. (stem @ 46 # ext @ rest) ! (nlen - 1 - i) = 46) [0..<min 8 nlen] = Some (length ext)"
  proof (rule position_upt)
    fix j
    assume "j < length ext"
    then have "(stem @ 46 # ext @ rest) ! (nlen - 1 - j) = ext ! (length ext - 1 - j)"
      and "length ext - 1 - j < length ext"
      using at [of j] by simp_all
    then have "(stem @ 46 # ext @ rest) ! (nlen - 1 - j) \<in> set ext" by (metis nth_mem)
    with assms(1) show "(stem @ 46 # ext @ rest) ! (nlen - 1 - j) \<noteq> 46" by metis
  qed (use assms at in auto)
  with assms(3) show ?thesis by (simp add: find_dot_def)
qed

lemma position_Some:
  "position P xs = Some i \<Longrightarrow> i < length xs \<and> P (xs ! i) \<and> (\<forall>j < i. \<not> P (xs ! j))"
proof (induction xs arbitrary: i)
  case Nil
  then show ?case by simp
next
  case (Cons x xs)
  then show ?case
    by (cases i) (auto split: if_splits simp: less_Suc_eq_0_disj)
qed

text \<open>What the whitelist means for a name: its last dot starts one of four extensions, give or take one byte.\<close>

definition benign_extension :: "u8 list \<Rightarrow> bool" where
  "benign_extension d \<longleftrightarrow>
     (\<exists>stem ext. d = stem @ 46 # ext \<and> stem \<noteq> [] \<and> 46 \<notin> set ext \<and> length ext \<le> 4 \<and>
        take 3 ext \<in> set whitelisted_extensions)"

lemma whitelisted_extensions_nonzero:
  "w \<in> set whitelisted_extensions \<Longrightarrow> length w = 3 \<and> 0 \<notin> set w"
  by (auto simp: whitelisted_extensions_def)

lemma take_3: "3 \<le> length xs \<Longrightarrow> take 3 xs = [xs ! 0, xs ! 1, xs ! 2]"
  by (cases xs; cases "tl xs"; cases "tl (tl xs)") (auto simp: numeral_3_eq_3 numeral_2_eq_2)

lemma benign_whitelisted:
  assumes "valid_name d" and "benign_extension d"
  shows "extension_whitelisted (length d) (scratch_name d)"
proof -
  obtain stem ext where d: "d = stem @ 46 # ext" "stem \<noteq> []" "46 \<notin> set ext" "length ext \<le> 4"
      "take 3 ext \<in> set whitelisted_extensions"
    using assms(2) by (auto simp: benign_extension_def)
  have ext: "3 \<le> length ext"
    using whitelisted_extensions_nonzero [OF d(5)] by (auto simp: min_def split: if_splits)
  have len: "length stem + length ext < 255" using assms(1) d(1) by (simp add: valid_name_def)
  let ?name = "stem @ 46 # ext @ replicate (256 - length d) 0"
  have name: "scratch_name d = ?name" using assms(1) d(1) by (simp add: scratch_name_valid)
  have dot: "find_dot (length d) (scratch_name d) = Some (length stem)"
    unfolding name using d by (intro find_dot_extension) auto
  have at: "scratch_name d ! ((length stem + 1) mod 256) = ext ! 0"
      "scratch_name d ! ((length stem + 2) mod 256) = ext ! 1"
      "scratch_name d ! ((length stem + 3) mod 256) = ext ! 2"
  proof -
    from ext have "ext \<noteq> []" by auto
    with ext len show "scratch_name d ! ((length stem + 1) mod 256) = ext ! 0"
      "scratch_name d ! ((length stem + 2) mod 256) = ext ! 1"
      "scratch_name d ! ((length stem + 3) mod 256) = ext ! 2"
      unfolding name by (simp_all add: nth_append)
  qed
  have "length stem > 0" "length d - length stem \<le> 5" using d(1,2,4) by simp_all
  moreover have "[ext ! 0, ext ! 1, ext ! 2] \<in> set whitelisted_extensions"
    using d(5) unfolding take_3 [OF ext] .
  ultimately show ?thesis by (simp only: extension_whitelisted_def dot option.case at simp_thms)
qed

lemma whitelisted_benign:
  assumes "valid_name d" and "extension_whitelisted (length d) (scratch_name d)"
  shows "benign_extension d"
proof -
  let ?n = "length d" and ?name = "scratch_name d"
  from assms(2) obtain p where p: "find_dot ?n ?name = Some p" "p > 0" "?n - p \<le> 5"
      "[?name ! ((p + 1) mod 256), ?name ! ((p + 2) mod 256), ?name ! ((p + 3) mod 256)] \<in> set whitelisted_extensions"
    by (auto simp: extension_whitelisted_def split: option.splits)
  then obtain i where i: "p = ?n - 1 - i" "i < ?n" "?name ! p = 46" "\<forall>j < i. ?name ! (?n - 1 - j) \<noteq> 46"
    by (auto simp: find_dot_def dest!: position_Some)
  have n: "?n \<le> 255" using assms(1) by (simp add: valid_name_def)
  have at: "?name ! k = (if k < ?n then d ! k else 0)" if "k < 256" for k
    using that assms(1) by (simp add: scratch_name_valid nth_append)
  have nz: "?name ! ((p + 1) mod 256) \<noteq> 0" "?name ! ((p + 2) mod 256) \<noteq> 0" "?name ! ((p + 3) mod 256) \<noteq> 0"
    using whitelisted_extensions_nonzero [OF p(4)] by auto
  have "p + 1 < ?n" using nz(1) i n at [of "p + 1"] by (auto split: if_splits)
  then have "p + 2 < ?n" using nz(2) n at [of "p + 2"] by (auto split: if_splits)
  then have p3: "p + 3 < ?n" using nz(3) n at [of "p + 3"] by (auto split: if_splits)
  let ?ext = "drop (p + 1) d"
  have "d ! p = 46" using i(3) p3 n at [of p] by simp
  then have "d = take p d @ 46 # ?ext"
    using id_take_nth_drop [of p d] p3 by simp
  moreover have "46 \<notin> set ?ext"
  proof
    assume "46 \<in> set ?ext"
    then obtain k where k: "k < length ?ext" "d ! (p + 1 + k) = 46" by (auto simp: in_set_conv_nth)
    let ?j = "?n - 2 - p - k"
    have "?n - 1 - ?j = p + 1 + k" "?j < i" using k(1) i(1,2) by auto
    moreover have "?name ! (p + 1 + k) = 46" using at [of "p + 1 + k"] k n by simp
    ultimately show False using i(4) by metis
  qed
  moreover have "take 3 ?ext = [d ! (p + 1), d ! (p + 2), d ! (p + 3)]"
    using p3 by (subst take_3) (simp_all add: eval_nat_numeral)
  then have "take 3 ?ext \<in> set whitelisted_extensions"
    using p(4) p3 n at by simp
  ultimately show ?thesis
    unfolding benign_extension_def using p(2,3) p3 by (intro exI [of _ "take p d"] exI [of _ ?ext]) auto
qed

section \<open>The hook and its reference\<close>

text \<open>What the user-space reference says of a rename.\<close>

definition rename_refused :: "endian \<Rightarrow> rename_call \<Rightarrow> bool" where
  "rename_refused en rc \<longleftrightarrow>
     is_module_active en (rc_state rc) \<and> rc_scratch rc \<and>
     (directory_protected (rc_old_protected rc) \<or> directory_protected (rc_new_protected rc)) \<and>
     8 \<le> length (rc_d_name rc) \<and> \<not> benign_extension (rc_d_name rc) \<and>
     4300 < compute_entropy_mirror (rc_d_name rc)"

definition rename_records :: "endian \<Rightarrow> rename_call \<Rightarrow> u8 list list" where
  "rename_records en rc = submit (rc_reserved rc) (rename_event en rc (scratch_name (rc_d_name rc)))"

lemma rename_hook_cases:
  "rename_hook en rc = allow \<or>
   is_module_active en (rc_state rc) \<and> rename_hook en rc = kill_and_deny (rename_records en rc)"
  by (simp add: rename_hook_def rename_records_def Let_def)

lemma hook_denies:
  assumes "valid_name (rc_d_name rc)"
  shows "rename_hook en rc =
    (if rename_refused en rc then kill_and_deny (rename_records en rc) else allow)"
proof -
  let ?d = "rc_d_name rc"
  have len: "length ?d \<le> 255" "min 255 (length ?d) = length ?d"
    using assms by (simp_all add: valid_name_def)
  have ext: "extension_whitelisted (length ?d) (scratch_name ?d) \<longleftrightarrow> benign_extension ?d"
    using benign_whitelisted whitelisted_benign assms by blast
  have score: "h_scaled (of_nat (length ?d)) (compute_entropy (calculate_character_counts (scratch_name ?d))) =
      compute_entropy_mirror ?d"
    using kernel_score_mirror [OF assms] by (simp add: kernel_score_def len(2))
  show ?thesis
    by (simp add: rename_hook_def rename_refused_def rename_records_def Let_def len ext score)
qed

lemma hook_submits:
  "d \<in> set (hr_events (rename_hook en rc)) \<Longrightarrow>
   \<exists>event. rc_reserved rc = Some event \<and> d = rename_event en rc (scratch_name (rc_d_name rc)) event"
  using rename_hook_cases [of en rc] by (auto simp: rename_records_def submit_member)

section \<open>The hook and the module\<close>

text \<open>The ring hands out as many bytes as the structure has, holding anything.\<close>

definition rename_sound :: "rename_call \<Rightarrow> bool" where
  "rename_sound rc \<longleftrightarrow> (case rc_reserved rc of None \<Rightarrow> True | Some event \<Rightarrow> length event = 4360)"

text \<open>The structure that is submitted.\<close>

definition rename_struct_of :: "rename_call \<Rightarrow> u8 list \<Rightarrow> rename_struct" where
  "rename_struct_of rc event =
     \<lparr>rs_pid = rc_pid rc, rs_ppid = rc_ppid rc,
      rs_dir_path = (case rc_dir_path rc of
         None \<Rightarrow> take 4096 (drop 8 event)
       | Some p \<Rightarrow> probe_read_str p (take 4096 (drop 8 event))),
      rs_file_name = probe_read_str (scratch_name (rc_d_name rc)) (take 256 (drop 4104 event))\<rparr>"

text \<open>
  The bytes of the directory it reports: those of the path, or, when there is none, of
  whatever an earlier record left in the ring. The name is reported up to its 255th byte.
\<close>

definition rename_dir_bytes :: "rename_call \<Rightarrow> u8 list" where
  "rename_dir_bytes rc =
     (case rc_dir_path rc of
        None \<Rightarrow> c_string (take 4096 (drop 8 (the (rc_reserved rc))))
      | Some p \<Rightarrow> take 4095 (c_string p))"

definition rename_name_bytes :: "rename_call \<Rightarrow> u8 list" where
  "rename_name_bytes rc = take 255 (c_string (rc_d_name rc))"

definition rename_reported :: "rename_call \<Rightarrow> rename_alert" where
  "rename_reported rc =
     \<lparr>rename_pid = rc_pid rc, rename_ppid = rc_ppid rc,
      rename_full_path =
        trim_end_by is_slash (shown (rename_dir_bytes rc)) @ str ''/'' @ shown (rename_name_bytes rc)\<rparr>"

lemma rename_event_image: "rename_event en rc (scratch_name (rc_d_name rc)) event = rename_image en (rename_struct_of rc event)"
  by (simp add: rename_event_def rename_image_def rename_struct_of_def)

lemma rename_struct_strings:
  assumes "length event = 4360" and "rc_reserved rc = Some event"
  shows "rename_sized (rename_struct_of rc event)"
    and "c_string (rs_dir_path (rename_struct_of rc event)) = rename_dir_bytes rc"
    and "c_string (rs_file_name (rename_struct_of rc event)) = rename_name_bytes rc"
proof -
  have len: "length (take 4096 (drop 8 event)) = 4096" "length (take 256 (drop 4104 event)) = 256"
    using assms(1) by simp_all
  have probe: "length (probe_read_str p (take 4096 (drop 8 event))) = 4096"
    "length (probe_read_str p (take 256 (drop 4104 event))) = 256" for p
    using len by (subst length_probe_read_str; simp)+
  then show "rename_sized (rename_struct_of rc event)"
    using len by (simp add: rename_sized_def rename_struct_of_def split: option.split)
  show "c_string (rs_dir_path (rename_struct_of rc event)) = rename_dir_bytes rc"
    using len assms(2) by (simp add: rename_struct_of_def rename_dir_bytes_def split: option.split)
  show "c_string (rs_file_name (rename_struct_of rc event)) = rename_name_bytes rc"
    using len by (simp add: rename_struct_of_def rename_name_bytes_def scratch_name_def)
qed

lemma rename_reads_back:
  assumes "rename_sound rc" and "d \<in> set (hr_events (rename_hook en rc))"
  shows "4360 \<le> length d \<and> rename_view en d = rename_reported rc \<and>
    rename_warnings d = noise (rename_dir_bytes rc) @ noise (rename_name_bytes rc)"
proof -
  obtain event where event: "rc_reserved rc = Some event"
    and d: "d = rename_image en (rename_struct_of rc event)"
    using hook_submits [OF assms(2)] rename_event_image by metis
  have "length event = 4360" using assms(1) event by (simp add: rename_sound_def)
  note strings = rename_struct_strings [OF this event]
  show ?thesis
    unfolding d using rename_layout.length_image [OF strings(1)] rename_layout.view_image [OF strings(1)]
      rename_layout.warnings_image [OF strings(1)]
    by (simp add: rename_meaning_def rename_grumbles_def strings(2,3) rename_reported_def)
      (simp add: rename_struct_of_def)
qed

interpretation rename_path_hook: reporting_hook rename_entropy_spec en 4360 "rename_view en" rename_warnings
  "rename_hook en" "\<lambda>rc. is_module_active en (rc_state rc)" rename_sound rename_reported
  "\<lambda>rc. noise (rename_dir_bytes rc) @ noise (rename_name_bytes rc)" for en
proof unfold_locales
  fix rc d
  show "length (hr_events (rename_hook en rc)) \<le> 1"
    using rename_hook_cases [of en rc] by (cases "rc_reserved rc") (auto simp: rename_records_def)
qed (simp add: rename_hook_def, rule rename_reads_back)

section \<open>An example\<close>

definition demo_name :: "u8 list" where
  "demo_name = map of_nat [97..<117]"

definition demo_call :: "u8 list \<Rightarrow> rename_call" where
  "demo_call name =
     \<lparr>rc_state = Map.empty, rc_scratch = True, rc_old_protected = None, rc_new_protected = Some 1, rc_d_name = name,
      rc_pid = 50, rc_ppid = 40, rc_dir_path = Some (kernel_string (str ''/home/user'')),
      rc_reserved = Some (replicate 4360 7)\<rparr>"

lemma demo_name_alt: "demo_name = kernel_string (str ''abcdefghijklmnopqrst'')"
  by (simp add: kernel_string_def str_def demo_name_def upt_rec)

lemma demo_valid: "valid_name (rc_d_name (demo_call demo_name))"
  by (simp add: valid_name_def demo_name_def demo_call_def upt_rec)

lemma demo_refused: "rename_refused Little (demo_call demo_name)"
proof -
  have "46 \<notin> set demo_name" by (simp add: demo_name_def upt_rec)
  then have "\<not> benign_extension demo_name"
    by (simp add: benign_extension_def) (metis in_set_conv_decomp)
  moreover have len: "distinct demo_name" "length demo_name = 20"
    by (simp_all add: demo_name_def upt_rec)
  moreover have "4300 < compute_entropy_mirror demo_name"
    using mirror_distinct [OF demo_valid] len long_table [of 20] by (simp add: demo_call_def)
  ultimately show ?thesis
    by (simp add: rename_refused_def demo_call_def directory_protected_def is_module_active_def)
qed

lemma demo_sound: "rename_sound (demo_call name)"
  by (simp add: rename_sound_def demo_call_def)

lemma demo_record:
  obtains d where "hr_events (rename_hook Little (demo_call demo_name)) = [d]"
  using hook_denies [OF demo_valid, of Little] demo_refused
  by (simp add: rename_records_def demo_call_def)

section \<open>Properties\<close>

text \<open>
  C10: the hook is equivalent to a user-space reference: it refuses a rename, kills the caller
  and submits a record when the ring has room, exactly when the module is active, its
  scratch memory is at hand, one of the two directories is protected, the name has at least
  eight bytes and no whitelisted extension, and the arithmetic of the module's tests puts
  its score above the threshold; otherwise it lets the rename pass.
\<close>

theorem hook_reference:
  assumes "valid_name (rc_d_name rc)"
  shows "rename_hook en rc =
    (if is_module_active en (rc_state rc) \<and> rc_scratch rc \<and>
        (directory_protected (rc_old_protected rc) \<or> directory_protected (rc_new_protected rc)) \<and>
        8 \<le> length (rc_d_name rc) \<and> \<not> benign_extension (rc_d_name rc) \<and>
        4300 < compute_entropy_mirror (rc_d_name rc)
     then \<lparr>hr_ret = - EPERM,
           hr_events = submit (rc_reserved rc) (rename_event en rc (scratch_name (rc_d_name rc))),
           hr_kill = True\<rparr>
     else allow)"
  using hook_denies [OF assms, of en]
  by (simp only: rename_refused_def rename_records_def kill_and_deny_def)

theorem hook_reference_witness:
  "hr_ret (rename_hook Little (demo_call demo_name)) = - EPERM \<and> hr_kill (rename_hook Little (demo_call demo_name))"
  using hook_reference [OF demo_valid, of Little] demo_refused unfolding rename_refused_def by simp

text \<open>
  C37: what the threshold means, for every name Linux allows: a name of at most 18 bytes is never
  blocked, however random; a name of 19 bytes or more in which no byte repeats and that has no
  whitelisted extension always is, when one of the two directories is protected, while the
  module is active and its scratch memory is at hand.
\<close>

theorem blocked_lengths:
  assumes "valid_name (rc_d_name rc)"
  shows "if length (rc_d_name rc) \<le> 18 then rename_hook en rc = allow
    else rename_hook en rc \<noteq> allow \<or> \<not> distinct (rc_d_name rc) \<or> benign_extension (rc_d_name rc) \<or>
      \<not> is_module_active en (rc_state rc) \<or> \<not> rc_scratch rc \<or>
      \<not> (directory_protected (rc_old_protected rc) \<or> directory_protected (rc_new_protected rc))"
proof (cases "length (rc_d_name rc) \<le> 18")
  case True
  have "compute_entropy_mirror (rc_d_name rc) \<le> 4276"
    using mirror_le_log [OF assms] short_table [OF True] by (rule order_trans)
  then have "\<not> rename_refused en rc"
    by (simp add: rename_refused_def word_le_nat_alt word_less_nat_alt)
  with True show ?thesis using hook_denies [OF assms, of en] by simp
next
  case False
  then have "4300 < scaled_log2 ! length (rc_d_name rc)"
    using assms by (intro long_table) (simp_all add: valid_name_def)
  with False show ?thesis
    using hook_denies [OF assms, of en] mirror_distinct [OF assms] by (auto simp: rename_refused_def)
qed

theorem blocked_lengths_witness:
  "rename_hook Little (demo_call (kernel_string (str ''a8f93j2x.locked''))) = allow"
proof -
  have "valid_name (rc_d_name (demo_call (kernel_string (str ''a8f93j2x.locked''))))"
    by (simp add: valid_name_def demo_call_def kernel_string_def str_def)
  from blocked_lengths [OF this, of Little] show ?thesis
    by (simp add: demo_call_def)
qed

text \<open>
  A benign extension appended to a name switches the heuristic off: whatever precedes a
  final .log, .git, .tmp or .swp, the rename is allowed.
\<close>

theorem appended_extension_bypasses:
  assumes "rc_d_name rc = stem @ 46 # ext" and "ext \<in> set whitelisted_extensions"
    and "stem \<noteq> []" and "0 \<notin> set stem" and "length stem \<le> 251"
  shows "rename_hook en rc = allow"
proof -
  have ext: "length ext = 3" "0 \<notin> set ext" "46 \<notin> set ext"
    using assms(2) by (auto simp: whitelisted_extensions_def)
  then have "valid_name (rc_d_name rc)" using assms by (simp add: valid_name_def)
  moreover have "benign_extension (rc_d_name rc)"
    unfolding benign_extension_def using assms ext by (intro exI [of _ stem] exI [of _ ext]) simp
  ultimately show ?thesis using hook_denies by (simp add: rename_refused_def)
qed

theorem appended_extension_bypasses_witness:
  "rename_hook Little (demo_call (demo_name @ 46 # [108, 111, 103])) = allow"
  by (rule appended_extension_bypasses [where stem = demo_name and ext = "[108, 111, 103]"])
    (simp_all add: demo_call_def demo_name_def whitelisted_extensions_def upt_rec)

text \<open>
  C23: the record of a blocked rename is read back by the daemon: whatever the memory of the
  ring buffer held before, the parser finds the caller, its parent and the path the new name
  has in its directory, as the daemon shows text: the lossy decoding of the bytes, with a
  question mark, and a warning, for every character that is not printable ASCII. The directory is
  the new one when its path could be resolved, and otherwise whatever an earlier record
  left there.
\<close>

theorem blocked_rename_reported:
  assumes "rename_sound rc" and "valid_name (rc_d_name rc)"
    and "bytes \<in> set (hr_events (rename_hook en rc))"
  shows "rename_try_from_bytes en bytes =
    (let dir = (case rc_dir_path rc of
                  None \<Rightarrow> c_string (take 4096 (drop 8 (the (rc_reserved rc))))
                | Some p \<Rightarrow> take 4095 (c_string p))
     in (noise dir @ noise (rc_d_name rc),
         Inr \<lparr>rename_pid = rc_pid rc, rename_ppid = rc_ppid rc,
              rename_full_path = trim_end_by is_slash (shown dir) @ str ''/'' @ shown (rc_d_name rc)\<rparr>))"
proof -
  have "rename_name_bytes rc = rc_d_name rc"
    using assms(2) by (simp add: rename_name_bytes_def c_string_valid) (simp add: valid_name_def)
  then show ?thesis
    using rename_path_hook.record_parsed [OF assms(1,3)]
    by (simp add: rename_entropy_spec_def rename_reported_def rename_dir_bytes_def Let_def)
qed

theorem blocked_rename_reported_witness:
  "\<exists>bytes. hr_events (rename_hook Little (demo_call demo_name)) = [bytes] \<and>
     rename_try_from_bytes Little bytes =
       ([], Inr \<lparr>rename_pid = 50, rename_ppid = 40, rename_full_path = str ''/home/user/abcdefghijklmnopqrst''\<rparr>)"
proof -
  obtain bytes where bytes: "hr_events (rename_hook Little (demo_call demo_name)) = [bytes]"
    by (rule demo_record)
  then have member: "bytes \<in> set (hr_events (rename_hook Little (demo_call demo_name)))" by simp
  have pr: "\<forall>c \<in> set (str ''/home/user''). printable c" "\<forall>c \<in> set (str ''abcdefghijklmnopqrst''). printable c"
    by (simp_all add: printable_def str_def)
  have "length (kernel_string (str ''/home/user'')) = 10" by (simp add: str_def)
  then have dir: "take 4095 (c_string (kernel_string (str ''/home/user''))) = kernel_string (str ''/home/user'')"
    using kernel_string_nonzero [OF pr(1)] by simp
  have path: "trim_end_by is_slash (str ''/home/user'') @ str ''/'' @ str ''abcdefghijklmnopqrst'' =
      str ''/home/user/abcdefghijklmnopqrst''"
    by (simp add: trim_end_by_def is_slash_def str_def)
  from blocked_rename_reported [OF demo_sound demo_valid member] bytes path show ?thesis
    by (simp add: demo_call_def demo_name_alt Let_def dir shown_kernel_string noise_kernel_string pr)
qed

end
