(* ===== verification/BB_Enforcement.thy ===== *)
theory BB_Enforcement
  imports BB_Spec BB_Kernel_Exec BB_Kernel_Shield BB_Kernel_Ptrace BB_Kernel_Wx BB_Kernel_Userns
    BB_Kernel_Mount BB_Kernel_Dump BB_Kernel_Madvise BB_Kernel_Io BB_Kernel_Rename
begin

text \<open>
  The commands of the operator against the hooks of the kernel programs. Every hook that
  reports is gathered in one type; the theorems say what an answered \<open>enable\<close> or \<open>disable\<close>
  means for each of them, and that the numbers by which the kernel programs name a violation
  are the ones the modules of the daemon print.
\<close>

section \<open>All reporting hooks\<close>

datatype hook_call =
    Exec_bprm exec_call
  | Shield_open open_call
  | Shield_bpf privilege_call
  | Shield_syslog privilege_call
  | Ptrace_access access_call
  | Ptrace_traceme traceme_call
  | Ptrace_mem mem_open
  | Wx_mprotect wx_call u64 u64 "inode option"
  | Wx_mmap wx_call u64 "inode option"
  | Userns_create userns_call
  | Userns_capable capable_call
  | Userns_mount ns_mount_call
  | Mount_sb mount_call u64
  | Mount_move mount_call from_mount
  | Dump_open dump_call
  | Dump_prctl dump_call int u64
  | Dump_bprm handler_exec token_queue
  | Madvise_enter madvise_call "u32 \<Rightarrow> trackers \<Rightarrow> trackers" trackers
  | Io_uring io_call kmap "inode option option"
  | Io_vmsplice io_call
  | Io_splice nat io_call u32 u32 u32 taint_map
  | Io_write io_call u32 taint_map
  | Rename_path rename_call

fun run_hook :: "endian \<Rightarrow> hook_call \<Rightarrow> hook_result" where
  "run_hook en (Exec_bprm c) = exec_block_bprm_check en c"
| "run_hook en (Shield_open c) = shield_file_open en c"
| "run_hook en (Shield_bpf c) = shield_bpf en c"
| "run_hook en (Shield_syslog c) = shield_syslog en c"
| "run_hook en (Ptrace_access c) = ptrace_block_access_check en c"
| "run_hook en (Ptrace_traceme c) = ptrace_block_traceme en c"
| "run_hook en (Ptrace_mem c) = ptrace_block_file_open en c"
| "run_hook en (Wx_mprotect c prot flags f) = strict_wx_file_mprotect en c prot flags f"
| "run_hook en (Wx_mmap c prot f) = strict_wx_mmap_file en c prot f"
| "run_hook en (Userns_create c) = userns_restrict_create en c"
| "run_hook en (Userns_capable c) = userns_restrict_capable en c"
| "run_hook en (Userns_mount c) = userns_restrict_sb_mount en c"
| "run_hook en (Mount_sb c flags) = mount_secure_sb_mount en c flags"
| "run_hook en (Mount_move c fm) = mount_secure_move_mount en c fm"
| "run_hook en (Dump_open c) = dump_restrict_file_open en c"
| "run_hook en (Dump_prctl c opt arg2) = dump_restrict_task_prctl en c opt arg2"
| "run_hook en (Dump_bprm c q) = fst (dump_restrict_bprm_check en c q)"
| "run_hook en (Madvise_enter c evict m) = fst (madvise_ratelimit_sys_enter en evict c m)"
| "run_hook en (Io_uring c binaries exe) = io_restrict_uring_setup en c binaries exe"
| "run_hook en (Io_vmsplice c) = io_restrict_vmsplice en c"
| "run_hook en (Io_splice cap c fd_in fd_out flags m) = fst (io_restrict_splice en cap c fd_in fd_out flags m)"
| "run_hook en (Io_write c fd m) = io_restrict_write en c fd m"
| "run_hook en (Rename_path c) = rename_hook en c"

text \<open>The state map the hook consults, which is the one of its own kernel object.\<close>

fun hook_state :: "hook_call \<Rightarrow> kmap" where
  "hook_state (Exec_bprm c) = xc_state c"
| "hook_state (Shield_open c) = oc_state c"
| "hook_state (Shield_bpf c) = pc_state c"
| "hook_state (Shield_syslog c) = pc_state c"
| "hook_state (Ptrace_access c) = ac_state c"
| "hook_state (Ptrace_traceme c) = tm_state c"
| "hook_state (Ptrace_mem c) = mo_state c"
| "hook_state (Wx_mprotect c _ _ _) = wc_state c"
| "hook_state (Wx_mmap c _ _) = wc_state c"
| "hook_state (Userns_create c) = uc_state c"
| "hook_state (Userns_capable c) = cc_state c"
| "hook_state (Userns_mount c) = nm_state c"
| "hook_state (Mount_sb c _) = mc_state c"
| "hook_state (Mount_move c _) = mc_state c"
| "hook_state (Dump_open c) = dc_state c"
| "hook_state (Dump_prctl c _ _) = dc_state c"
| "hook_state (Dump_bprm c _) = he_state c"
| "hook_state (Madvise_enter c _ _) = ma_state c"
| "hook_state (Io_uring c _ _) = ic_state c"
| "hook_state (Io_vmsplice c) = ic_state c"
| "hook_state (Io_splice _ c _ _ _ _) = ic_state c"
| "hook_state (Io_write c _ _) = ic_state c"
| "hook_state (Rename_path c) = rc_state c"

lemma inactive_hook:
  assumes "\<not> is_module_active en (hook_state call)"
  shows "run_hook en call = allow"
proof (cases call)
  case (Mount_move c fm)
  with assms show ?thesis using move_mount_hook.inactive [of en "(c, fm)"] by simp
next
  case (Io_splice cap c fd_in fd_out flags m)
  with assms show ?thesis using splice_hook.inactive [of en "(c, fd_in, fd_out, flags, m)" cap] by simp
next
  case (Wx_mprotect c prot flags f)
  with assms show ?thesis using wx_mprotect_hook.inactive [of en "(c, prot, flags, f)"] by simp
next
  case (Wx_mmap c prot f)
  with assms show ?thesis using wx_mmap_hook.inactive [of en "(c, prot, f)"] by simp
next
  case (Mount_sb c flags)
  with assms show ?thesis using sb_mount_hook.inactive [of en "(c, flags)"] by simp
next
  case (Dump_prctl c opt arg2)
  with assms show ?thesis using dump_prctl_hook.inactive [of en "(c, opt, arg2)"] by simp
next
  case (Dump_bprm c q)
  with assms show ?thesis using dump_spawn_hook.inactive [of en "(c, q)"] by simp
next
  case (Madvise_enter c evict m)
  with assms show ?thesis using madvise_hook.inactive [of en "(c, m)" evict] by simp
next
  case (Io_uring c binaries exe)
  with assms show ?thesis using uring_hook.inactive [of en "(c, binaries, exe)"] by simp
next
  case (Io_write c fd m)
  with assms show ?thesis using write_hook.inactive [of en "(c, fd, m)"] by simp
qed (use assms in \<open>simp_all add: exec_hook.inactive shield_open_hook.inactive shield_bpf_hook.inactive
    shield_syslog_hook.inactive ptrace_access_hook.inactive ptrace_traceme_hook.inactive
    ptrace_mem_hook.inactive userns_create_hook.inactive userns_capable_hook.inactive
    userns_mount_hook.inactive dump_open_hook.inactive vmsplice_hook.inactive rename_path_hook.inactive\<close>)

section \<open>The names of violations\<close>

text \<open>
  What a hook refuses, by the name the daemon has for it; \<open>None\<close> for the hooks whose records
  carry no such number, and for those of the I/O module, whose parser reads another field in
  its place.
\<close>

fun violation :: "endian \<Rightarrow> hook_call \<Rightarrow> rstr option" where
  "violation en (Shield_open c) = Some (str ''FILE_TAMPER'')"
| "violation en (Shield_bpf c) = Some (str ''BPF_TAMPER'')"
| "violation en (Shield_syslog c) = Some (str ''SYSLOG_LEAK'')"
| "violation en (Ptrace_access c) =
     Some (if executes_protected en (ac_processes c) (ac_child c) then str ''CREDENTIAL_DUMP''
           else str ''PROCESS_INJECTION'')"
| "violation en (Ptrace_traceme c) = Some (str ''PROCESS_INJECTION'')"
| "violation en (Ptrace_mem c) = Some (str ''PROC_MEM_TAMPER'')"
| "violation en (Userns_create c) = Some (str ''USER_NAMESPACE_CREATION'')"
| "violation en (Userns_capable c) = Some (str ''CAP_SYS_ADMIN_ACQUISITION'')"
| "violation en (Userns_mount c) = Some (str ''PHYSICAL_DEVICE_MOUNT'')"
| "violation en (Dump_open c) = Some (str ''COREDUMP_GENERATION'')"
| "violation en (Dump_prctl c opt arg2) = Some (str ''PRCTL_DUMPABLE_TAMPER'')"
| "violation en (Dump_bprm c q) = Some (str ''PIPED_COREDUMP_HANDLER'')"
| "violation en (Madvise_enter c evict m) = Some (str ''MADVISE_RACE_CONDITION'')"
| "violation en call = None"

text \<open>The name the module prints for a record.\<close>

definition parsed :: "'a io \<Rightarrow> ('a \<Rightarrow> u32) \<Rightarrow> (u32 \<Rightarrow> rstr) \<Rightarrow> rstr option" where
  "parsed result action_of name_of =
     (case snd result of Inr a \<Rightarrow> Some (name_of (action_of a)) | Inl _ \<Rightarrow> None)"

lemma parsed_simps [simp]: "parsed (w, Inr a) f g = Some (g (f a))"
  by (simp add: parsed_def)

fun printed_name :: "endian \<Rightarrow> hook_call \<Rightarrow> u8 list \<Rightarrow> rstr option" where
  "printed_name en (Shield_open c) d = parsed (shield_try_from_bytes en d) shield_action_type shield_action_str"
| "printed_name en (Shield_bpf c) d = parsed (shield_try_from_bytes en d) shield_action_type shield_action_str"
| "printed_name en (Shield_syslog c) d = parsed (shield_try_from_bytes en d) shield_action_type shield_action_str"
| "printed_name en (Ptrace_access c) d = parsed (ptrace_try_from_bytes en d) ptrace_action_type ptrace_action_str"
| "printed_name en (Ptrace_traceme c) d = parsed (ptrace_try_from_bytes en d) ptrace_action_type ptrace_action_str"
| "printed_name en (Ptrace_mem c) d = parsed (ptrace_try_from_bytes en d) ptrace_action_type ptrace_action_str"
| "printed_name en (Userns_create c) d = parsed (userns_try_from_bytes en d) userns_action_type userns_action_str"
| "printed_name en (Userns_capable c) d = parsed (userns_try_from_bytes en d) userns_action_type userns_action_str"
| "printed_name en (Userns_mount c) d = parsed (userns_try_from_bytes en d) userns_action_type userns_action_str"
| "printed_name en (Dump_open c) d = parsed (dump_try_from_bytes en d) dump_action_type dump_action_str"
| "printed_name en (Dump_prctl c opt arg2) d = parsed (dump_try_from_bytes en d) dump_action_type dump_action_str"
| "printed_name en (Dump_bprm c q) d = parsed (dump_try_from_bytes en d) dump_action_type dump_action_str"
| "printed_name en (Madvise_enter c evict m) d =
     parsed (madvise_try_from_bytes en d) madvise_action_type madvise_action_str"
| "printed_name en call d = None"

text \<open>
  What is documented of the calls: the helper that copies a process's name fills its 16 bytes,
  whatever they are, and a crash token is one the observer pushed.
\<close>

fun hook_sound :: "endian \<Rightarrow> hook_call \<Rightarrow> bool" where
  "hook_sound en (Dump_open c) = comm_sized (t_comm (dc_task c))"
| "hook_sound en (Dump_prctl c opt arg2) = comm_sized (t_comm (dc_task c))"
| "hook_sound en (Dump_bprm c q) =
     (\<forall>token \<in> set q. \<exists>t. comm_sized (t_comm t) \<and> t_tgid t \<noteq> 0 \<and> token = dump_record en t 3)"
| "hook_sound en (Madvise_enter c evict m) = comm_sized (t_comm (ma_task c))"
| "hook_sound en call = True"

lemmas violation_defs = shield_action_str_def ptrace_action_str_def userns_action_str_def
  dump_action_str_def madvise_action_str_def

lemmas reported_defs = open_reported_def privilege_reported_def access_reported_def trace_alert_def
  ns_alert_def dump_reported_def madvise_meaning_def madvise_struct_of_def

lemma printed_violation:
  assumes "hook_sound en call" and "d \<in> set (hr_events (run_hook en call))"
  shows "printed_name en call d = violation en call"
proof (cases call)
  case (Shield_open c)
  with assms shield_open_hook.reads_back [where c = c and d = d and en = en] show ?thesis
    by (simp add: shield_layout.parse_full reported_defs violation_defs)
next
  case (Shield_bpf c)
  with assms shield_bpf_hook.reads_back [where c = c and d = d and en = en] show ?thesis
    by (simp add: shield_layout.parse_full reported_defs violation_defs)
next
  case (Shield_syslog c)
  with assms shield_syslog_hook.reads_back [where c = c and d = d and en = en] show ?thesis
    by (simp add: shield_layout.parse_full reported_defs violation_defs)
next
  case (Ptrace_access c)
  with assms ptrace_access_hook.reads_back [where c = c and d = d and en = en] show ?thesis
    by (simp add: ptrace_layout.parse_full reported_defs violation_defs)
next
  case (Ptrace_traceme c)
  with assms ptrace_traceme_hook.reads_back [where c = c and d = d and en = en] show ?thesis
    by (simp add: ptrace_layout.parse_full reported_defs violation_defs)
next
  case (Ptrace_mem c)
  with assms ptrace_mem_hook.reads_back [where c = c and d = d and en = en] show ?thesis
    by (simp add: ptrace_layout.parse_full reported_defs violation_defs)
next
  case (Userns_create c)
  with assms userns_create_hook.reads_back [where c = c and d = d and en = en] show ?thesis
    by (simp add: userns_layout.parse_full reported_defs violation_defs)
next
  case (Userns_capable c)
  with assms userns_capable_hook.reads_back [where c = c and d = d and en = en] show ?thesis
    by (simp add: userns_layout.parse_full reported_defs violation_defs)
next
  case (Userns_mount c)
  with assms userns_mount_hook.reads_back [where c = c and d = d and en = en] show ?thesis
    by (simp add: userns_layout.parse_full reported_defs violation_defs)
next
  case (Dump_open c)
  with assms dump_open_hook.reads_back [where c = c and d = d and en = en] show ?thesis
    by (simp add: dump_layout.parse_full reported_defs violation_defs)
next
  case (Dump_prctl c opt arg2)
  with assms dump_prctl_hook.reads_back [where c = "(c, opt, arg2)" and d = d and en = en] show ?thesis
    by (simp add: dump_layout.parse_full reported_defs violation_defs)
next
  case (Dump_bprm c q)
  with assms(1) have tokens: "\<forall>token \<in> set q. token_ok en token"
    using record_token_ok by fastforce
  from Dump_bprm assms(2) have "q \<noteq> []" "d = hd q"
    by (auto simp: bprm_eq [OF tokens] submit_member split: if_splits)
  with assms(1) Dump_bprm obtain t where "comm_sized (t_comm t)" "d = dump_record en t 3"
    by (metis hook_sound.simps(3) hd_in_set)
  then show ?thesis
    by (simp add: Dump_bprm dump_record_parsed reported_defs violation_defs)
next
  case (Madvise_enter c evict m)
  with assms madvise_hook.reads_back [where c = "(c, m)" and d = d and en = en and evict = evict] show ?thesis
    by (simp add: madvise_layout.parse_full reported_defs violation_defs)
qed simp_all

section \<open>Properties\<close>

text \<open>
  C7: when the operator is told that a module was enabled or disabled, each of its hooks
  already acts on it: the flag they read is the one asked for, and after a disable every
  call passes and nothing is reported.
\<close>

theorem answered_toggle_governs_hooks:
  assumes "bpf_api_ok api" and "toggle_module en api ld target b d = (e, resp, d')"
    and "take 7 resp = str ''SUCCESS''"
    and "get_skeleton (d_engine d') target = Some skel" and "map_of (sk_maps skel) state_map_name = Some m"
    and "hook_state call = kmap_of api m"
  shows "is_module_active en (hook_state call) = b \<and> (b \<or> run_hook en call = allow)"
proof -
  have "take 6 resp \<noteq> str ''ERROR:''"
  proof
    assume err: "take 6 resp = str ''ERROR:''"
    have "take 6 (take 7 resp) = take 6 (str ''SUCCESS'')" by (simp add: assms(3))
    with err show False by (simp add: str_def)
  qed
  then obtain skel0 e' reg' where set: "set_module_state en api ld skel0 target b = Inr skel"
    using assms(2,4)
    by (cases rule: toggle_module_cases [of d target en api ld b])
      (auto simp: get_skeleton_def update_conv')
  obtain m0 where "map_update api (state_key en) (state_val en b) m0 = Inr m"
    using set assms(5)
    by (auto simp: set_module_state_def update_conv' split: if_splits option.splits sum.splits)
  then have "map_lookup api (state_key en) m = Some (state_val en b)"
    using assms(1) by (simp add: bpf_api_ok_def)
  then have active: "is_module_active en (hook_state call) = b"
    by (simp add: assms(6) is_module_active_state_val)
  then show ?thesis using inactive_hook by blast
qed

text \<open>The program that is refused while the module is on, after a \<open>disable\<close>.\<close>

theorem answered_toggle_governs_hooks_witness:
  "\<exists>m. toggle_module Little (hash_map 1) demo_loader (str ''exec_block'') False demo_daemon =
       (fst (toggle_module Little (hash_map 1) demo_loader (str ''exec_block'') False demo_daemon),
        str ''SUCCESS: Defense module '' @ quoted (str ''exec_block'') @ str '' '' @ str ''DISABLED''
          @ str '' via state synchronization'' @ newline,
        \<lparr>d_engine = [(str ''exec_block'', \<lparr>sk_module = str ''exec_block'', sk_maps = [(state_map_name, m)]\<rparr>)],
         d_registry = snd (toggle_module_in (str ''exec_block'') False build_registry)\<rparr>) \<and>
     run_hook Little (Exec_bprm (demo_program 2 (\<lambda>_. Some [1])\<lparr>xc_state := kmap_of (hash_map 1) m\<rparr>)) = allow"
proof -
  let ?m = "[(state_key Little, state_val Little False)] :: (u8 list \<times> u8 list) list"
  let ?skel = "\<lparr>sk_module = str ''exec_block'', sk_maps = [(state_map_name, ?m)]\<rparr>"
  let ?run = "toggle_module Little (hash_map 1) demo_loader (str ''exec_block'') False demo_daemon"
  let ?call = "Exec_bprm (demo_program 2 (\<lambda>_. Some [1])\<lparr>xc_state := kmap_of (hash_map 1) ?m\<rparr>)"
  have ok: "bpf_api_ok (hash_map 1)" by (rule bpf_hash_api [OF hash_map_ok])
  have run: "?run = (fst ?run,
        str ''SUCCESS: Defense module '' @ quoted (str ''exec_block'') @ str '' '' @ str ''DISABLED''
          @ str '' via state synchronization'' @ newline,
        \<lparr>d_engine = [(str ''exec_block'', ?skel)],
         d_registry = snd (toggle_module_in (str ''exec_block'') False build_registry)\<rparr>)"
    by (simp add: toggle_module_def get_skeleton_def set_module_state_def demo_daemon_def demo_loader_def
        hash_map_def Let_def case_prod_beta)
  have "is_module_active Little (hook_state ?call) = False \<and> (False \<or> run_hook Little ?call = allow)"
    by (rule answered_toggle_governs_hooks [OF ok run, of ?skel ?m])
      (simp_all add: get_skeleton_def, simp_all add: str_def)
  with run show ?thesis by (intro exI [of _ ?m]) blast
qed

text \<open>
  C24: the kernel programs and the daemon agree on the numbers of the violations: the record of
  a refused call is printed by the name of what the hook refuses, never as unknown, whatever
  bytes its texts hold. (The records of the I/O module are the exception; its parser reads
  another field. A process's name fills its 16 bytes, and the tokens in the queue are those of
  processes with a pid.)
\<close>

theorem violations_named:
  assumes "hook_sound en call" and "d \<in> set (hr_events (run_hook en call))"
  shows "printed_name en call d = violation en call"
  by (rule printed_violation [OF assms])

theorem violations_named_witness:
  "\<exists>d. hr_events (run_hook Little (Dump_open (demo_crash 7 1000\<lparr>dc_reserved := Some []\<rparr>))) = [d] \<and>
     printed_name Little (Dump_open (demo_crash 7 1000\<lparr>dc_reserved := Some []\<rparr>)) d =
       Some (str ''COREDUMP_GENERATION'')"
proof -
  let ?call = "Dump_open (demo_crash 7 1000\<lparr>dc_reserved := Some []\<rparr>)"
  obtain d where d: "hr_events (run_hook Little ?call) = [d]"
    by (simp add: demo_crash_def dump_restrict_file_open_def is_module_active_def get_global_uid_def
        dispatch_dump_alert_def)
  have "hook_sound Little ?call" by (simp add: demo_crash_def demo_comm)
  from violations_named [OF this, of d] d show ?thesis by simp
qed

end
