(* ===== verification/BB_Correlation.thy ===== *)
theory BB_Correlation
  imports BB_Spec BB_Kernel_Rename
begin

text \<open>
  The correlation of rename alerts across the whole daemon. The ring buffer mixes the records
  of all modules, the flags change with the commands of the operator, every module writes to
  the log; of all this only the rename alerts of an active module reach the strike tracker,
  and only its handler kills. The locale \<open>quiet_module\<close> is what the correlation relies on
  about the others, and nine modules interpret it. The lemmas reduce what is polled to the
  list of rename alerts in it, and a run of the daemon to the alerts it was given.
\<close>

section \<open>Kills\<close>

definition kills :: "effect list \<Rightarrow> u32 list" where
  "kills es = concat (map (\<lambda>e. case e of Kill w \<Rightarrow> [w] | _ \<Rightarrow> []) es)"

lemma kills_simps [simp]:
  "kills [] = []" "kills (Stdout s # es) = kills es" "kills (Stderr s # es) = kills es"
  "kills (FileLine f s # es) = kills es" "kills (Kill w # es) = w # kills es"
  "kills (xs @ ys) = kills xs @ kills ys"
  by (simp_all add: kills_def)

lemma set_kills [simp]: "w \<in> set (kills es) \<longleftrightarrow> Kill w \<in> set es"
  by (force simp: kills_def split: effect.splits)

lemma kills_stderr: "set es \<subseteq> range Stderr \<Longrightarrow> kills es = []"
  by (induction es) auto

text \<open>Two states of the globals with the same strike tracker.\<close>

definition same_strikes :: "'g tracked_scheme \<Rightarrow> 'g tracked_scheme \<Rightarrow> bool" where
  "same_strikes g h \<longleftrightarrow> g_tracker h = g_tracker g \<and> g_tracker_poisoned h = g_tracker_poisoned g"

lemma same_strikes_refl [simp]: "same_strikes g g"
  by (simp add: same_strikes_def)

lemma same_strikes_trans: "same_strikes f g \<Longrightarrow> same_strikes g h \<Longrightarrow> same_strikes f h"
  by (simp add: same_strikes_def)

section \<open>The log does not interfere\<close>

lemma kills_fallback: "kills (fst (get_fallback_sink s)) = []"
  by (simp add: get_fallback_sink_def split: prod.split option.split)

lemma kills_open: "kills (fst (open_strict_file d s)) = []"
  by (simp add: open_strict_file_def split: prod.split sum.split)

lemma kills_directory: "kills (fst (ensure_secure_directory d s)) = []"
  by (simp add: ensure_secure_directory_def Let_def split: prod.split sum.split if_split)

lemma kills_init_sink: "kills (fst (init_sink s)) = []"
  using kills_directory [of log_dir_path s] kills_fallback kills_open
  unfolding init_sink_def
  by (auto split: prod.split sum.split option.split) (metis append.right_neutral append_Nil fst_conv)+

lemma emit_quiet:
  "kills (fst (emit_siem_event env slug mitre alert g)) = []"
  "same_strikes g (snd (emit_siem_event env slug mitre alert g))"
proof -
  obtain e k g1 where sink: "get_sink g = (e, k, g1)" by (rule prod_cases3)
  have "kills e = [] \<and> same_strikes g g1"
  proof (cases "g_sink g")
    case None
    with sink kills_init_sink [of "g_os g"] show ?thesis
      by (auto simp: get_sink_def same_strikes_def split: prod.splits)
  next
    case (Some k)
    with sink show ?thesis by (simp add: get_sink_def)
  qed
  then show "kills (fst (emit_siem_event env slug mitre alert g)) = []"
    "same_strikes g (snd (emit_siem_event env slug mitre alert g))"
    by (auto simp: emit_siem_event_def sink Let_def split: option.split)
qed

section \<open>The modules that stay out of it\<close>

text \<open>What an event may do, for the correlation: no kill, and the tracker as it was.\<close>

definition quiet_event ::
    "endian \<Rightarrow> (endian \<Rightarrow> event_env \<Rightarrow> u8 list \<Rightarrow> 'g tracked_scheme \<Rightarrow>
       effect list \<times> unit result \<times> 'g tracked_scheme) \<Rightarrow> bool" where
  "quiet_event en f \<longleftrightarrow>
     (\<forall>env d g. kills (fst (f en env d g)) = [] \<and> same_strikes g (snd (snd (f en env d g))))"

locale quiet_module = event_module spec en min_size view warnings
  for spec :: "('a, 'g tracked_scheme, 'm, 'p) module_spec"
    and en :: endian
    and min_size :: nat
    and view :: "u8 list \<Rightarrow> 'a"
    and warnings :: "u8 list \<Rightarrow> effect list" +
  assumes handler_spares: "kills (fst (ms_handler spec env a g)) = []"
    and handler_keeps: "snd (ms_handler spec env a g) = g"
begin

lemma quiet: "quiet_event en (module_event spec)"
  unfolding quiet_event_def
proof (intro allI)
  fix env d g
  show "kills (fst (module_event spec en env d g)) = [] \<and>
    same_strikes g (snd (snd (module_event spec en env d g)))"
  proof (cases "length d < min_size")
    case True
    then show ?thesis by (simp add: event_short parse_failure_def)
  next
    case False
    then show ?thesis
      by (simp add: event_full kills_stderr [OF warnings_only_stderr] emit_quiet handler_spares
          handler_keeps case_prod_beta)
  qed
qed

end

interpretation exec_quiet: quiet_module exec_block_spec en 4100 "exec_view en" exec_warnings for en
  by unfold_locales (simp_all add: exec_block_spec_def exec_handler_def)

interpretation shield_quiet: quiet_module shield_spec en 4104 "shield_view en" shield_warnings for en
  by unfold_locales (simp_all add: shield_spec_def shield_handler_def)

interpretation mount_quiet: quiet_module mount_secure_spec en 836 "mount_view en" mount_warnings for en
  by unfold_locales (simp_all add: mount_secure_spec_def mount_handler_def)

interpretation wx_quiet: quiet_module strict_wx_spec en 20 "wx_view en" wx_warnings for en
  by unfold_locales (simp_all add: strict_wx_spec_def wx_handler_def)

interpretation ptrace_quiet: quiet_module ptrace_block_spec en 28 "ptrace_view en" ptrace_warnings for en
  by unfold_locales (simp_all add: ptrace_block_spec_def ptrace_handler_def)

interpretation dump_quiet: quiet_module dump_restrict_spec en 28 "dump_view en" dump_warnings for en
  by unfold_locales (simp_all add: dump_restrict_spec_def dump_handler_def)

interpretation userns_quiet: quiet_module userns_restrict_spec en 72 "userns_view en" userns_warnings for en
  by unfold_locales (simp_all add: userns_restrict_spec_def userns_handler_def)

interpretation madvise_quiet: quiet_module madvise_ratelimit_spec en 32 "madvise_view en" madvise_warnings for en
  by unfold_locales (simp_all add: madvise_ratelimit_spec_def madvise_handler_def)

interpretation io_quiet: quiet_module io_restrict_spec en 24 "io_view en" io_warnings for en
  by unfold_locales (simp_all add: io_restrict_spec_def io_handler_def)

section \<open>The module that does not\<close>

definition rename_slug :: rstr where
  "rename_slug = str ''rename_entropy''"

text \<open>The handler depends on the strike tracker alone.\<close>

lemma handler_strikes:
  assumes "same_strikes g h"
  shows "fst (rename_handler env a h) = fst (rename_handler env a g)"
    and "same_strikes (snd (rename_handler env a g)) (snd (rename_handler env a h))"
  using assms by (simp_all add: same_strikes_def rename_handler_def lock_tracker_def Let_def split: prod.split)

lemma handle_all_strikes:
  "same_strikes g h \<Longrightarrow>
   fst (handle_all evs h) = fst (handle_all evs g) \<and> same_strikes (snd (handle_all evs g)) (snd (handle_all evs h))"
proof (induction evs arbitrary: g h)
  case (Cons ev evs)
  obtain env a where ev: "ev = (env, a)" by fastforce
  from Cons.IH [OF handler_strikes(2) [OF Cons.prems, of env a]] handler_strikes(1) [OF Cons.prems, of env a]
  show ?case by (simp add: ev case_prod_beta)
qed simp

text \<open>The alert in a payload, if it can be parsed.\<close>

definition rename_alerts :: "endian \<Rightarrow> event_env \<Rightarrow> u8 list \<Rightarrow> (event_env \<times> rename_alert) list" where
  "rename_alerts en env d =
     (case snd (rename_try_from_bytes en d) of Inr a \<Rightarrow> [(env, a)] | Inl _ \<Rightarrow> [])"

lemma rename_event_correlates:
  fixes spec :: "(rename_alert, 'g tracked_scheme, 'm, 'p) module_spec"
  assumes spec: "spec = rename_entropy_spec"
  shows "kills (fst (module_event spec en env d g)) = kills (fst (handle_all (rename_alerts en env d) g))"
  "same_strikes (snd (handle_all (rename_alerts en env d) g))
     (snd (snd (module_event spec en env d g)))"
proof -
  have parser: "ms_parser spec en = rename_try_from_bytes en" "ms_handler spec = rename_handler"
    by (simp_all add: spec rename_entropy_spec_def)
  have module: "event_module spec en 4360 (rename_view en) rename_warnings"
    unfolding spec by (rule rename_events.event_module_axioms)
  note event = event_module.event_short [OF module] event_module.event_full [OF module]
  let ?f = "module_event spec en env d g"
  have "kills (fst ?f) = kills (fst (handle_all (rename_alerts en env d) g)) \<and>
    same_strikes (snd (handle_all (rename_alerts en env d) g)) (snd (snd ?f))"
  proof (cases "length d < 4360")
    case True
    then show ?thesis
      by (simp add: event(1) rename_alerts_def rename_layout.parse_short fail_def
          parse_failure_def)
  next
    case False
    then have d: "4360 \<le> length d" by simp
    define g1 where "g1 = snd (emit_siem_event env (ms_slug spec) (ms_mitre spec)
      (ms_fields spec (rename_view en d)) g)"
    have "same_strikes g g1" unfolding g1_def by (rule emit_quiet)
    note same = handler_strikes [OF this, of env "rename_view en d"]
    have "fst ?f = rename_warnings d @ fst (emit_siem_event env (ms_slug spec) (ms_mitre spec)
        (ms_fields spec (rename_view en d)) g) @ fst (rename_handler env (rename_view en d) g1)"
      and "snd (snd ?f) = snd (rename_handler env (rename_view en d) g1)"
      unfolding event(2) [OF d] by (simp_all add: case_prod_beta parser g1_def)
    with same show ?thesis
      by (simp add: rename_alerts_def rename_layout.parse_full [OF d] emit_quiet case_prod_beta
          kills_stderr [OF rename_layout.warnings_only_stderr])
  qed
  then show "kills (fst ?f) = kills (fst (handle_all (rename_alerts en env d) g))"
    "same_strikes (snd (handle_all (rename_alerts en env d) g)) (snd (snd ?f))" by blast+
qed

section \<open>The pipeline as a correlator\<close>

lemma rename_spec_slug:
  "ms_slug rename_entropy_spec = rename_slug"
  by (simp add: rename_entropy_spec_def rename_slug_def)

lemma other_spec_slugs:
  "ms_slug exec_block_spec \<noteq> rename_slug" "ms_slug shield_spec \<noteq> rename_slug"
  "ms_slug mount_secure_spec \<noteq> rename_slug" "ms_slug strict_wx_spec \<noteq> rename_slug"
  "ms_slug ptrace_block_spec \<noteq> rename_slug" "ms_slug dump_restrict_spec \<noteq> rename_slug"
  "ms_slug userns_restrict_spec \<noteq> rename_slug" "ms_slug madvise_ratelimit_spec \<noteq> rename_slug"
  "ms_slug io_restrict_spec \<noteq> rename_slug"
  by (simp_all add: module_spec_defs rename_slug_def)

lemma new_module_identity:
  "sm_slug (new_module spec) = ms_slug spec" "sm_event (new_module spec) = module_event spec"
  by (simp_all add: new_module_def)

lemmas all_quiet = exec_quiet.quiet shield_quiet.quiet mount_quiet.quiet wx_quiet.quiet ptrace_quiet.quiet
  dump_quiet.quiet userns_quiet.quiet madvise_quiet.quiet io_quiet.quiet

lemma built_events:
  assumes "m \<in> set (build_registry :: ('g tracked_scheme, 'm, 'p) registry)"
  shows "if sm_slug m = rename_slug
    then sm_event m = module_event (rename_entropy_spec :: (rename_alert, 'g tracked_scheme, 'm, 'p) module_spec)
    else quiet_event en (sm_event m)"
  using assms unfolding build_registry_def list.set insert_iff empty_iff
  by (elim disjE) (simp_all only: new_module_identity rename_spec_slug other_spec_slugs all_quiet
      if_True if_False simp_thms HOL.False_implies_equals)

lemma module_events:
  assumes "same_code (build_registry :: ('g tracked_scheme, 'm, 'p) registry) reg"
    and "find_module slug reg = Some m"
  shows "if slug = rename_slug
    then sm_event m = module_event (rename_entropy_spec :: (rename_alert, 'g tracked_scheme, 'm, 'p) module_spec)
    else quiet_event en (sm_event m)"
proof -
  have m: "m \<in> set reg" "sm_slug m = slug" using find_module_member [OF assms(2)] by blast+
  obtain m0 where m0: "m0 \<in> set (build_registry :: ('g tracked_scheme, 'm, 'p) registry)" "flagless m0 = flagless m"
    using same_code_member [OF assms(1) m(1)] by blast
  then have "sm_slug m0 = slug" "sm_event m0 = sm_event m"
    using m(2) by (metis flagless_simps(1)) (metis flagless_event m0(2))
  with built_events [OF m0(1), of en] show ?thesis by (auto split: if_splits)
qed

text \<open>The rename alerts among the records that are polled, while the module is active.\<close>

definition module_enabled :: "rstr \<Rightarrow> ('g, 'm, 'p) registry \<Rightarrow> bool" where
  "module_enabled slug reg \<longleftrightarrow> (case find_module slug reg of Some m \<Rightarrow> status m | None \<Rightarrow> False)"

definition event_alerts :: "endian \<Rightarrow> ring_event \<Rightarrow> (event_env \<times> rename_alert) list" where
  "event_alerts en ev =
     (if ev_slug ev = rename_slug then rename_alerts en (ev_env ev) (ev_data ev) else [])"

definition rename_stream ::
    "('g, 'm, 'p) registry \<Rightarrow> endian \<Rightarrow> ring_event list \<Rightarrow> (event_env \<times> rename_alert) list" where
  "rename_stream reg en evs =
     (if module_enabled rename_slug reg then concat (map (event_alerts en) evs) else [])"

lemma callback_correlates:
  assumes "same_code build_registry reg"
  shows "kills (fst (ring_callback reg (ev_slug ev) en (ev_env ev) (ev_data ev) g)) =
      kills (fst (handle_all (rename_stream reg en [ev]) g))"
    and "same_strikes (snd (handle_all (rename_stream reg en [ev]) g))
      (snd (ring_callback reg (ev_slug ev) en (ev_env ev) (ev_data ev) g))"
proof -
  let ?cb = "ring_callback reg (ev_slug ev) en (ev_env ev) (ev_data ev) g"
  have "kills (fst ?cb) = kills (fst (handle_all (rename_stream reg en [ev]) g)) \<and>
    same_strikes (snd (handle_all (rename_stream reg en [ev]) g)) (snd ?cb)"
  proof (cases "find_module (ev_slug ev) reg")
    case None
    then show ?thesis
      by (auto simp: callback_isolated [OF assms] rename_stream_def event_alerts_def module_enabled_def)
  next
    case (Some m)
    note code = module_events [OF assms Some, of en]
    show ?thesis
    proof (cases "status m")
      case False
      with Some show ?thesis
        by (auto simp: callback_inactive rename_stream_def event_alerts_def module_enabled_def)
    next
      case True
      with Some code rename_event_correlates [OF refl, of en "ev_env ev" "ev_data ev" g] show ?thesis
        by (auto simp: callback_isolated [OF assms] process_event_def rename_stream_def event_alerts_def
            module_enabled_def quiet_event_def)
    qed
  qed
  then show "kills (fst ?cb) = kills (fst (handle_all (rename_stream reg en [ev]) g))"
    "same_strikes (snd (handle_all (rename_stream reg en [ev]) g)) (snd ?cb)" by blast+
qed

lemma rename_stream_Cons: "rename_stream reg en (ev # evs) = rename_stream reg en [ev] @ rename_stream reg en evs"
  by (simp add: rename_stream_def)

lemma handle_all_append_effects:
  "fst (handle_all (xs @ ys) g) = fst (handle_all xs g) @ fst (handle_all ys (snd (handle_all xs g)))"
proof (induction xs arbitrary: g)
  case (Cons x xs)
  obtain env a where x: "x = (env, a)" by fastforce
  show ?case using Cons.IH [of "snd (rename_handler env a g)"] by (simp add: x case_prod_beta)
qed simp

lemma poll_correlates:
  assumes "same_code build_registry reg"
  shows "kills (fst (poll_events reg en evs g)) = kills (fst (handle_all (rename_stream reg en evs) g)) \<and>
    same_strikes (snd (handle_all (rename_stream reg en evs) g)) (snd (poll_events reg en evs g))"
proof (induction evs arbitrary: g)
  case Nil
  then show ?case by (simp add: rename_stream_def)
next
  case (Cons ev evs)
  define h where "h = snd (ring_callback reg (ev_slug ev) en (ev_env ev) (ev_data ev) g)"
  note one = callback_correlates [OF assms, where ev = ev and en = en and g = g, folded h_def]
  note rest = handle_all_strikes [OF one(2), of "rename_stream reg en evs"]
  show ?case
    unfolding rename_stream_Cons [of reg en ev evs] handle_all_append handle_all_append_effects
    using one(1) Cons.IH [of h] rest
    by (auto simp: case_prod_beta h_def [symmetric] intro: same_strikes_trans)
qed

section \<open>Evidence for a kill\<close>

text \<open>
  Three alerts of one parent process, the second and the third at most two seconds after the
  first, and a process the handler of the third may kill.
\<close>

definition evidence :: "(event_env \<times> rename_alert) list \<Rightarrow> u32 \<Rightarrow> bool" where
  "evidence evs w \<longleftrightarrow>
     (\<exists>i j k p t u v. i < j \<and> j < k \<and> struck evs i p t \<and> struck evs j p u \<and> struck evs k p v \<and>
        u - t \<le> nanos 2 \<and> v - t \<le> nanos 2 \<and> w \<in> tree_kills (fst (evs ! k)) p)"

lemma struck_append: "struck evs i p t \<Longrightarrow> struck (evs @ xs) i p t"
  by (auto simp: struck_def nth_append)

lemma evidence_append: "evidence evs w \<Longrightarrow> evidence (evs @ xs) w"
proof -
  assume "evidence evs w"
  then obtain i j k p t u v where e: "i < j" "j < k" "struck evs i p t" "struck evs j p u" "struck evs k p v"
    "u - t \<le> nanos 2" "v - t \<le> nanos 2" "w \<in> tree_kills (fst (evs ! k)) p"
    unfolding evidence_def by blast
  moreover have "(evs @ xs) ! k = evs ! k" using struck_bound [OF e(5)] by (simp add: nth_append)
  ultimately show "evidence (evs @ xs) w" unfolding evidence_def using struck_append by metis
qed

lemma remembers_append: "remembers evs t \<Longrightarrow> remembers (evs @ xs) t"
  unfolding remembers_def by (meson struck_append)

text \<open>A tracker whose entries the alerts so far account for.\<close>

definition accounted :: "(event_env \<times> rename_alert) list \<Rightarrow> 'g tracked_scheme \<Rightarrow> bool" where
  "accounted evs g \<longleftrightarrow> tracker_inv (g_tracker g) \<and> remembers evs (g_tracker g)"

lemma accounted_start: "g_tracker g = (\<lambda>_. None) \<Longrightarrow> accounted [] g"
  by (simp add: accounted_def remembers_def)

lemma accounted_append: "accounted evs g \<Longrightarrow> accounted (evs @ xs) g"
  by (simp add: accounted_def remembers_append)

lemma accounted_same: "same_strikes g h \<Longrightarrow> accounted evs g \<Longrightarrow> accounted evs h"
  by (simp add: accounted_def same_strikes_def)

lemma accounted_seen:
  assumes "accounted evs g"
  shows "tracker_inv (strikes_seen env g)" and "remembers evs (strikes_seen env g)"
  using assms by (auto simp: accounted_def strikes_seen_def lock_tracker_inv prune_strikes_inv
      intro!: remembers_prune) (simp add: lock_tracker_def remembers_def)

lemma handler_accounted:
  assumes "accounted evs g"
  shows "accounted (evs @ [(env, a)]) (snd (rename_handler env a g))"
  using assms remembers_register [OF accounted_seen [OF assms]] rename_handler_inv
  by (auto simp: accounted_def rename_handler_state)

lemma handler_evidence:
  assumes "accounted evs g" and "Kill w \<in> set (fst (rename_handler env a g))"
  shows "evidence (evs @ [(env, a)]) w"
proof -
  from assms(2) have reached: "reaches env a g" and w: "w \<in> tree_kills env (rename_ppid a)"
    by (simp_all add: rename_handler_kills)
  note seen = accounted_seen [OF assms(1), of env]
  obtain s where s: "strikes_seen env g (rename_ppid a) = Some s"
    "instant_now env - first_strike s \<le> nanos 2" "st_count s = 2"
    using reached unfolding reaches_def
    by (cases rule: register_strike_cases [OF seen(1), of "rename_ppid a" "instant_now env"]) auto
  with seen(2) obtain i j u where "struck evs i (rename_ppid a) (first_strike s)"
    "i < j" "struck evs j (rename_ppid a) u" "u - first_strike s \<le> nanos 2"
    unfolding remembers_def by blast
  moreover from this(3) have "j < length evs" by (rule struck_bound)
  ultimately show ?thesis
    unfolding evidence_def using s(2) w struck_last [of evs env a]
    by (metis fst_conv nth_append_length struck_snoc)
qed

lemma handle_all_accounted:
  "accounted evs g \<Longrightarrow>
   accounted (evs @ xs) (snd (handle_all xs g)) \<and> (\<forall>w. Kill w \<in> set (fst (handle_all xs g)) \<longrightarrow> evidence (evs @ xs) w)"
proof (induction xs arbitrary: evs g)
  case (Cons x xs)
  obtain env a where x: "x = (env, a)" by fastforce
  have "accounted (evs @ [x]) (snd (rename_handler env a g))"
    using handler_accounted [OF Cons.prems] by (simp add: x)
  note rest = Cons.IH [OF this]
  have "evidence (evs @ x # xs) w" if "Kill w \<in> set (fst (rename_handler env a g))" for w
    using evidence_append [OF handler_evidence [OF Cons.prems that], of xs] by (simp add: x)
  with rest show ?case by (auto simp: x case_prod_beta)
qed simp

section \<open>Runs of the daemon\<close>

text \<open>The rename alerts that the iterations of a run were given, whether the module was active or not.\<close>

definition bound_events :: "ring_state \<Rightarrow> ring_event list" where
  "bound_events rs =
     (case rs_bound rs of None \<Rightarrow> [] | Some slugs \<Rightarrow> filter (\<lambda>ev. ev_slug ev \<in> set slugs) (rs_events rs))"

definition polled :: "endian \<Rightarrow> action list \<Rightarrow> (event_env \<times> rename_alert) list" where
  "polled en as =
     concat (map (\<lambda>a. case a of Tick rs \<Rightarrow> concat (map (event_alerts en) (bound_events rs)) | _ \<Rightarrow> []) as)"

lemma poll_ring_accounted:
  assumes "same_code build_registry reg" and "accounted evs g"
    and "poll_ring (rs_bound rs) reg en (rs_events rs) (rs_error rs) g = (e, g')"
  shows "accounted (evs @ concat (map (event_alerts en) (bound_events rs))) g' \<and>
    (\<forall>w. Kill w \<in> set e \<longrightarrow> evidence (evs @ concat (map (event_alerts en) (bound_events rs))) w)"
proof (cases "rs_bound rs")
  case None
  with assms(2,3) show ?thesis by (simp add: poll_ring_def bound_events_def)
next
  case (Some slugs)
  let ?evs = "bound_events rs"
  let ?poll = "poll_events reg en ?evs g" and ?all = "handle_all (rename_stream reg en ?evs) g"
  have kills: "kills e = kills (fst ?poll)" and g': "g' = snd ?poll"
    using assms(3) Some by (auto simp: poll_ring_def bound_events_def split: prod.splits option.splits)
  note sim = poll_correlates [OF assms(1), of en ?evs g]
  have kill: "Kill w \<in> set e \<longleftrightarrow> Kill w \<in> set (fst ?all)" for w
    using kills sim by (metis set_kills)
  note all = handle_all_accounted [OF assms(2), of "rename_stream reg en ?evs"]
  have acc: "accounted (evs @ rename_stream reg en ?evs) g'"
    using accounted_same sim all unfolding g' by blast
  have ev: "Kill w \<in> set e \<Longrightarrow> evidence (evs @ rename_stream reg en ?evs) w" for w
    using all kill by blast
  show ?thesis
  proof (cases "module_enabled rename_slug reg")
    case True
    with acc ev show ?thesis by (simp add: rename_stream_def)
  next
    case False
    with acc ev show ?thesis
      by (simp add: rename_stream_def accounted_append evidence_append)
  qed
qed

lemma toggle_spares: "kills (fst (toggle_module_in target b reg)) = []"
  by (induction reg) (auto simp: toggle_def toggle_line_def split: prod.split)

lemma command_spares: "kills (fst (handle_command en api ld cmd d)) = []"
proof -
  have "kills (fst (toggle_module en api ld target b d)) = []" for target b
    using toggle_spares [of target b "d_registry d"]
    by (cases b) (simp_all add: toggle_module_def Let_def case_prod_beta split: option.split sum.split)
  then show ?thesis by (simp add: handle_command_def split: daemon_cmd.split)
qed

lemma answer_all_spares: "kills (fst (answer_all en api ld msgs d)) = []"
  by (induction msgs arbitrary: d) (simp_all add: command_spares case_prod_beta)

text \<open>One iteration, and a run.\<close>

lemma run_once_accounted:
  assumes "bpf_api_ok api" and "system_inv en api ld s" and "accounted evs (s_globals s)"
    and "run_once en api ld rs s = (e, s')"
  shows "accounted (evs @ polled en [Tick rs]) (s_globals s') \<and>
    (\<forall>w. Kill w \<in> set e \<longrightarrow> evidence (evs @ polled en [Tick rs]) w)"
proof -
  have polled: "polled en [Tick rs] = concat (map (event_alerts en) (bound_events rs))"
    by (simp add: polled_def)
  have code: "same_code build_registry (d_registry (s_daemon s))"
    using assms(2) by (simp add: system_inv_def)
  show ?thesis
  proof (cases "s_queue s")
    case Nil
    note poll = poll_ring_accounted [OF code assms(3), of rs en]
    from Nil assms(3,4) poll show ?thesis
      by (auto simp: run_once_def polled accounted_append split: if_splits prod.splits)
  next
    case (Cons msg pending)
    obtain e1 replies d where ans: "answer_all en api ld (msg # take 10 pending) (s_daemon s) = (e1, replies, d)"
      by (rule prod_cases3)
    obtain e2 g where poll: "poll_ring (rs_bound rs) (d_registry d) en (rs_events rs) (rs_error rs) (s_globals s) = (e2, g)"
      by fastforce
    have "same_code (d_registry (s_daemon s)) (d_registry d)"
      using answer_all_ok [OF assms(1), of en ld "s_daemon s" "msg # take 10 pending"] assms(2)
      by (simp add: system_inv_def ans del: answer_all.simps)
    with code have "same_code build_registry (d_registry d)" by (rule same_code_trans)
    note acc = poll_ring_accounted [OF this assms(3) poll]
    have "kills e1 = []" using answer_all_spares [of en api ld "msg # take 10 pending" "s_daemon s"] by (simp only: ans fst_conv)
    then have "Kill w \<notin> set e1" for w by (metis empty_iff set_empty set_kills)
    moreover have "e = e1 @ e2" "s_globals s' = g"
      using assms(4) Cons ans poll by (auto simp: run_once_def simp del: answer_all.simps)
    ultimately show ?thesis using acc by (auto simp: polled)
  qed
qed

lemma polled_snoc: "polled en (as @ [a]) = polled en as @ polled en [a]"
  by (simp add: polled_def)

lemma step_accounted:
  assumes "bpf_api_ok api" and "system_inv en api ld s" and "accounted evs (s_globals s)"
    and "system_step en api ld s a e s'"
  shows "accounted (evs @ polled en [a]) (s_globals s') \<and>
    (\<forall>w. Kill w \<in> set e \<longrightarrow> evidence (evs @ polled en [a]) w)"
  using assms(4)
proof cases
  case (step_tick rs)
  with run_once_accounted [OF assms(1-3)] show ?thesis by blast
qed (use assms(3) in \<open>simp_all add: polled_def\<close>)

lemma reachable_accounted:
  assumes "bpf_api_ok api" and "system_inv en api ld s0" and "g_tracker (s_globals s0) = (\<lambda>_. None)"
    and "reachable en api ld s0 as s"
  shows "accounted (polled en as) (s_globals s)"
  using assms(4)
proof induction
  case reach_start
  then show ?case using accounted_start [OF assms(3)] by (simp add: polled_def)
next
  case (reach_step as s a e s')
  have "system_inv en api ld s" by (rule reachable_inv [OF assms(1) reach_step.hyps(1) assms(2)])
  with step_accounted [OF assms(1) this reach_step.IH reach_step.hyps(2)] show ?case
    by (simp add: polled_snoc [of en as a])
qed

section \<open>From the kernel to the tree\<close>

text \<open>
  A record in the ring of a rename, by a child of \<open>p\<close>, that the hook refused and whose caller
  it killed.
\<close>

definition carries_refusal :: "endian \<Rightarrow> u32 \<Rightarrow> ring_event \<Rightarrow> bool" where
  "carries_refusal en p ev \<longleftrightarrow> ev_slug ev = rename_slug \<and>
     (\<exists>c. rename_sound c \<and> rc_ppid c = p \<and> ev_data ev \<in> set (hr_events (rename_hook en c)))"

lemma refusal_alert:
  assumes "carries_refusal en p ev"
  obtains a where "rename_ppid a = p" and "event_alerts en ev = [(ev_env ev, a)]"
proof -
  obtain c where slug: "ev_slug ev = rename_slug" and c: "rename_sound c" "rc_ppid c = p"
    and d: "ev_data ev \<in> set (hr_events (rename_hook en c))"
    using assms unfolding carries_refusal_def by blast
  from rename_path_hook.record_parsed [OF c(1) d]
  have "snd (rename_try_from_bytes en (ev_data ev)) = Inr (rename_reported c)"
    by (simp add: rename_entropy_spec_def)
  with slug that [of "rename_reported c"] c(2) show thesis
    by (simp add: event_alerts_def rename_alerts_def rename_reported_def)
qed

lemma refused_renames_kill:
  assumes code: "same_code build_registry reg" and on: "module_enabled rename_slug reg"
    and start: "\<not> g_tracker_poisoned g" "g_tracker g p = None"
    and evs: "carries_refusal en p ev1" "carries_refusal en p ev2" "carries_refusal en p ev3"
    and others: "spared p (instant_now (ev_env ev1)) (rename_stream reg en others1)"
      "spared p (instant_now (ev_env ev1)) (rename_stream reg en others2)"
    and t2: "instant_now (ev_env ev2) - instant_now (ev_env ev1) \<le> nanos 2"
      "prune_now (ev_env ev2) p - instant_now (ev_env ev1) < nanos 5"
    and t3: "instant_now (ev_env ev3) - instant_now (ev_env ev1) \<le> nanos 2"
      "prune_now (ev_env ev3) p - instant_now (ev_env ev1) < nanos 5"
  shows "set (kills (fst (ring_callback reg (ev_slug ev3) en (ev_env ev3) (ev_data ev3)
      (snd (poll_events reg en (ev1 # others1 @ ev2 # others2) g))))) = tree_kills (ev_env ev3) p"
proof -
  obtain a1 where a1: "rename_ppid a1 = p" "event_alerts en ev1 = [(ev_env ev1, a1)]"
    using evs(1) by (rule refusal_alert)
  obtain a2 where a2: "rename_ppid a2 = p" "event_alerts en ev2 = [(ev_env ev2, a2)]"
    using evs(2) by (rule refusal_alert)
  obtain a3 where a3: "rename_ppid a3 = p" "event_alerts en ev3 = [(ev_env ev3, a3)]"
    using evs(3) by (rule refusal_alert)
  define h where "h = snd (poll_events reg en (ev1 # others1 @ ev2 # others2) g)"
  define h' where "h' = snd (handle_all ((ev_env ev1, a1) # rename_stream reg en others1 @
      (ev_env ev2, a2) # rename_stream reg en others2) g)"
  have "rename_stream reg en (ev1 # others1 @ ev2 # others2) =
      (ev_env ev1, a1) # rename_stream reg en others1 @ (ev_env ev2, a2) # rename_stream reg en others2"
    using on a1 a2 by (simp add: rename_stream_def)
  then have same: "same_strikes h' h"
    using poll_correlates [OF code, of en "ev1 # others1 @ ev2 # others2" g] unfolding h_def h'_def by simp
  have "reaches (ev_env ev3) a3 h'"
    unfolding h'_def by (rule three_strikes [OF start a1(1) a2(1) a3(1) others t2 t3])
  then have "Kill w \<in> set (fst (rename_handler (ev_env ev3) a3 h')) \<longleftrightarrow> w \<in> tree_kills (ev_env ev3) p" for w
    by (simp add: rename_handler_kills a3(1))
  then have "set (kills (fst (rename_handler (ev_env ev3) a3 h'))) = tree_kills (ev_env ev3) p"
    by (intro set_eqI) (simp only: set_kills)
  moreover have "rename_stream reg en [ev3] = [(ev_env ev3, a3)]"
    using on a3(2) by (simp add: rename_stream_def)
  then have "kills (fst (ring_callback reg (ev_slug ev3) en (ev_env ev3) (ev_data ev3) h)) =
      kills (fst (rename_handler (ev_env ev3) a3 h))"
    using callback_correlates(1) [OF code, of ev3 en h] by (simp only:) (simp add: case_prod_beta)
  ultimately show ?thesis
    using handler_strikes(1) [OF same, of "ev_env ev3" a3] by (simp only: h_def [symmetric])
qed

lemma poll_events_append:
  "poll_events reg en (xs @ ys) g =
     (fst (poll_events reg en xs g) @ fst (poll_events reg en ys (snd (poll_events reg en xs g))),
      snd (poll_events reg en ys (snd (poll_events reg en xs g))))"
  by (induction xs arbitrary: g) (simp_all add: case_prod_beta)

section \<open>An example\<close>

definition demo_registry :: "(tracked, unit, unit) registry" where
  "demo_registry = snd (toggle_module_in rename_slug True build_registry)"

definition demo_refusal :: "nat \<Rightarrow> ring_event" where
  "demo_refusal t =
     \<lparr>ev_slug = rename_slug, ev_env = demo_env t,
      ev_data = hd (hr_events (rename_hook Little (demo_call demo_name)))\<rparr>"

definition demo_noise :: ring_event where
  "demo_noise = \<lparr>ev_slug = str ''exec_block'', ev_env = demo_env 7, ev_data = [1, 2, 3]\<rparr>"

lemma demo_registry_ok: "same_code build_registry demo_registry" "module_enabled rename_slug demo_registry"
proof -
  show "same_code build_registry demo_registry"
    unfolding demo_registry_def by (rule same_code_toggle)
  show "module_enabled rename_slug demo_registry"
    by (simp add: demo_registry_def module_enabled_def find_module_def build_registry_def
        new_module_identity rename_spec_slug other_spec_slugs toggle_def status_def)
qed

lemma demo_refusal_carries: "carries_refusal Little 40 (demo_refusal t)"
proof -
  obtain d where "hr_events (rename_hook Little (demo_call demo_name)) = [d]" by (rule demo_record)
  moreover have "rc_ppid (demo_call demo_name) = 40" by (simp add: demo_call_def)
  ultimately show ?thesis
    using demo_sound [of demo_name] unfolding carries_refusal_def
    by (simp add: demo_refusal_def) (metis list.set_intros(1))
qed

lemma demo_refusal_env [simp]: "ev_env (demo_refusal t) = demo_env t"
  by (simp add: demo_refusal_def)

lemma demo_noise_alerts: "event_alerts en demo_noise = []"
  by (simp add: event_alerts_def demo_noise_def rename_slug_def)

text \<open>A host that loads the module and enables it.\<close>

definition demo_rename_env :: "(u8 list \<times> u8 list) list main_env" where
  "demo_rename_env =
     \<lparr>me_endian = Little, me_euid = 0, me_lsm = Inr (str ''lockdown,yama,bpf''),
      me_config = demo_config_env [(rename_slug, TBoolean True)],
      me_host = bare_host, me_api = hash_map 8,
      me_loader = demo_loader\<lparr>available_modules := [rename_slug]\<rparr>,
      me_ringbuf = \<lparr>rb_add = (\<lambda>_. True), rb_build = (\<lambda>_. True)\<rparr>, me_os = quiet_os\<rparr>"

lemma demo_rename_env_ok:
  "bpf_api_ok (me_api demo_rename_env)" "loader_ok (me_loader demo_rename_env)"
  "loaded_state_ok (me_endian demo_rename_env) (me_api demo_rename_env) (me_loader demo_rename_env)"
  using bpf_hash_api [OF hash_map_ok [of 8]] demo_loader_ok
  by (auto simp: demo_rename_env_def loader_ok_def loaded_state_ok_def)

lemma demo_rename_serves:
  obtains s where "snd (main demo_rename_env) = Serving s (Some [rename_slug])" "s_running s" "s_senders s"
    "module_enabled rename_slug (d_registry (s_daemon s))"
proof -
  have "case snd (main demo_rename_env) of
      Serving s r \<Rightarrow> r = Some [rename_slug] \<and> s_running s \<and> s_senders s \<and>
        module_enabled rename_slug (d_registry (s_daemon s))
    | _ \<Rightarrow> False"
    by code_simp
  with that show thesis by (cases "snd (main demo_rename_env)") auto
qed

section \<open>Properties\<close>

text \<open>
  C6: the event pipeline refines the correlator of rename alerts. Whatever records of
  whatever modules are polled, in whatever order, and whatever the log does, the processes
  killed are, in order, those the correlator kills on the rename alerts alone (on none while
  the module is off), and the strike tracker ends as the correlator leaves it.
\<close>

theorem pipeline_refines_correlator:
  assumes "same_code build_registry reg"
  shows "kills (fst (poll_events reg en evs g)) = kills (fst (handle_all (rename_stream reg en evs) g)) \<and>
    g_tracker (snd (poll_events reg en evs g)) = g_tracker (snd (handle_all (rename_stream reg en evs) g))"
  using poll_correlates [OF assms, of en evs g] by (simp add: same_strikes_def)

theorem pipeline_refines_correlator_witness:
  "kills (fst (poll_events demo_registry Little [demo_noise, demo_refusal 0] demo_globals)) =
     kills (fst (handle_all (rename_stream demo_registry Little [demo_noise, demo_refusal 0]) demo_globals))"
  using pipeline_refines_correlator [OF demo_registry_ok(1), of Little "[demo_noise, demo_refusal 0]" demo_globals]
  by blast

text \<open>
  C1: from the kernel to the tree. When the hook has refused renames of three children of one
  parent, which has no strike yet, within two seconds, the module is active and no panic has
  poisoned the lock of the strikes, handling the third of its records kills exactly the parent's direct children and, unless its start time shows a recycled
  process id, the parent, whatever the memory of the ring held before and whatever records
  lie in between: of other modules, or of the renames of other parents, handled while the
  first strike is less than five seconds old.
\<close>

theorem refused_renames_eradicated:
  assumes "same_code build_registry reg" and "module_enabled rename_slug reg"
    and "\<not> g_tracker_poisoned g" and "g_tracker g p = None"
    and "list_all (\<lambda>ev. ev_slug ev = rename_slug \<and>
      (\<exists>c. rename_sound c \<and> rc_ppid c = p \<and> ev_data ev \<in> set (hr_events (rename_hook en c)))) [ev1, ev2, ev3]"
    and "spared p (instant_now (ev_env ev1)) (rename_stream reg en others1)"
    and "spared p (instant_now (ev_env ev1)) (rename_stream reg en others2)"
    and "instant_now (ev_env ev2) - instant_now (ev_env ev1) \<le> nanos 2"
    and "prune_now (ev_env ev2) p - instant_now (ev_env ev1) < nanos 5"
    and "instant_now (ev_env ev3) - instant_now (ev_env ev1) \<le> nanos 2"
    and "prune_now (ev_env ev3) p - instant_now (ev_env ev1) < nanos 5"
  shows "set (kills (fst (ring_callback reg (ev_slug ev3) en (ev_env ev3) (ev_data ev3)
      (snd (poll_events reg en (ev1 # others1 @ ev2 # others2) g))))) = tree_kills (ev_env ev3) p"
proof -
  have "carries_refusal en p ev1" "carries_refusal en p ev2" "carries_refusal en p ev3"
    using assms(5) by (simp_all add: carries_refusal_def)
  from refused_renames_kill [OF assms(1-4) this assms(6-11)] show ?thesis .
qed

theorem refused_renames_eradicated_witness:
  "set (kills (fst (ring_callback demo_registry rename_slug Little (demo_env (nanos 1))
      (ev_data (demo_refusal (nanos 1)))
      (snd (poll_events demo_registry Little [demo_refusal 0, demo_noise, demo_refusal 500] demo_globals)))))
   = tree_kills (demo_env (nanos 1)) 40"
proof -
  have carries: "list_all (\<lambda>ev. ev_slug ev = rename_slug \<and>
      (\<exists>c. rename_sound c \<and> rc_ppid c = 40 \<and> ev_data ev \<in> set (hr_events (rename_hook Little c))))
    [demo_refusal 0, demo_refusal 500, demo_refusal (nanos 1)]"
    using demo_refusal_carries unfolding carries_refusal_def by simp
  have "ev_slug (demo_refusal (nanos 1)) = rename_slug" by (simp add: demo_refusal_def)
  moreover have "set (kills (fst (ring_callback demo_registry (ev_slug (demo_refusal (nanos 1))) Little
      (ev_env (demo_refusal (nanos 1))) (ev_data (demo_refusal (nanos 1)))
      (snd (poll_events demo_registry Little (demo_refusal 0 # [demo_noise] @ demo_refusal 500 # []) demo_globals)))))
    = tree_kills (ev_env (demo_refusal (nanos 1))) 40"
    by (rule refused_renames_eradicated [OF demo_registry_ok _ _ carries])
      (simp_all add: demo_noise_alerts spared_def nanos_def rename_stream_def demo_globals_def)
  ultimately show ?thesis by simp
qed

text \<open>
  C2: the daemon kills on nothing less. From its start on, whatever commands arrive, whatever
  records of whatever modules are polled and however both interleave, a process is killed
  only in an iteration of the loop, and only if among the rename alerts of the run so far
  there are three of one parent process, the later two at most two seconds after the first,
  and the process is the parent or its direct child at the third.
\<close>

theorem daemon_kills_need_three:
  assumes "bpf_api_ok (me_api me)" "loader_ok (me_loader me)"
    "loaded_state_ok (me_endian me) (me_api me) (me_loader me)"
    and "snd (main me) = Serving s0 ring"
    and "reachable (me_endian me) (me_api me) (me_loader me) s0 as s"
    and "system_step (me_endian me) (me_api me) (me_loader me) s a e s'"
    and "Kill w \<in> set e"
  shows "\<exists>i j k p t u v.
    let evs = polled (me_endian me) (as @ [a])
    in i < j \<and> j < k \<and> struck evs i p t \<and> struck evs j p u \<and> struck evs k p v \<and>
       u - t \<le> nanos 2 \<and> v - t \<le> nanos 2 \<and> w \<in> tree_kills (fst (evs ! k)) p"
proof -
  have inv0: "system_inv (me_endian me) (me_api me) (me_loader me) s0"
    by (rule main_system_inv [OF assms(1-4)])
  have start: "g_tracker (s_globals s0) = (\<lambda>_. None)"
    by (rule main_serving [OF assms(4)]) (simp add: initial_globals_def)
  have inv: "system_inv (me_endian me) (me_api me) (me_loader me) s"
    by (rule reachable_inv [OF assms(1,5) inv0])
  note acc = reachable_accounted [OF assms(1) inv0 start assms(5)]
  have "evidence (polled (me_endian me) (as @ [a])) w"
    using step_accounted [OF assms(1) inv acc assms(6)] assms(7)
    by (simp add: polled_snoc [of "me_endian me" as a])
  then show ?thesis unfolding evidence_def Let_def .
qed

theorem daemon_kills_need_three_witness:
  "\<exists>as. \<exists>i j k p t u v.
    let evs = polled Little as
    in i < j \<and> j < k \<and> struck evs i p t \<and> struck evs j p u \<and> struck evs k p v \<and>
       u - t \<le> nanos 2 \<and> v - t \<le> nanos 2 \<and> 50 \<in> tree_kills (fst (evs ! k)) p"
proof (rule demo_rename_serves)
  fix s0
  assume run: "snd (main demo_rename_env) = Serving s0 (Some [rename_slug])"
    and up: "s_running s0" "s_senders s0" and on: "module_enabled rename_slug (d_registry (s_daemon s0))"
  define rs where "rs = \<lparr>rs_bound = Some [rename_slug],
    rs_events = [demo_refusal 0, demo_noise, demo_refusal 500, demo_refusal (nanos 1)], rs_error = None\<rparr>"
  have env: "me_endian demo_rename_env = Little" "me_api demo_rename_env = hash_map 8"
    by (simp_all add: demo_rename_env_def)
  let ?ld = "me_loader demo_rename_env"
  have code: "same_code build_registry (d_registry (s_daemon s0))"
    using main_system_inv [OF demo_rename_env_ok run] by (simp add: system_inv_def)
  have empty: "s_queue s0 = []" "g_tracker (s_globals s0) = (\<lambda>_. None)" "\<not> g_tracker_poisoned (s_globals s0)"
    by (rule main_serving [OF run], simp add: initial_globals_def)+
  obtain e s where once: "run_once Little (hash_map 8) ?ld rs s0 = (e, s)" by fastforce
  then have step: "system_step Little (hash_map 8) ?ld s0 (Tick rs) e s"
    using up by (intro step_tick)
  have noise: "filter (\<lambda>ev. ev_slug ev = rename_slug) (rs_events rs) =
      [demo_refusal 0, demo_refusal 500, demo_refusal (nanos 1)]"
    by (simp add: rs_def demo_refusal_def demo_noise_def rename_slug_def)
  have "set (kills (fst (ring_callback (d_registry (s_daemon s0)) (ev_slug (demo_refusal (nanos 1))) Little
      (ev_env (demo_refusal (nanos 1))) (ev_data (demo_refusal (nanos 1)))
      (snd (poll_events (d_registry (s_daemon s0)) Little (demo_refusal 0 # [] @ demo_refusal 500 # [])
         (s_globals s0)))))) = tree_kills (ev_env (demo_refusal (nanos 1))) 40"
    by (rule refused_renames_kill [OF code on empty(3) _ demo_refusal_carries demo_refusal_carries demo_refusal_carries])
      (simp_all add: empty spared_def nanos_def rename_stream_def)
  with demo_tree [of "nanos 1"] have "Kill 50 \<in> set (fst (poll_events (d_registry (s_daemon s0)) Little
      [demo_refusal 0, demo_refusal 500, demo_refusal (nanos 1)] (s_globals s0)))"
    by (auto simp: case_prod_beta simp flip: set_kills)
  then have "Kill 50 \<in> set e"
    using once empty(1) up(2) noise by (auto simp: run_once_def poll_ring_def rs_def split: prod.splits)
  from daemon_kills_need_three [OF demo_rename_env_ok run, unfolded env, OF reach_start step this]
  show ?thesis by blast
qed

end
