(* ===== verification/BB_Xtask.thy ===== *)
theory BB_Xtask
  imports BB_Utf8
begin

text \<open>
  The build automation of \<open>xtask/\<close>, its common part: tasks that run commands on the host
  and report what they did, the commands of \<open>xtask/src/utils.rs\<close>, and the rules with which
  the histories of tasks are reasoned about. A task reads the world through an environment
  that answers each request from the history so far, so the answers may change at any time.
\<close>

section \<open>The world of a task\<close>

text \<open>\<open>std::process::Command\<close> with its working directory, and \<open>Output\<close>.\<close>

record command =
  c_prog :: rstr
  c_args :: "rstr list"
  c_dir :: "rstr option"

record cmd_output =
  o_code :: "int option"
  o_stdout :: "u8 list"
  o_stderr :: "u8 list"

definition succeeded :: "cmd_output \<Rightarrow> bool" where
  "succeeded out \<longleftrightarrow> o_code out = Some 0"

text \<open>
  Durations and instants count nanoseconds. A directory stream yields errors and names;
  what it will yield is fixed when it is opened.
\<close>

datatype event =
    Ran command "rstr + cmd_output"
  | Said rstr
  | Warned rstr
  | Slept nat
  | Looked nat
  | Existed rstr bool
  | WasFile rstr "u8 list" bool
  | Listed rstr "rstr + (rstr + u8 list) list"
  | Loaded rstr "rstr option"
  | Removed "u8 list"
  | Appended rstr rstr bool
  | Wrote rstr rstr "rstr option"

record xenv =
  xe_manifest_dir :: rstr
  xe_temp_dir :: "u8 list"
  xe_run :: "event list \<Rightarrow> command \<Rightarrow> rstr + cmd_output"
  xe_now :: "event list \<Rightarrow> nat"
  xe_exists :: "event list \<Rightarrow> rstr \<Rightarrow> bool"
  xe_is_file :: "event list \<Rightarrow> rstr \<Rightarrow> u8 list \<Rightarrow> bool"
  xe_read_dir :: "event list \<Rightarrow> rstr \<Rightarrow> rstr + (rstr + u8 list) list"
  xe_read_text :: "event list \<Rightarrow> rstr \<Rightarrow> rstr option"
  xe_append :: "event list \<Rightarrow> rstr \<Rightarrow> bool"
  xe_write :: "event list \<Rightarrow> rstr \<Rightarrow> rstr option"

text \<open>How a routine ends: a value, an \<open>Err\<close>, \<open>process::exit\<close>, an unwinding panic.\<close>

datatype 'a flow = Value 'a | Error rstr | Quit nat | Unwound

type_synonym 'a task = "xenv \<Rightarrow> event list \<Rightarrow> 'a flow \<times> event list"

definition give :: "'a \<Rightarrow> 'a task" where
  "give a = (\<lambda>env h. (Value a, h))"

definition error :: "rstr \<Rightarrow> 'a task" where
  "error msg = (\<lambda>env h. (Error msg, h))"

definition quit :: "nat \<Rightarrow> 'a task" where
  "quit n = (\<lambda>env h. (Quit n, h))"

definition unwind :: "'a task" where
  "unwind = (\<lambda>env h. (Unwound, h))"

definition bind_task :: "'a task \<Rightarrow> ('a \<Rightarrow> 'b task) \<Rightarrow> 'b task" where
  "bind_task t f = (\<lambda>env h.
     case t env h of
       (Value a, h1) \<Rightarrow> f a env h1
     | (Error msg, h1) \<Rightarrow> (Error msg, h1)
     | (Quit n, h1) \<Rightarrow> (Quit n, h1)
     | (Unwound, h1) \<Rightarrow> (Unwound, h1))"

text \<open>Statements in sequence, each followed by \<open>?\<close>; an \<open>Err\<close> kept as a value.\<close>

fun steps :: "unit task list \<Rightarrow> unit task" where
  "steps [] = give ()"
| "steps (t # ts) = bind_task t (\<lambda>_. steps ts)"

definition attempt :: "'a task \<Rightarrow> (rstr + 'a) task" where
  "attempt t = (\<lambda>env h.
     case t env h of
       (Value a, h1) \<Rightarrow> (Value (Inr a), h1)
     | (Error msg, h1) \<Rightarrow> (Value (Inl msg), h1)
     | (Quit n, h1) \<Rightarrow> (Quit n, h1)
     | (Unwound, h1) \<Rightarrow> (Unwound, h1))"

text \<open>A request to the world: its answer is the value, the event goes on record.\<close>

definition request_task :: "(xenv \<Rightarrow> event list \<Rightarrow> 'a) \<Rightarrow> ('a \<Rightarrow> event) \<Rightarrow> 'a task" where
  "request_task ask log = (\<lambda>env h. let a = ask env h in (Value a, h @ [log a]))"

definition run :: "command \<Rightarrow> (rstr + cmd_output) task" where
  "run c = request_task (\<lambda>env h. xe_run env h c) (Ran c)"

definition say :: "rstr \<Rightarrow> unit task" where
  "say line = request_task (\<lambda>_ _. ()) (\<lambda>_. Said line)"

definition warn :: "rstr \<Rightarrow> unit task" where
  "warn line = request_task (\<lambda>_ _. ()) (\<lambda>_. Warned line)"

definition sleep_secs :: "nat \<Rightarrow> unit task" where
  "sleep_secs n = request_task (\<lambda>_ _. ()) (\<lambda>_. Slept n)"

definition now :: "nat task" where
  "now = request_task xe_now Looked"

definition path_exists :: "rstr \<Rightarrow> bool task" where
  "path_exists p = request_task (\<lambda>env h. xe_exists env h p) (Existed p)"

definition is_file :: "rstr \<Rightarrow> u8 list \<Rightarrow> bool task" where
  "is_file dir name = request_task (\<lambda>env h. xe_is_file env h dir name) (WasFile dir name)"

definition read_dir :: "rstr \<Rightarrow> (rstr + (rstr + u8 list) list) task" where
  "read_dir p = request_task (\<lambda>env h. xe_read_dir env h p) (Listed p)"

definition remove_file :: "u8 list \<Rightarrow> unit task" where
  "remove_file p = request_task (\<lambda>_ _. ()) (\<lambda>_. Removed p)"

section \<open>Paths\<close>

definition join_path :: "rstr \<Rightarrow> rstr \<Rightarrow> rstr" where
  "join_path dir name = (if dir \<noteq> [] \<and> last dir = 47 then dir @ name else dir @ 47 # name)"

text \<open>The parent of an absolute path without a trailing slash; the root has none.\<close>

definition parent_dir :: "rstr \<Rightarrow> rstr option" where
  "parent_dir p =
     (if p = [47] \<or> p = [] then None
      else (let up = rev (tl (dropWhile (\<lambda>c. c \<noteq> 47) (rev p))) in Some (if up = [] then [47] else up)))"

definition project_root :: "rstr task" where
  "project_root = (\<lambda>env h.
     case parent_dir (xe_manifest_dir env) of Some p \<Rightarrow> (Value p, h) | None \<Rightarrow> (Unwound, h))"

definition temp_dir :: "u8 list task" where
  "temp_dir = (\<lambda>env h. (Value (xe_temp_dir env), h))"

section \<open>Commands\<close>

definition vm_name :: rstr where
  "vm_name = str ''bb-test-runner''"

definition snapshot_name :: rstr where
  "snapshot_name = str ''clean-state''"

definition incus :: "rstr list \<Rightarrow> command" where
  "incus args = \<lparr>c_prog = str ''incus'', c_args = args, c_dir = None\<rparr>"

definition show_int :: "int \<Rightarrow> rstr" where
  "show_int i = (if i < 0 then 45 # show_nat (nat (- i)) else show_nat (nat i))"

text \<open>\<open>{:?}\<close> of an exit code.\<close>

definition debug_code :: "int option \<Rightarrow> rstr" where
  "debug_code c = (case c of Some n \<Rightarrow> str ''Some('' @ show_int n @ str '')'' | None \<Rightarrow> str ''None'')"

definition execute_cmd :: "command \<Rightarrow> rstr \<Rightarrow> unit task" where
  "execute_cmd cmd error_msg =
     bind_task (run cmd) (\<lambda>r. case r of
       Inl e \<Rightarrow> error (error_msg @ str '': '' @ e)
     | Inr out \<Rightarrow>
         if \<not> succeeded out
         then error (error_msg @ str '' (Exit code: ''
                @ show_int (case o_code out of Some n \<Rightarrow> n | None \<Rightarrow> - 1) @ str '')'' @ newline @ newline
                @ str ''--- STDERR ---'' @ newline @ trim_by is_whitespace (utf8_lossy (o_stderr out)))
         else give ())"

text \<open>A command line for the guest, in its shell.\<close>

definition guest_prefix :: rstr where
  "guest_prefix = str ''source ~/.cargo/env && cd /workspace && ''"

definition guest_command :: "rstr \<Rightarrow> command" where
  "guest_command line =
     incus [str ''exec'', vm_name, str ''--'', str ''bash'', str ''-c'', guest_prefix @ line]"

definition incus_exec :: "rstr \<Rightarrow> unit task" where
  "incus_exec line =
     bind_task (run (guest_command line)) (\<lambda>r. case r of
       Inl e \<Rightarrow> error (str ''Incus translation execution failure: '' @ e)
     | Inr out \<Rightarrow>
         if succeeded out then give ()
         else error (str ''Guest command failed (Exit code: '' @ debug_code (o_code out) @ str '')''
                @ newline @ newline @ str ''--- STDOUT ---'' @ newline @ utf8_lossy (o_stdout out)
                @ newline @ str ''--- STDERR ---'' @ newline @ utf8_lossy (o_stderr out)))"

definition run_succeeded :: "rstr + cmd_output \<Rightarrow> bool" where
  "run_succeeded r = (case r of Inr out \<Rightarrow> succeeded out | Inl _ \<Rightarrow> False)"

text \<open>The rounds left of \<open>for _ in 0..120\<close>.\<close>

fun await_rounds :: "nat \<Rightarrow> unit task" where
  "await_rounds 0 = error (str ''VM communication agent exceeded response timeout limit.'')"
| "await_rounds (Suc n) =
     bind_task (run (incus [str ''exec'', vm_name, str ''--'', str ''echo'', str ''ready'']))
       (\<lambda>r. if run_succeeded r then give () else bind_task (sleep_secs 2) (\<lambda>_. await_rounds n))"

definition await_guest_agent :: "unit task" where
  "await_guest_agent = await_rounds 120"

end
