(* ===== verification/BB_Build.thy ===== *)
theory BB_Build
  imports BB_Xtask BB_Spec
begin

text \<open>
  The build script \<open>core/build.rs\<close>: which modules the generated loader knows, under which
  identifiers, and when the build stops. The crates it uses are parameters: the compilation
  of a source into a skeleton (\<open>libbpf-cargo\<close>) and the validity of an identifier (\<open>quote\<close>).
\<close>

section \<open>Names\<close>

text \<open>
  \<open>char::to_uppercase\<close> on ASCII; \<open>upper\<close> is the table for the other code points.
\<close>

definition uppercase :: "(rchar \<Rightarrow> rstr) \<Rightarrow> rchar \<Rightarrow> rstr" where
  "uppercase upper c = (if c < 128 then (if 97 \<le> c \<and> c \<le> 122 then [c - 32] else [c]) else upper c)"

definition capitalise :: "(rchar \<Rightarrow> rstr) \<Rightarrow> rstr \<Rightarrow> rstr" where
  "capitalise upper w = (case w of [] \<Rightarrow> [] | f # rest \<Rightarrow> uppercase upper f @ rest)"

definition snake_to_camel :: "(rchar \<Rightarrow> rstr) \<Rightarrow> rstr \<Rightarrow> rstr" where
  "snake_to_camel upper s = concat (map (capitalise upper) (split_on (\<lambda>c. c = 95) s))"

definition ends_with :: "rstr \<Rightarrow> rstr \<Rightarrow> bool" where
  "ends_with suffix s \<longleftrightarrow> length suffix \<le> length s \<and> drop (length s - length suffix) s = suffix"

text \<open>\<open>str::trim_end_matches\<close>: the suffix is removed as often as it occurs.\<close>

function trim_end_matches :: "rstr \<Rightarrow> rstr \<Rightarrow> rstr" where
  "trim_end_matches suffix s =
     (if suffix \<noteq> [] \<and> ends_with suffix s
      then trim_end_matches suffix (take (length s - length suffix) s) else s)"
  by pat_completeness auto
termination
proof (relation "measure (\<lambda>(suffix, s). length s)")
  fix suffix s :: rstr
  assume "suffix \<noteq> [] \<and> ends_with suffix s"
  then have "0 < length suffix" "length suffix \<le> length s" by (simp_all add: ends_with_def)
  then have "length s - length suffix < length s" by linarith
  then show "((suffix, take (length s - length suffix) s), (suffix, s)) \<in> measure (\<lambda>(suffix, s). length s)"
    by simp
qed simp

declare trim_end_matches.simps [simp del]

section \<open>The script\<close>

record build_env =
  be_out_dir :: "rstr option"
  be_include_exists :: bool
  be_create_include :: bool
  be_vmlinux_path :: "rstr option"
  be_copy :: "rstr \<Rightarrow> bool"
  be_bpftool :: "rstr + cmd_output"
  be_write :: "rstr \<Rightarrow> bool"
  be_entries :: "rstr + (rstr + u8 list) list"
  be_is_file :: "u8 list \<Rightarrow> bool"
  be_skeleton :: "u8 list \<Rightarrow> rstr \<Rightarrow> rstr option"
  be_ident :: "rstr \<Rightarrow> bool"
  be_upper :: "rchar \<Rightarrow> rstr"

text \<open>What is generated for a module: its name and identifier, the builder, the skeleton type, the file.\<close>

record generated =
  gen_module :: rstr
  gen_builder :: rstr
  gen_skel :: rstr
  gen_file :: rstr

definition panic :: "'a io" where
  "panic = ([], Inl Panic)"

definition vmlinux_file :: rstr where
  "vmlinux_file = str ''../bpf/include/vmlinux.h''"

definition resolve_vmlinux :: "build_env \<Rightarrow> unit io" where
  "resolve_vmlinux be =
     (case be_vmlinux_path be of
        Some pre_generated_path \<Rightarrow>
          bind_io (tell [Stdout (str ''cargo:warning=Using pre-generated vmlinux.h from '' @ pre_generated_path)])
            (\<lambda>_. if be_copy be pre_generated_path then ret () else panic)
      | None \<Rightarrow>
          (case be_bpftool be of
             Inl e \<Rightarrow> panic
           | Inr bpftool_out \<Rightarrow>
               if \<not> succeeded bpftool_out then panic
               else if be_write be vmlinux_file then ret () else panic))"

definition c_source :: "u8 list \<Rightarrow> bool" where
  "c_source name \<longleftrightarrow> (case path_extension name of Some e \<Rightarrow> e | None \<Rightarrow> []) = map of_nat (str ''c'')"

definition bpf_suffix :: rstr where
  "bpf_suffix = str ''.bpf.c''"

definition generate_module :: "build_env \<Rightarrow> rstr \<Rightarrow> u8 list \<Rightarrow> generated list io" where
  "generate_module be out_dir name =
     (if \<not> (be_is_file be name \<and> c_source name) then ret []
      else (case to_str name of
              None \<Rightarrow> panic
            | Some file_name \<Rightarrow>
                if \<not> ends_with bpf_suffix file_name then ret []
                else (let base_name = trim_end_matches bpf_suffix file_name;
                          skel_name = base_name @ str ''.skel.rs'';
                          camel = snake_to_camel (be_upper be) base_name
                      in if be_skeleton be name (join_path out_dir skel_name) \<noteq> None then panic
                         else if \<not> be_ident be base_name \<or> \<not> be_ident be (camel @ str ''SkelBuilder'')
                           \<or> \<not> be_ident be (camel @ str ''Skel'') then panic
                         else ret [\<lparr>gen_module = base_name, gen_builder = camel @ str ''SkelBuilder'',
                                gen_skel = camel @ str ''Skel'', gen_file = skel_name\<rparr>])))"

fun generate_all :: "build_env \<Rightarrow> rstr \<Rightarrow> (rstr + u8 list) list \<Rightarrow> generated list io" where
  "generate_all be out_dir [] = ret []"
| "generate_all be out_dir (entry # entries) =
     (case entry of
        Inl e \<Rightarrow> panic
      | Inr name \<Rightarrow>
          bind_io (generate_module be out_dir name) (\<lambda>ms.
            bind_io (generate_all be out_dir entries) (\<lambda>rest. ret (ms @ rest))))"

definition write_loader :: "build_env \<Rightarrow> rstr \<Rightarrow> generated list \<Rightarrow> generated list io" where
  "write_loader be out_dir ms =
     (if be_write be (join_path out_dir (str ''bpf_loader.rs'')) then ret ms else panic)"

text \<open>The script; its value is the content of \<open>bpf_loader.rs\<close>.\<close>

definition build_main :: "build_env \<Rightarrow> generated list io" where
  "build_main be =
     (case be_out_dir be of
        None \<Rightarrow> panic
      | Some out_dir \<Rightarrow>
          bind_io (tell [Stdout (str ''cargo:rerun-if-changed=../bpf'')]) (\<lambda>_.
          if \<not> be_include_exists be \<and> \<not> be_create_include be then panic
          else bind_io (resolve_vmlinux be) (\<lambda>_.
            case be_entries be of
              Inl e \<Rightarrow> panic
            | Inr entries \<Rightarrow>
                bind_io (generate_all be out_dir entries) (write_loader be out_dir))))"

text \<open>\<open>available_modules\<close> of the generated loader.\<close>

definition loader_modules :: "generated list \<Rightarrow> rstr list" where
  "loader_modules ms = map gen_module ms"

section \<open>The generated dispatchers\<close>

text \<open>
  \<open>match name { ... }\<close> over the generated arms: the first arm with the name, or the last one.
  A skeleton is downcast to the type of one module; \<open>sk_module\<close> is the module of its type.
\<close>

definition match_arms :: "(rstr \<times> 'r) list \<Rightarrow> rstr \<Rightarrow> 'r \<Rightarrow> 'r" where
  "match_arms arms name otherwise = (case map_of arms name of Some r \<Rightarrow> r | None \<Rightarrow> otherwise)"

definition load_arm ::
    "'m loader \<Rightarrow> (rstr \<times> u32) list \<Rightarrow> (open_object \<Rightarrow> rstr + open_object) \<Rightarrow> generated \<Rightarrow>
     rstr \<times> (rstr + 'm skeleton)" where
  "load_arm ld capacities hook m =
     (gen_module m,
      case open_skel ld (gen_module m) of
        Inl _ \<Rightarrow> Inl (str ''Failed to open '' @ gen_module m)
      | Inr open_obj \<Rightarrow>
          (case hook (fold set_max_entries capacities open_obj) of
             Inl e \<Rightarrow> Inl e
           | Inr obj \<Rightarrow>
               (case load_skel ld (gen_module m) obj of
                  Inl _ \<Rightarrow> Inl (str ''Failed to load '' @ gen_module m)
                | Inr skel \<Rightarrow>
                    (case attach_skel ld skel of
                       Inl _ \<Rightarrow> Inl (str ''Failed to attach '' @ gen_module m)
                     | Inr attached \<Rightarrow> Inr attached))))"

definition dispatch_load ::
    "generated list \<Rightarrow> 'm loader \<Rightarrow> rstr \<Rightarrow> (rstr \<times> u32) list \<Rightarrow>
     (open_object \<Rightarrow> rstr + open_object) \<Rightarrow> rstr + 'm skeleton" where
  "dispatch_load ms ld name capacities hook =
     match_arms (map (load_arm ld capacities hook) ms) name
       (Inl (str ''eBPF module '' @ quoted name @ str '' not found.''))"

definition toggle_arm ::
    "endian \<Rightarrow> 'm bpf_api \<Rightarrow> 'm skeleton \<Rightarrow> rstr \<Rightarrow> bool \<Rightarrow> generated \<Rightarrow> rstr \<times> (rstr + 'm skeleton)" where
  "toggle_arm en api skel name active m =
     (gen_module m,
      if sk_module skel = gen_module m
      then (case map_of (sk_maps skel) state_map_name of
              None \<Rightarrow> Inr skel
            | Some state_map \<Rightarrow>
                (case map_update api (state_key en) (state_val en active) state_map of
                   Inl _ \<Rightarrow> Inl (str ''Failed to synchronize eBPF state_map for '' @ gen_module m)
                 | Inr written \<Rightarrow>
                     Inr (skel\<lparr>sk_maps := AList.update state_map_name written (sk_maps skel)\<rparr>)))
      else Inl (str ''Type downcast failed for module skeleton '' @ quoted name))"

definition dispatch_toggle ::
    "generated list \<Rightarrow> endian \<Rightarrow> 'm bpf_api \<Rightarrow> 'm skeleton \<Rightarrow> rstr \<Rightarrow> bool \<Rightarrow> rstr + 'm skeleton" where
  "dispatch_toggle ms en api skel name active =
     match_arms (map (toggle_arm en api skel name active) ms) name
       (Inl (str ''Unknown eBPF module '' @ quoted name))"

text \<open>One downcast after the other; an arm whose downcast succeeds returns.\<close>

definition get_map_arm :: "'m skeleton \<Rightarrow> rstr \<Rightarrow> generated \<Rightarrow> (rstr + 'm) option" where
  "get_map_arm skel map_name m =
     (if sk_module skel = gen_module m
      then (case map_of (sk_maps skel) map_name of
              Some found \<Rightarrow> Some (Inr found)
            | None \<Rightarrow> Some (Inl (str ''Map '' @ quoted map_name @ str '' not found in module skeleton'')))
      else None)"

fun dispatch_get_map :: "generated list \<Rightarrow> 'm skeleton \<Rightarrow> rstr \<Rightarrow> rstr + 'm" where
  "dispatch_get_map [] skel map_name =
     Inl (str ''Type downcast failed or map '' @ quoted map_name
       @ str '' not found across all registered modules.'')"
| "dispatch_get_map (m # ms) skel map_name =
     (case get_map_arm skel map_name m of
        Some answer \<Rightarrow> answer
      | None \<Rightarrow> dispatch_get_map ms skel map_name)"

lemma match_generated:
  assumes "\<And>m. fst (arm m) = gen_module m" and "\<And>m. snd (arm m) = body (gen_module m)"
  shows "match_arms (map arm ms) name otherwise =
    (if name \<in> set (loader_modules ms) then body name else otherwise)"
proof -
  have "map_of (map arm ms) name = (if name \<in> set (loader_modules ms) then Some (body name) else None)"
  proof (induction ms)
    case (Cons m ms)
    have "arm m = (gen_module m, body (gen_module m))" using assms by (simp add: prod_eq_iff)
    with Cons show ?case by (auto simp: loader_modules_def)
  qed (simp add: loader_modules_def)
  then show ?thesis by (simp add: match_arms_def)
qed

text \<open>An arm depends on the name of its module alone.\<close>

definition named :: "rstr \<Rightarrow> generated" where
  "named n = \<lparr>gen_module = n, gen_builder = [], gen_skel = [], gen_file = []\<rparr>"

lemma gen_module_named [simp]: "gen_module (named n) = n"
  by (simp add: named_def)

lemma load_arm_named:
  "fst (load_arm ld capacities hook m) = gen_module m"
  "snd (load_arm ld capacities hook m) = snd (load_arm ld capacities hook (named (gen_module m)))"
  unfolding load_arm_def gen_module_named by simp_all

lemma toggle_arm_named:
  "fst (toggle_arm en api skel name active m) = gen_module m"
  "snd (toggle_arm en api skel name active m) = snd (toggle_arm en api skel name active (named (gen_module m)))"
  unfolding toggle_arm_def gen_module_named by simp_all

lemma load_arm_modules: "load_arm (ld\<lparr>available_modules := ms\<rparr>) = load_arm ld"
  by (intro ext) (simp add: load_arm_def split: sum.split)

text \<open>The dispatchers are the interface the daemon is modelled against.\<close>

lemma dispatchers:
  assumes "available_modules ld = loader_modules ms"
  shows "dispatch_load ms ld name capacities hook = load_module ld name capacities hook"
    and "dispatch_toggle ms en api skel name active = set_module_state en api ld skel name active"
    and "dispatch_get_map ms skel map_name = get_map ld skel map_name"
proof -
  show "dispatch_load ms ld name capacities hook = load_module ld name capacities hook"
    unfolding dispatch_load_def load_module_def assms match_generated [where arm = "load_arm ld capacities hook"
      and body = "\<lambda>n. snd (load_arm ld capacities hook (named n))", OF load_arm_named]
    unfolding load_arm_def gen_module_named by simp
  show "dispatch_toggle ms en api skel name active = set_module_state en api ld skel name active"
    unfolding dispatch_toggle_def set_module_state_def assms match_generated [where arm = "toggle_arm en api skel name active"
      and body = "\<lambda>n. snd (toggle_arm en api skel name active (named n))", OF toggle_arm_named]
    unfolding toggle_arm_def gen_module_named by simp
  show "dispatch_get_map ms skel map_name = get_map ld skel map_name"
    unfolding get_map_def assms by (induction ms) (auto simp: loader_modules_def get_map_arm_def split: option.split)
qed

section \<open>Which modules are generated\<close>

definition bpf_base :: "build_env \<Rightarrow> u8 list \<Rightarrow> rstr option" where
  "bpf_base be name =
     (if be_is_file be name \<and> c_source name \<and> ends_with bpf_suffix (utf8_lossy name)
      then Some (trim_end_matches bpf_suffix (utf8_lossy name)) else None)"

lemma generate_module_base:
  "snd (generate_module be out_dir name) = Inr ms \<Longrightarrow>
   loader_modules ms = (case bpf_base be name of Some b \<Rightarrow> [b] | None \<Rightarrow> [])"
  by (auto simp: generate_module_def bpf_base_def loader_modules_def to_str_def Let_def panic_def ret_def
      split: if_splits)

lemma generate_all_bases:
  "snd (generate_all be out_dir entries) = Inr ms \<Longrightarrow>
   loader_modules ms =
     List.map_filter (\<lambda>e. case e of Inr name \<Rightarrow> bpf_base be name | Inl _ \<Rightarrow> None) entries"
proof (induction entries arbitrary: ms)
  case Nil
  then show ?case by (simp add: ret_def loader_modules_def List.map_filter_def)
next
  case (Cons entry entries)
  then obtain name where entry: "entry = Inr name" by (cases entry) (auto simp: panic_def)
  from Cons.prems entry obtain ms1 rest where one: "snd (generate_module be out_dir name) = Inr ms1"
    and all: "snd (generate_all be out_dir entries) = Inr rest" and ms: "ms = ms1 @ rest"
    by (auto simp: bind_io_def ret_def split: sum.splits)
  have "loader_modules ms = loader_modules ms1 @ loader_modules rest"
    by (simp add: ms loader_modules_def)
  with generate_module_base [OF one] Cons.IH [OF all] entry show ?case
    by (auto simp: List.map_filter_def split: option.split)
qed

lemma build_main_bases:
  assumes "snd (build_main be) = Inr ms"
  obtains entries where "be_entries be = Inr entries"
    and "loader_modules ms = List.map_filter (\<lambda>e. case e of Inr name \<Rightarrow> bpf_base be name | Inl _ \<Rightarrow> None) entries"
proof -
  from assms obtain out_dir entries where "be_entries be = Inr entries"
    and "snd (generate_all be out_dir entries) = Inr ms"
    by (auto simp: build_main_def write_loader_def panic_def ret_def bind_io_def split: option.splits sum.splits if_splits)
  with generate_all_bases that show thesis by blast
qed

section \<open>The repository's directory\<close>

definition bpf_sources :: "u8 list list" where
  "bpf_sources = map (\<lambda>s. map of_nat (s @ bpf_suffix)) (map fst registered)"

definition other_entries :: "u8 list list" where
  "other_entries = map (\<lambda>s. map of_nat (str s)) [''LICENSE'', ''headers'', ''include'']"

lemma base_of_sources:
  "map (\<lambda>name. if c_source name \<and> ends_with bpf_suffix (utf8_lossy name)
     then Some (trim_end_matches bpf_suffix (utf8_lossy name)) else None) bpf_sources =
   map Some (map fst registered)"
  by code_simp

lemma base_of_others: "list_all (\<lambda>name. \<not> c_source name) other_entries"
  by code_simp

lemma bpf_base_sources:
  assumes "\<forall>name \<in> set bpf_sources. be_is_file be name"
  shows "map (bpf_base be) bpf_sources = map Some (map fst registered)"
proof -
  have "map (bpf_base be) bpf_sources =
    map (\<lambda>name. if c_source name \<and> ends_with bpf_suffix (utf8_lossy name)
       then Some (trim_end_matches bpf_suffix (utf8_lossy name)) else None) bpf_sources"
    using assms by (simp add: bpf_base_def)
  then show ?thesis using base_of_sources by simp
qed

lemma loader_modules_set:
  "set (List.map_filter f xs) = {y. \<exists>x \<in> set xs. f x = Some y}"
  by (induction xs) (auto simp: List.map_filter_simps split: option.split)

section \<open>Properties\<close>

text \<open>
  C28: a build that succeeds over the repository's bpf directory, read in any order and
  whatever else lies there that is no C source, generates a loader whose modules are exactly
  the registered ones, and whose three dispatchers, over the arms the script emits, are the
  operations on that list of modules which the daemon is modelled against.
\<close>

theorem build_matches_registry:
  assumes "snd (build_main be) = Inr ms" and "be_entries be = Inr entries"
    and "{name. Inr name \<in> set entries} = set bpf_sources \<union> others"
    and "\<forall>name \<in> others. \<not> (be_is_file be name \<and> c_source name)" and "\<forall>name \<in> set bpf_sources. be_is_file be name"
  shows "set (loader_modules ms) = fst ` set registered \<and>
    dispatch_load ms ld name capacities hook =
      load_module (ld\<lparr>available_modules := loader_modules ms\<rparr>) name capacities hook \<and>
    dispatch_toggle ms en api skel name active =
      set_module_state en api (ld\<lparr>available_modules := loader_modules ms\<rparr>) skel name active \<and>
    dispatch_get_map ms skel map_name = get_map (ld\<lparr>available_modules := loader_modules ms\<rparr>) skel map_name"
proof -
  let ?base = "\<lambda>e :: rstr + u8 list. case e of Inr name \<Rightarrow> bpf_base be name | Inl _ \<Rightarrow> None"
  have base: "?base e = Some y \<longleftrightarrow> (\<exists>name. e = Inr name \<and> bpf_base be name = Some y)" for e y
    by (cases e) auto
  have "set (loader_modules ms) = {y. \<exists>e \<in> set entries. ?base e = Some y}"
    using build_main_bases [OF assms(1)] assms(2) loader_modules_set by (metis sum.inject(2))
  also have "\<dots> = {y. \<exists>name. Inr name \<in> set entries \<and> bpf_base be name = Some y}"
    by (auto simp: base)
  also have "\<dots> = {y. \<exists>name \<in> set bpf_sources \<union> others. bpf_base be name = Some y}"
    using assms(3) by blast
  also have "\<dots> = {y. \<exists>name \<in> set bpf_sources. bpf_base be name = Some y}"
    using assms(4) by (auto simp: bpf_base_def split: if_splits)
  also have "\<dots> = {y. Some y \<in> set (map (bpf_base be) bpf_sources)}"
    by (auto simp: image_iff eq_commute)
  also have "\<dots> = fst ` set registered"
    unfolding bpf_base_sources [OF assms(5)] by auto
  finally have modules: "set (loader_modules ms) = fst ` set registered" .
  let ?ld = "ld\<lparr>available_modules := loader_modules ms\<rparr>"
  have "available_modules ?ld = loader_modules ms" by simp
  note generated = dispatchers [OF this]
  have "dispatch_load ms ?ld name capacities hook = dispatch_load ms ld name capacities hook"
    by (simp add: dispatch_load_def load_arm_modules)
  with modules generated show ?thesis by simp
qed

definition demo_build :: build_env where
  "demo_build =
     \<lparr>be_out_dir = Some (str ''/out''), be_include_exists = False, be_create_include = True,
      be_vmlinux_path = None, be_copy = (\<lambda>_. False),
      be_bpftool = Inr \<lparr>o_code = Some 0, o_stdout = [], o_stderr = []\<rparr>, be_write = (\<lambda>_. True),
      be_entries = Inr (map Inr (rev bpf_sources @ other_entries)),
      be_is_file = (\<lambda>name. name \<noteq> map of_nat (str ''headers'')), be_skeleton = (\<lambda>_ _. None),
      be_ident = (\<lambda>s. s \<noteq> []), be_upper = (\<lambda>c. [c])\<rparr>"

theorem build_matches_registry_witness:
  "\<exists>ms. snd (build_main demo_build) = Inr ms \<and> set (loader_modules ms) = fst ` set registered \<and>
     dispatch_load ms demo_loader (str ''shield'') [] Inr =
       load_module (demo_loader\<lparr>available_modules := loader_modules ms\<rparr>) (str ''shield'') [] Inr"
proof -
  have "case snd (build_main demo_build) of Inr _ \<Rightarrow> True | Inl _ \<Rightarrow> False" by code_simp
  then obtain ms where ms: "snd (build_main demo_build) = Inr ms"
    by (cases "snd (build_main demo_build)") auto
  have entries: "be_entries demo_build = Inr (map Inr (rev bpf_sources @ other_entries))"
    by (simp add: demo_build_def)
  have names: "{name. Inr name \<in> set (map Inr (rev bpf_sources @ other_entries))} = set bpf_sources \<union> set other_entries"
    by auto
  have others: "\<forall>name \<in> set other_entries. \<not> (be_is_file demo_build name \<and> c_source name)"
    using base_of_others by (simp add: list_all_iff)
  have "list_all (be_is_file demo_build) bpf_sources" by code_simp
  then have files: "\<forall>name \<in> set bpf_sources. be_is_file demo_build name" by (simp add: list_all_iff)
  from build_matches_registry [OF ms entries names others files] ms show ?thesis by blast
qed

end
