(* ===== verification/BB_Xtask_Vm.thy ===== *)
theory BB_Xtask_Vm
  imports BB_Xtask
begin

text \<open>
  \<open>xtask/src/vm.rs\<close>: provisioning of the virtual machine the tests run in, one task per
  routine, with the command lines and the guest scripts of the source.
\<close>

section \<open>Guest scripts\<close>

definition dq :: rstr where "dq = [34]"
definition sq :: rstr where "sq = [39]"
definition bslash :: rstr where "bslash = [92]"

definition inject_cmd :: rstr where
  "inject_cmd =
     concat (map (\<lambda>line. newline @ line)
     [str ''        find tests -mindepth 2 -type f -name '' @ dq @ str ''*.rs'' @ dq
        @ str '' | while read -r f; do'',
      str ''            name=$(basename '' @ dq @ str ''$f'' @ dq @ str '' .rs)'',
      str ''            [ '' @ dq @ str ''$name'' @ dq @ str '' = '' @ dq @ str ''main'' @ dq
        @ str '' ] && continue'',
      str ''            printf '' @ dq @ bslash @ str ''n['' @ str ''[test]]'' @ bslash
        @ str ''nname = '' @ bslash @ dq @ str ''%s'' @ bslash @ dq @ bslash @ str ''npath = '' @ bslash
        @ dq @ str ''../%s'' @ bslash @ dq @ bslash @ str ''n'' @ dq @ str '' '' @ dq @ str ''$name''
        @ dq @ str '' '' @ dq @ str ''$f'' @ dq @ str '' >> core/Cargo.toml'',
      str ''        done'',
      str ''    ''])"

definition enable_lsm_script :: rstr where
  "enable_lsm_script =
     concat (map (\<lambda>line. newline @ line)
     [str ''    export PATH='' @ dq @ str ''$PATH:/usr/sbin:/sbin'' @ dq,
      [],
      str ''    if command -v grubby >/dev/null 2>&1; then'',
      str ''        # Fedora / RHEL Family'',
      str ''        grubby --update-kernel=ALL --args='' @ dq @ str ''lsm=bpf'' @ dq,
      str ''    elif command -v update-grub >/dev/null 2>&1; then'',
      str ''        # Ubuntu / Debian Family'',
      str ''        mkdir -p /etc/default/grub.d'',
      str ''        echo '' @ sq @ str ''GRUB_CMDLINE_LINUX_DEFAULT='' @ dq
        @ str ''${GRUB_CMDLINE_LINUX_DEFAULT} lsm=bpf'' @ dq @ sq
        @ str '' > /etc/default/grub.d/99-bpf-lsm.cfg'',
      str ''        update-grub'',
      str ''    elif command -v grub-mkconfig >/dev/null 2>&1; then'',
      str ''        # Arch Linux / Generic GRUB'',
      str ''        if grep -q '' @ dq @ str ''^GRUB_CMDLINE_LINUX_DEFAULT='' @ dq
        @ str '' /etc/default/grub; then'',
      str ''            sed -i '' @ sq @ str ''s/^GRUB_CMDLINE_LINUX_DEFAULT='' @ dq
        @ str ''/GRUB_CMDLINE_LINUX_DEFAULT='' @ dq @ str ''lsm=bpf /'' @ sq @ str '' /etc/default/grub'',
      str ''        else'',
      str ''            echo '' @ sq @ str ''GRUB_CMDLINE_LINUX_DEFAULT='' @ dq @ str ''lsm=bpf'' @ dq
        @ sq @ str '' >> /etc/default/grub'',
      str ''        fi'',
      str ''        grub-mkconfig -o /boot/grub/grub.cfg'',
      str ''    elif [ -d '' @ dq @ str ''/boot/loader/entries'' @ dq @ str '' ]; then'',
      str ''        # Systemd-boot fallback (used by some Arch cloud images)'',
      str ''        for conf in /boot/loader/entries/*.conf; do'',
      str ''            if grep -q '' @ dq @ str ''^options'' @ dq @ str '' '' @ dq @ str ''$conf'' @ dq
        @ str ''; then'',
      str ''                sed -i '' @ sq @ str ''s/^options.*/& lsm=bpf/'' @ sq @ str '' '' @ dq
        @ str ''$conf'' @ dq,
      str ''            fi'',
      str ''        done'',
      str ''    else'',
      str ''        echo '' @ dq @ str ''Error: No recognized bootloader management tool found. Cannot configure LSM.'' @ dq @ str '' >&2'',
      str ''        exit 1'',
      str ''    fi'',
      []])"

section \<open>The base image\<close>

definition image_entry :: "rstr \<Rightarrow> (rstr + u8 list) list \<Rightarrow> u8 list option" where
  "image_entry image_alias entries =
     List.find (\<lambda>name. starts_with (image_alias @ str ''.tar'') (utf8_lossy name))
       (List.map_filter (\<lambda>e. case e of Inr name \<Rightarrow> Some name | Inl _ \<Rightarrow> None) entries)"

definition import_image :: "rstr \<Rightarrow> rstr \<Rightarrow> unit task" where
  "import_image image_alias img =
     bind_task (run (incus [str ''image'', str ''import'', img, str ''--alias'', image_alias])) (\<lambda>r. case r of
       Inl e \<Rightarrow> error (str ''Incus import failed: '' @ e)
     | Inr import_out \<Rightarrow>
         if succeeded import_out then give ()
         else (let stderr = utf8_lossy (o_stderr import_out)
               in if contains_str (str ''already exists'') stderr
                  then bind_task (say (str ''[INFO] Abstracting existing fingerprint constraint via direct alias...''))
                    (\<lambda>_. bind_task (run \<lparr>c_prog = str ''sha256sum'', c_args = [img], c_dir = None\<rparr>) (\<lambda>s. case s of
                       Inl e \<Rightarrow> error e
                     | Inr sha_out \<Rightarrow>
                         (let fingerprint =
                            (case split_whitespace (utf8_lossy (o_stdout sha_out)) of w # _ \<Rightarrow> w | [] \<Rightarrow> [])
                          in execute_cmd
                               (incus [str ''image'', str ''alias'', str ''create'', image_alias, fingerprint])
                               (str ''Failed to bypass alias lock''))))
                  else error (str ''Image synchronization error:'' @ newline @ stderr)))"

definition ensure_base_image :: "rstr \<Rightarrow> unit task" where
  "ensure_base_image image_alias =
     bind_task (run (incus [str ''image'', str ''info'', image_alias])) (\<lambda>r.
       if run_succeeded r then give ()
       else bind_task (say (str ''[INFO] Synchronizing base image '' @ quoted image_alias @ str '' to Incus database...''))
         (\<lambda>_. bind_task project_root (\<lambda>root. bind_task (read_dir (join_path root (str ''tests''))) (\<lambda>listed.
           case image_entry image_alias (case listed of Inr entries \<Rightarrow> entries | Inl _ \<Rightarrow> []) of
             None \<Rightarrow>
               error (str ''Pre-compiled test image '' @ quoted image_alias
                 @ str '' missing. Run `scripts/build_image.sh -out '' @ image_alias @ str ''`.'')
           | Some name \<Rightarrow>
               (case to_str name of
                  None \<Rightarrow> unwind
                | Some n \<Rightarrow> import_image image_alias (join_path (join_path root (str ''tests'')) n))))))"

section \<open>The network\<close>

definition ensure_no_network_profile :: "unit task" where
  "ensure_no_network_profile =
     bind_task (say (str ''[INFO] Ensuring '' @ quoted (str ''bb-no-network'') @ str '' profile is correctly configured...''))
       (\<lambda>_. bind_task (run (incus [str ''profile'', str ''show'', str ''bb-no-network''])) (\<lambda>shown.
         bind_task
           (if \<not> run_succeeded shown
            then steps
              [say (str ''[INFO] Creating '' @ quoted (str ''bb-no-network'') @ str '' profile from default...''),
               execute_cmd (incus [str ''profile'', str ''copy'', str ''default'', str ''bb-no-network''])
                 (str ''Failed to copy default profile'')]
            else say (str ''[INFO] '' @ quoted (str ''bb-no-network'') @ str '' profile already exists.''))
           (\<lambda>_. bind_task
             (run (incus [str ''profile'', str ''device'', str ''remove'', str ''bb-no-network'', str ''eth0''])) (\<lambda>r.
             case r of
               Inr out \<Rightarrow>
                 if succeeded out
                 then say (str ''[INFO] Removed eth0 from '' @ quoted (str ''bb-no-network'') @ str '' profile.'')
                 else (let stderr = utf8_lossy (o_stderr out)
                       in if contains_str (str ''doesn'' @ sq @ str ''t exist'') stderr
                          then say (str ''[INFO] No eth0 device present (already air-gapped).'')
                          else error (str ''Failed to remove eth0 from profile:'' @ newline @ stderr))
             | Inl e \<Rightarrow> error (str ''Failed to execute incus profile device remove: '' @ e)))))"

definition assign_airgap :: command where
  "assign_airgap = incus [str ''profile'', str ''assign'', vm_name, str ''bb-no-network'']"

definition enforce_airgap :: "unit task" where
  "enforce_airgap = steps
     [say (str ''[INFO] Severing network connection for test isolation...''),
      ensure_no_network_profile,
      execute_cmd assign_airgap (str ''Failed to assign air-gapped profile'')]"

definition show_links :: command where
  "show_links = incus [str ''exec'', vm_name, str ''--'', str ''ip'', str ''-o'', str ''link'', str ''show'']"

definition assert_no_network :: "unit task" where
  "assert_no_network =
     bind_task (run show_links) (\<lambda>r. case r of
       Inl e \<Rightarrow> error (str ''Failed to inspect VM network: '' @ e)
     | Inr out \<Rightarrow>
         if contains_str (str ''eth0'') (utf8_lossy (o_stdout out))
         then error (str ''Air-gap violation: eth0 interface detected'')
         else say (str ''[SECURITY] Verified: no network interfaces present.''))"

section \<open>The machine\<close>

definition launch_args :: "rstr \<Rightarrow> command" where
  "launch_args image_alias =
     incus [str ''launch'', image_alias, vm_name, str ''--vm'', str ''-c'', str ''security.secureboot=false'',
       str ''-c'', str ''limits.cpu=4'', str ''-c'', str ''limits.memory=8GB'']"

definition launch_instance :: "rstr \<Rightarrow> unit task" where
  "launch_instance image_alias = steps
     [say (str ''[INFO] Spawning isolated guest environment ('' @ vm_name @ str '')...''),
      execute_cmd (launch_args image_alias) (str ''Guest initialization failed'')]"

definition tarball_path :: "u8 list \<Rightarrow> u8 list" where
  "tarball_path dir =
     (let file = map of_nat (str ''bb-src-bundle.tar.gz'')
      in if dir \<noteq> [] \<and> last dir = 47 then dir @ file else dir @ 47 # file)"

definition transfer_workspace :: "unit task" where
  "transfer_workspace =
     bind_task (say (str ''[INFO] Packaging and injecting source workspace...'')) (\<lambda>_.
     bind_task project_root (\<lambda>root.
     bind_task temp_dir (\<lambda>dir.
       case to_str (tarball_path dir) of
         None \<Rightarrow> unwind
       | Some tarball \<Rightarrow> steps
           [execute_cmd
              \<lparr>c_prog = str ''tar'',
               c_args = [str ''--exclude=target'', str ''--exclude=.git'', str ''--exclude=*.tar.*'', str ''-czf'',
                 tarball, str ''.''], c_dir = Some root\<rparr>
              (str ''Failed to archive host workspace''),
            execute_cmd
              (incus [str ''file'', str ''push'', tarball, vm_name @ str ''/root/src-bundle.tar.gz''])
              (str ''Host-to-Guest file injection failed''),
            remove_file (tarball_path dir),
            execute_cmd
              (incus [str ''exec'', vm_name, str ''--'', str ''bash'', str ''-c'',
                 str ''mkdir -p /workspace && tar -xzf /root/src-bundle.tar.gz -C /workspace''])
              (str ''Guest extraction phase failed'')])))"

definition compile_workspace :: "unit task" where
  "compile_workspace = steps
     [say (str ''[INFO] Executing cross-environment compilation phase...''),
      incus_exec inject_cmd,
      incus_exec (str ''cargo clean -q && cargo build -q --release --workspace --all-targets''),
      say (str ''[INFO] Committing VFS page cache to persistent storage...''),
      incus_exec (str ''sync''),
      sleep_secs 3]"

definition mask_services :: rstr where
  "mask_services =
     str ''systemctl mask systemd-networkd-wait-online.service NetworkManager-wait-online.service '' @
     str ''cloud-init.service cloud-config.service cloud-final.service cloud-init-local.service''"

definition inject_kernel_parameters :: "unit task" where
  "inject_kernel_parameters =
     bind_task (say (str ''[INFO] Activating eBPF LSM subsystem in guest kernel...'')) (\<lambda>_.
     bind_task (run (incus [str ''exec'', vm_name, str ''--'', str ''bash'', str ''-c'', enable_lsm_script])) (\<lambda>r.
       case r of
         Inl _ \<Rightarrow> unwind
       | Inr status \<Rightarrow>
           if \<not> succeeded status
           then bind_task (warn (str ''[FATAL] Pipeline terminated: Guest command failed to update GRUB.''))
                  (\<lambda>_. quit 1)
           else bind_task (say (str ''[INFO] Masking network-wait and cloud services to prevent airgap boot/shutdown hangs...''))
             (\<lambda>_. bind_task (attempt (incus_exec (mask_services)))
             (\<lambda>_. steps
                [say (str ''[INFO] Re-initializing kernel via cold boot...''),
                 execute_cmd (incus [str ''restart'', vm_name]) (str ''VM reboot procedure failed''),
                 await_guest_agent]))))"

definition create_snapshot_args :: command where
  "create_snapshot_args = incus [str ''snapshot'', str ''create'', vm_name, snapshot_name]"

definition create_snapshot :: "unit task" where
  "create_snapshot = steps
     [say (str ''[INFO] Capturing immutable state vector for test resets...''),
      execute_cmd (incus [str ''stop'', vm_name]) (str ''Failed to gracefully halt VM''),
      execute_cmd create_snapshot_args (str ''Snapshot generation aborted'')]"

definition provision_default_config :: "unit task" where
  "provision_default_config = steps
     [say (str ''[INFO] Provisioning default daemon configuration for test environment...''),
      incus_exec
        (str ''mkdir -p /etc/bouclier-bleu && '' @ str ''cp /workspace/config.toml /etc/bouclier-bleu/config.toml && ''
         @ str ''chown root:root /etc/bouclier-bleu/config.toml && ''
         @ str ''chmod 600 /etc/bouclier-bleu/config.toml'')]"

definition delete_vm :: command where
  "delete_vm = incus [str ''delete'', vm_name, str ''--force'']"

definition setup_and_snapshot_vm :: "rstr \<Rightarrow> nat task" where
  "setup_and_snapshot_vm image_alias =
     bind_task (say (newline @ str ''[INFO] Provisioning Base Incus VM Environment (Image: '' @ image_alias @ str '')...''))
     (\<lambda>_. bind_task now (\<lambda>start.
     bind_task (ensure_base_image image_alias) (\<lambda>_.
     bind_task (run delete_vm) (\<lambda>_.
     bind_task (steps
       [launch_instance image_alias,
        await_guest_agent,
        transfer_workspace,
        provision_default_config,
        compile_workspace,
        enforce_airgap,
        inject_kernel_parameters,
        assert_no_network,
        create_snapshot,
        say (str ''[SUCCESS] VM Environment provisioned and snapshotted.'')]) (\<lambda>_.
     bind_task now (\<lambda>t. give (t - start)))))))"

definition restore_args :: command where
  "restore_args = incus [str ''snapshot'', str ''restore'', vm_name, snapshot_name]"

definition start_args :: command where
  "start_args = incus [str ''start'', vm_name]"

definition restore_vm_snapshot :: "nat task" where
  "restore_vm_snapshot =
     bind_task now (\<lambda>start.
     bind_task (run (incus [str ''stop'', vm_name, str ''--force''])) (\<lambda>_.
     bind_task (steps
       [execute_cmd restore_args (str ''VM state reversion failed''),
        execute_cmd start_args (str ''Failed to resurrect VM from snapshot''),
        await_guest_agent]) (\<lambda>_.
     bind_task now (\<lambda>t. give (t - start)))))"

definition prepare_test_image :: "rstr \<Rightarrow> unit task" where
  "prepare_test_image image_alias =
     bind_task project_root (\<lambda>root.
     bind_task (path_exists (join_path root (str ''tests/'' @ image_alias @ str ''.tar.gz''))) (\<lambda>gz.
     bind_task (if gz then give True
                else path_exists (join_path root (str ''tests/'' @ image_alias @ str ''.tar.xz''))) (\<lambda>found.
       if found then give ()
       else steps
         [say (str ''[INFO] Pre-compiled testing artifact '' @ quoted image_alias
            @ str '' missing. Initiating build sequence...''),
          execute_cmd
            \<lparr>c_prog = str ''bash'',
             c_args = [join_path root (str ''scripts/build_image.sh''), str ''-os'', str ''ubuntu'', str ''-out'', image_alias],
             c_dir = Some root\<rparr>
            (str ''Upstream base-image compilation script failed'')])))"

end
