(* ===== verification/BB_Xtask_Runner.thy ===== *)
theory BB_Xtask_Runner
  imports BB_Xtask_Vm
begin

text \<open>
  \<open>xtask/src/report.rs\<close>, \<open>xtask/src/runner.rs\<close> and \<open>xtask/src/main.rs\<close>: the report, the
  guard that deletes the machine, the suites and the command line.
\<close>

section \<open>The report\<close>

record test_record =
  tr_name :: rstr
  tr_category :: rstr
  tr_duration :: nat
  tr_passed :: bool

text \<open>
  \<open>Duration::as_secs_f64\<close> and \<open>{:.2}\<close>. A double is a pair \<open>m\<close>, \<open>e\<close> for \<open>m / 2 ^ e\<close>; a
  quotient is scaled until it has 53 bits and rounded half to even, as is the sum with the
  whole seconds, and so is the printed number of hundredths.
\<close>

definition half_even :: "nat \<Rightarrow> nat \<Rightarrow> nat" where
  "half_even p q =
     (let d = p div q; r = p mod q
      in if 2 * r < q \<or> (2 * r = q \<and> even d) then d else d + 1)"

fun scale_up :: "nat \<Rightarrow> nat \<Rightarrow> nat \<Rightarrow> nat \<Rightarrow> nat \<times> nat" where
  "scale_up 0 p q e = (p, e)"
| "scale_up (Suc fuel) p q e = (if q * 2 ^ 52 \<le> p then (p, e) else scale_up fuel (2 * p) q (Suc e))"

definition div_f64 :: "nat \<Rightarrow> nat \<Rightarrow> nat \<times> nat" where
  "div_f64 p q = (if p = 0 then (0, 0) else (case scale_up 128 p q 0 of (p', e) \<Rightarrow> (half_even p' q, e)))"

fun drop_bits :: "nat \<Rightarrow> nat \<Rightarrow> nat \<Rightarrow> nat" where
  "drop_bits 0 m s = s"
| "drop_bits (Suc fuel) m s = (if m < 2 ^ (53 + s) then s else drop_bits fuel m (Suc s))"

definition add_f64 :: "nat \<Rightarrow> nat \<times> nat \<Rightarrow> nat \<times> nat" where
  "add_f64 n x =
     (case x of (m, e) \<Rightarrow>
       (let t = n * 2 ^ e + m; s = drop_bits 128 t 0 in (half_even t (2 ^ s) * 2 ^ s, e)))"

definition as_secs_f64 :: "nat \<Rightarrow> nat \<times> nat" where
  "as_secs_f64 nanos = add_f64 (nanos div 10 ^ 9) (div_f64 (nanos mod 10 ^ 9) (10 ^ 9))"

definition two_decimals :: "nat \<times> nat \<Rightarrow> rstr" where
  "two_decimals x =
     (case x of (m, e) \<Rightarrow>
       (let c = half_even (100 * m) (2 ^ e)
        in show_nat (c div 100) @ str ''.'' @ [48 + c mod 100 div 10, 48 + c mod 10]))"

definition seconds :: "nat \<Rightarrow> rstr" where
  "seconds nanos = two_decimals (as_secs_f64 nanos)"

definition report_header :: rstr where
  "report_header =
     str ''# Bouclier Bleu Test Results'' @ newline @ newline
     @ str ''| Test Name | Category | Duration | Status |'' @ newline
     @ str ''|-----------|----------|----------|--------|'' @ newline"

definition report_row :: "test_record \<Rightarrow> rstr" where
  "report_row res =
     str ''| `'' @ tr_name res @ str ''` | '' @ tr_category res @ str '' | '' @ seconds (tr_duration res)
       @ str ''s | '' @ (if tr_passed res then str ''PASS'' else str ''FAIL'') @ str '' |'' @ newline"

definition report_metrics :: "nat \<Rightarrow> nat \<Rightarrow> rstr" where
  "report_metrics setup_time restore_time =
     newline @ str ''## Pipeline Environment Metrics'' @ newline @ newline
     @ str ''* **Initial VM Setup & Snapshot:** `'' @ seconds setup_time @ str ''s`'' @ newline
     @ str ''* **Cumulative Snapshot Restorations:** `'' @ seconds restore_time @ str ''s`'' @ newline"

definition read_text :: "rstr \<Rightarrow> rstr option task" where
  "read_text p = request_task (\<lambda>env h. xe_read_text env h p) (Loaded p)"

definition append_file :: "rstr \<Rightarrow> rstr \<Rightarrow> bool task" where
  "append_file p text = request_task (\<lambda>env h. xe_append env h p) (Appended p text)"

definition write_file :: "rstr \<Rightarrow> rstr \<Rightarrow> unit task" where
  "write_file p text =
     bind_task (request_task (\<lambda>env h. xe_write env h p) (Wrote p text))
       (\<lambda>r. case r of None \<Rightarrow> give () | Some e \<Rightarrow> error e)"

definition bench_file :: "rstr \<Rightarrow> rstr" where
  "bench_file root = join_path (join_path root (str ''tests'')) (str ''benchmark_results.md'')"

definition results_file :: "rstr \<Rightarrow> rstr" where
  "results_file root = join_path (join_path root (str ''tests'')) (str ''Results.md'')"

definition generate_markdown_report :: "test_record list \<Rightarrow> nat \<Rightarrow> nat \<Rightarrow> unit task" where
  "generate_markdown_report results setup_time restore_time =
     (if results = []
      then say (str ''[INFO] No tests were executed. Skipping report generation.'')
      else
        (let report = report_header @ concat (map report_row results) @ report_metrics setup_time restore_time
         in bind_task project_root (\<lambda>root.
            bind_task (path_exists (bench_file root)) (\<lambda>found.
            bind_task
              (if found
               then bind_task (read_text (bench_file root)) (\<lambda>bench_data.
                      bind_task (remove_file (utf8_encode (bench_file root))) (\<lambda>_.
                        give (case bench_data of Some text \<Rightarrow> report @ newline @ text | None \<Rightarrow> report)))
               else give report) (\<lambda>report.
            steps
              [write_file (results_file root) report,
               say (newline @ str ''[INFO] Test report successfully generated at '' @ results_file root)])))))"

section \<open>The guard\<close>

text \<open>
  \<open>let _guard = VmGuard\<close>: its \<open>drop\<close> runs when the scope is left by a value, an error or a
  panic; \<open>process::exit\<close> runs no destructor.
\<close>

definition vm_guard_drop :: "unit task" where
  "vm_guard_drop =
     bind_task (say (newline @ str ''[INFO] Terminating ephemeral test environment ('' @ vm_name @ str '')...''))
       (\<lambda>_. bind_task (run delete_vm) (\<lambda>_. give ()))"

definition with_vm_guard :: "'a task \<Rightarrow> 'a task" where
  "with_vm_guard t = (\<lambda>env h.
     case t env h of
       (Quit n, h1) \<Rightarrow> (Quit n, h1)
     | (r, h1) \<Rightarrow> (r, snd (vm_guard_drop env h1)))"

section \<open>The suites\<close>

definition extract_metrics :: "rstr \<Rightarrow> bool \<Rightarrow> unit task" where
  "extract_metrics dir_name passed =
     (if dir_name = str ''benchmark'' \<and> passed
      then bind_task
        (run (incus [str ''exec'', vm_name, str ''--'', str ''cat'', str ''/workspace/benchmark_results.md''])) (\<lambda>r.
          case r of
            Inr out \<Rightarrow>
              if succeeded out
              then bind_task project_root (\<lambda>root.
                     bind_task (append_file (bench_file root) (utf8_lossy (o_stdout out))) (\<lambda>_. give ()))
              else give ()
          | Inl _ \<Rightarrow> give ())
      else give ())"

text \<open>One file of a suite: restore, run in the guest, record.\<close>

definition run_test_file ::
    "rstr \<Rightarrow> rstr \<Rightarrow> (rstr \<Rightarrow> rstr \<Rightarrow> rstr) \<Rightarrow> u8 list \<Rightarrow> (test_record \<times> nat) task" where
  "run_test_file dir_name ext build_cmd name =
     (let stem = utf8_lossy (path_file_stem name);
          full_name = utf8_lossy name;
          display_name = (if ext = str ''sh'' then full_name else stem)
      in bind_task (say (newline @ str ''[INFO] Reverting environment to clean state for '' @ display_name @ str ''...''))
         (\<lambda>_. bind_task restore_vm_snapshot (\<lambda>restore_time.
         bind_task (say (str ''[INFO] Executing '' @ display_name @ str ''...'')) (\<lambda>_.
         bind_task now (\<lambda>start_time.
         bind_task (attempt (incus_exec (build_cmd stem full_name))) (\<lambda>result.
         bind_task now (\<lambda>t.
         (let passed = (case result of Inr _ \<Rightarrow> True | Inl _ \<Rightarrow> False)
          in bind_task (extract_metrics dir_name passed) (\<lambda>_.
             bind_task
               (case result of
                  Inl err \<Rightarrow> steps
                    [warn (newline @ str ''[ERROR] '' @ dir_name @ str '' test failed: '' @ display_name), warn err]
                | Inr _ \<Rightarrow> say (str ''[SUCCESS] Passed: '' @ display_name)) (\<lambda>_.
             give (\<lparr>tr_name = display_name, tr_category = dir_name, tr_duration = t - start_time,
                    tr_passed = passed\<rparr>, restore_time)))))))))))"

definition selected :: "rstr option \<Rightarrow> u8 list \<Rightarrow> bool" where
  "selected target_test name =
     (case target_test of
        None \<Rightarrow> True
      | Some target \<Rightarrow> target = utf8_lossy (path_file_stem name) \<or> target = utf8_lossy name)"

definition has_extension :: "rstr \<Rightarrow> u8 list \<Rightarrow> bool" where
  "has_extension ext name \<longleftrightarrow>
     (case path_extension name of Some e \<Rightarrow> e | None \<Rightarrow> []) = utf8_encode ext"

definition run_entry ::
    "rstr \<Rightarrow> rstr \<Rightarrow> rstr \<Rightarrow> rstr option \<Rightarrow> (rstr \<Rightarrow> rstr \<Rightarrow> rstr) \<Rightarrow> rstr + u8 list \<Rightarrow>
     test_record list \<times> nat \<Rightarrow> (test_record list \<times> nat) task" where
  "run_entry suite_dir dir_name ext target build_cmd entry acc =
     (case entry of
        Inl e \<Rightarrow> unwind
      | Inr name \<Rightarrow>
          bind_task (is_file suite_dir name) (\<lambda>file.
            if file \<and> has_extension ext name \<and> selected target name
            then bind_task (run_test_file dir_name ext build_cmd name)
                   (\<lambda>(rec, time). give (fst acc @ [rec], snd acc + time))
            else give acc))"

primrec run_entries ::
    "(rstr + u8 list \<Rightarrow> test_record list \<times> nat \<Rightarrow> (test_record list \<times> nat) task) \<Rightarrow> (rstr + u8 list) list \<Rightarrow>
     test_record list \<times> nat \<Rightarrow> (test_record list \<times> nat) task" where
  "run_entries body [] acc = give acc"
| "run_entries body (entry # entries) acc = bind_task (body entry acc) (\<lambda>acc. run_entries body entries acc)"

definition run_test_suite ::
    "rstr \<Rightarrow> rstr \<Rightarrow> rstr \<Rightarrow> rstr option \<Rightarrow> (rstr \<Rightarrow> rstr \<Rightarrow> rstr) \<Rightarrow> (test_record list \<times> nat) task" where
  "run_test_suite title dir_name ext target build_cmd =
     bind_task project_root (\<lambda>root.
       let suite_dir = join_path (join_path root (str ''tests'')) dir_name
       in bind_task (path_exists suite_dir) (\<lambda>found.
          if \<not> found
          then bind_task (say (str ''[INFO] No '' @ dir_name @ str '' test artifacts located. Bypassing phase.''))
                 (\<lambda>_. give ([], 0))
          else bind_task (say (newline @ str ''[INFO] Executing '' @ title @ str '' Tests...'')) (\<lambda>_.
               bind_task (read_dir suite_dir) (\<lambda>listed.
                 case listed of
                   Inl e \<Rightarrow> error (str ''IO Error reading '' @ dir_name @ str '' dir: '' @ e)
                 | Inr entries \<Rightarrow> run_entries (run_entry suite_dir dir_name ext target build_cmd) entries ([], 0)))))"

definition run_unit_tests :: "rstr option \<Rightarrow> (test_record list \<times> nat) task" where
  "run_unit_tests target =
     bind_task (steps
       [say (newline @ str ''[INFO] Executing Inline Unit Tests...''),
        say (str ''[INFO] Reverting environment to clean state for Unit Tests...'')]) (\<lambda>_.
     bind_task restore_vm_snapshot (\<lambda>restore_time.
     (let target_filter = (case target of Some t \<Rightarrow> t | None \<Rightarrow> [])
      in bind_task now (\<lambda>start_time.
         bind_task (attempt (incus_exec (str ''cargo test -q --release --workspace --lib '' @ target_filter)))
         (\<lambda>result. bind_task now (\<lambda>t.
         (let display_name =
            (if target_filter = [] then str ''Workspace Unit Tests'' else str ''Unit Filter: '' @ target_filter)
          in bind_task
               (case result of
                  Inl err \<Rightarrow> steps [warn (newline @ str ''[ERROR] Unit test suite failed.''), warn err]
                | Inr _ \<Rightarrow> say (str ''[SUCCESS] Passed: '' @ display_name)) (\<lambda>_.
             give ([\<lparr>tr_name = display_name, tr_category = str ''unit'', tr_duration = t - start_time,
                     tr_passed = (case result of Inr _ \<Rightarrow> True | Inl _ \<Rightarrow> False)\<rparr>], restore_time)))))))))"

definition execute_suite ::
    "rstr \<Rightarrow> rstr option \<Rightarrow> test_record list \<times> nat \<Rightarrow> (test_record list \<times> nat) task" where
  "execute_suite cat target acc =
     bind_task
       (if cat = str ''unit'' then run_unit_tests target
        else if cat = str ''component''
        then run_test_suite (str ''Component (eBPF Defenses)'') (str ''component'') (str ''sh'') target
               (\<lambda>_ full. str ''bash tests/component/'' @ full)
        else if cat = str ''integration''
        then run_test_suite (str ''Integration'') (str ''integration'') (str ''rs'') target
               (\<lambda>stem _. str ''cargo test -q --release --test '' @ stem)
        else if cat = str ''benchmark''
        then run_test_suite (str ''Benchmark'') (str ''benchmark'') (str ''rs'') target
               (\<lambda>stem _. str ''cargo test -q --release --test '' @ stem @ str '' -- --nocapture'')
        else if cat = str ''fuzzing'' \<or> cat = str ''threat''
        then bind_task (say (str ''[WARN] The '' @ quoted cat
               @ str '' test suite requires strict network air-gapping and is restricted.''))
               (\<lambda>_. give ([], 0))
        else error (str ''Unknown test category: '' @ cat))
       (\<lambda>(res, time). give (fst acc @ res, snd acc + time))"

definition run_categories :: "rstr option \<Rightarrow> rstr option \<Rightarrow> (test_record list \<times> nat) task" where
  "run_categories category target_test =
     (if category = None \<or> category = Some (str ''all'')
      then bind_task (say (newline @ str ''[INFO] Initiating public Bouclier Bleu test suites...'')) (\<lambda>_.
           bind_task (execute_suite (str ''unit'') None ([], 0)) (\<lambda>acc.
           bind_task (execute_suite (str ''component'') None acc) (\<lambda>acc.
           execute_suite (str ''integration'') None acc)))
      else execute_suite (the category) target_test ([], 0))"

definition conclude :: "nat \<Rightarrow> test_record list \<times> nat \<Rightarrow> unit task" where
  "conclude setup_time acc =
     bind_task (attempt (generate_markdown_report (fst acc) setup_time (snd acc))) (\<lambda>reported.
     bind_task
       (case reported of
          Inl e \<Rightarrow> warn (str ''[ERROR] Failed to generate markdown report: '' @ e)
        | Inr _ \<Rightarrow> give ()) (\<lambda>_.
     if list_all tr_passed (fst acc)
     then say (newline @ str ''[SUCCESS] Test suite execution completed with zero failures.'')
     else error (str ''One or more test suites failed validation.'')))"

definition run_tests :: "rstr option \<Rightarrow> rstr option \<Rightarrow> rstr \<Rightarrow> unit task" where
  "run_tests category target_test image_alias =
     bind_task (prepare_test_image image_alias) (\<lambda>_.
       with_vm_guard
         (bind_task (setup_and_snapshot_vm image_alias) (\<lambda>setup_time.
          bind_task (run_categories category target_test) (\<lambda>acc.
          conclude setup_time acc))))"

section \<open>The command line\<close>

definition is_img_flag :: "rstr \<Rightarrow> bool" where
  "is_img_flag a \<longleftrightarrow> a = str ''-img'' \<or> a = str ''--img''"

definition default_image :: rstr where
  "default_image = str ''bouclier-bleu-test-base''"

text \<open>The image and the arguments left, or nothing when the flag has no value.\<close>

definition extract_image :: "rstr list \<Rightarrow> (rstr \<times> rstr list) option" where
  "extract_image args =
     (case position is_img_flag args of
        None \<Rightarrow> Some (default_image, args)
      | Some idx \<Rightarrow>
          if idx + 1 < length args then Some (args ! (idx + 1), take idx args @ drop (idx + 2) args)
          else None)"

definition usage :: "unit task" where
  "usage = steps (map (\<lambda>line. warn line)
     [str ''Bouclier Bleu Build & Test Pipeline'',
      str ''Usage:'',
      str ''  cargo xtask [-img <image>] prepare-image           - Builds the base testing VM image'',
      str ''  cargo xtask [-img <image>] test                    - Runs all public test suites in VM'',
      str ''  cargo xtask [-img <image>] test unit               - Runs all inline Rust unit tests in VM'',
      str ''  cargo xtask [-img <image>] test component          - Runs all module component tests in VM'',
      str ''  cargo xtask [-img <image>] test integration        - Runs all integration tests in VM'',
      str ''  cargo xtask [-img <image>] test benchmark          - Runs all benchmarks in VM'',
      str ''  cargo xtask [-img <image>] test <category> [test]  - Runs a specific test file within a category'',
      str ''  cargo xtask [-img <image>] test <fuzz/threat>      - Restricted Private Suites''])"

definition dispatch :: "rstr \<Rightarrow> rstr list \<Rightarrow> unit task" where
  "dispatch target_image args =
     (case args of
        [] \<Rightarrow> bind_task usage (\<lambda>_. quit 1)
      | sub # rest \<Rightarrow>
          if sub = str ''prepare-image'' then prepare_test_image target_image
          else if sub = str ''test''
          then run_tests (case rest of c # _ \<Rightarrow> Some c | [] \<Rightarrow> None)
                 (case rest of _ # t # _ \<Rightarrow> Some t | _ \<Rightarrow> None) target_image
          else bind_task usage (\<lambda>_. quit 1))"

definition xtask_main :: "rstr list \<Rightarrow> unit task" where
  "xtask_main args =
     (case extract_image args of
        None \<Rightarrow> bind_task (warn (str ''Error: -img flag requires an image name argument.'')) (\<lambda>_. quit 1)
      | Some (target_image, rest) \<Rightarrow>
          bind_task (attempt (dispatch target_image rest)) (\<lambda>result.
            case result of
              Inl err \<Rightarrow> bind_task (warn (newline @ str ''[FATAL] Pipeline terminated: '' @ err)) (\<lambda>_. quit 1)
            | Inr _ \<Rightarrow> give ()))"

end
