(* ===== verification/BB_Xtask_Safety.thy ===== *)
theory BB_Xtask_Safety
  imports BB_Xtask_Runner
begin

text \<open>
  What the histories of the build automation look like, whatever the commands answer.
  Weakest preconditions turn a task into conditions on the histories it may leave; a locale
  reads a history through a state machine that only commands move, and is interpreted by the
  life of the virtual machine. The properties say when tests may run, what a run leaves
  behind and what its success means.
\<close>

section \<open>Weakest preconditions\<close>

text \<open>\<open>N\<close> for a value, \<open>E\<close> for an error (with its message) or a panic, \<open>X\<close> for an exit.\<close>

definition wp :: "'a task \<Rightarrow> ('a \<Rightarrow> event list \<Rightarrow> bool) \<Rightarrow> (rstr option \<Rightarrow> event list \<Rightarrow> bool) \<Rightarrow>
    (event list \<Rightarrow> bool) \<Rightarrow> xenv \<Rightarrow> event list \<Rightarrow> bool" where
  "wp t N E X env h =
     (case t env h of
        (Value a, h1) \<Rightarrow> N a h1
      | (Error msg, h1) \<Rightarrow> E (Some msg) h1
      | (Quit n, h1) \<Rightarrow> X h1
      | (Unwound, h1) \<Rightarrow> E None h1)"

lemma wp_basic [simp]:
  "wp (give a) N E X env h = N a h"
  "wp (error msg) N E X env h = E (Some msg) h"
  "wp (quit n) N E X env h = X h"
  "wp unwind N E X env h = E None h"
  by (simp_all add: wp_def give_def error_def quit_def unwind_def)

lemma wp_bind [simp]:
  "wp (bind_task t f) N E X env h = wp t (\<lambda>a h1. wp (f a) N E X env h1) E X env h"
  by (simp add: wp_def bind_task_def split: prod.split flow.split)

lemma wp_attempt [simp]:
  "wp (attempt t) N E X env h =
     wp t (\<lambda>a. N (Inr a)) (\<lambda>m. case m of Some msg \<Rightarrow> N (Inl msg) | None \<Rightarrow> E None) X env h"
  by (simp add: wp_def attempt_def split: prod.split flow.split)

lemma wp_request [simp]:
  "wp (request_task ask log) N E X env h = N (ask env h) (h @ [log (ask env h)])"
  by (simp add: wp_def request_task_def Let_def)

lemmas request_defs = say_def warn_def sleep_secs_def now_def path_exists_def is_file_def read_dir_def
  remove_file_def read_text_def append_file_def write_file_def

lemma wp_run [simp]: "wp (run c) N E X env h = N (xe_run env h c) (h @ [Ran c (xe_run env h c)])"
  by (simp add: run_def)

lemma wp_project_root:
  "(\<And>p. N p h) \<Longrightarrow> E None h \<Longrightarrow> wp project_root N E X env h"
  by (simp add: wp_def project_root_def split: option.split)

lemma wp_mono:
  assumes "wp t N E X env h" "\<And>a h1. N a h1 \<Longrightarrow> N' a h1" "\<And>m h1. E m h1 \<Longrightarrow> E' m h1" "\<And>h1. X h1 \<Longrightarrow> X' h1"
  shows "wp t N' E' X' env h"
  using assms by (auto simp: wp_def split: prod.splits flow.splits)

lemma wp_execute:
  "(\<And>r. run_succeeded r \<Longrightarrow> N () (h @ [Ran c r])) \<Longrightarrow> (\<And>m r. \<not> run_succeeded r \<Longrightarrow> E m (h @ [Ran c r])) \<Longrightarrow>
   wp (execute_cmd c msg) N E X env h"
  by (simp add: execute_cmd_def run_succeeded_def split: sum.split)

lemma wp_guest:
  "(\<And>r. run_succeeded r \<Longrightarrow> N () (h @ [Ran (guest_command l) r])) \<Longrightarrow>
   (\<And>m r. \<not> run_succeeded r \<Longrightarrow> E (Some m) (h @ [Ran (guest_command l) r])) \<Longrightarrow> wp (incus_exec l) N E X env h"
  by (simp add: incus_exec_def run_succeeded_def split: sum.split)

lemma wp_guard [simp]:
  "wp (with_vm_guard t) N E X env h =
     wp t (\<lambda>a h1. N a (snd (vm_guard_drop env h1))) (\<lambda>m h1. E m (snd (vm_guard_drop env h1))) X env h"
  by (simp add: wp_def with_vm_guard_def split: prod.split flow.split)

section \<open>State machines over histories\<close>

definition watch :: "('v \<Rightarrow> event \<Rightarrow> 'v) \<Rightarrow> 'v \<Rightarrow> event list \<Rightarrow> 'v" where
  "watch move start h = foldl move start h"

lemma watch_snoc [simp]: "watch move start (h @ [e]) = move (watch move start h) e"
  by (simp add: watch_def)

text \<open>A task that leaves the state of the machine alone and does not exit.\<close>

definition keeps :: "('v \<Rightarrow> event \<Rightarrow> 'v) \<Rightarrow> 'v \<Rightarrow> 'a task \<Rightarrow> bool" where
  "keeps move start t \<longleftrightarrow>
     (\<forall>env h. wp t (\<lambda>_ h1. watch move start h1 = watch move start h)
        (\<lambda>_ h1. watch move start h1 = watch move start h) (\<lambda>_. False) env h)"

definition ignored :: "('v \<Rightarrow> event \<Rightarrow> 'v) \<Rightarrow> command \<Rightarrow> bool" where
  "ignored move c \<longleftrightarrow> (\<forall>v r. move v (Ran c r) = v)"

definition triple :: "('v \<Rightarrow> event \<Rightarrow> 'v) \<Rightarrow> 'v \<Rightarrow> ('v \<Rightarrow> bool) \<Rightarrow> 'a task \<Rightarrow> ('a \<Rightarrow> 'v \<Rightarrow> bool) \<Rightarrow>
    ('v \<Rightarrow> bool) \<Rightarrow> ('v \<Rightarrow> bool) \<Rightarrow> bool" where
  "triple move start P t Q B X \<longleftrightarrow>
     (\<forall>env h. P (watch move start h) \<longrightarrow>
        wp t (\<lambda>a h1. Q a (watch move start h1)) (\<lambda>_ h1. B (watch move start h1)) (\<lambda>h1. X (watch move start h1)) env h)"

locale watcher =
  fixes move :: "'v \<Rightarrow> event \<Rightarrow> 'v" and start :: 'v
  assumes only_commands: "\<forall>c r. e \<noteq> Ran c r \<Longrightarrow> move v e = v"
begin

lemma keeps_use:
  assumes "keeps move start t" "watch move start h = v"
    and "\<And>a h1. watch move start h1 = v \<Longrightarrow> N a h1" "\<And>m h1. watch move start h1 = v \<Longrightarrow> E m h1"
  shows "wp t N E X env h"
proof -
  have "wp t (\<lambda>_ h1. watch move start h1 = v) (\<lambda>_ h1. watch move start h1 = v) (\<lambda>_. False) env h"
    using assms(1,2) unfolding keeps_def by blast
  then show ?thesis by (rule wp_mono) (use assms(3,4) in auto)
qed

lemma keeps_basic [intro]: "keeps move start (give a)" "keeps move start (error msg)" "keeps move start unwind"
  by (simp_all add: keeps_def)

lemma keeps_bind [intro]: "keeps move start t \<Longrightarrow> (\<And>a. keeps move start (f a)) \<Longrightarrow> keeps move start (bind_task t f)"
  unfolding keeps_def wp_bind by (blast intro: wp_mono keeps_use [unfolded keeps_def])

lemma keeps_request [intro]:
  "(\<And>a c r. log a \<noteq> Ran c r) \<Longrightarrow> keeps move start (request_task ask log)"
  by (simp add: keeps_def only_commands)

lemma keeps_requests [intro]:
  "keeps move start (say l)" "keeps move start (warn l)" "keeps move start (sleep_secs n)" "keeps move start now"
  "keeps move start (path_exists p)" "keeps move start (is_file d f)" "keeps move start (read_dir p)"
  "keeps move start (remove_file b)" "keeps move start (read_text p)" "keeps move start (append_file p l)"
  by (simp_all add: request_defs keeps_request)

lemma keeps_write [intro]: "keeps move start (write_file p l)"
  unfolding write_file_def by (intro keeps_bind keeps_request) (auto split: option.split)

lemma keeps_project_root [intro]: "keeps move start project_root"
  unfolding keeps_def by (auto intro: wp_project_root)

lemma keeps_run [intro]: "ignored move c \<Longrightarrow> keeps move start (run c)"
  by (simp add: keeps_def ignored_def)

lemma keeps_execute [intro]: "ignored move c \<Longrightarrow> keeps move start (execute_cmd c msg)"
  by (auto simp: keeps_def ignored_def intro!: wp_execute)

lemma keeps_guest [intro]: "ignored move (guest_command l) \<Longrightarrow> keeps move start (incus_exec l)"
  by (auto simp: keeps_def ignored_def intro!: wp_guest)

lemma keeps_steps [intro]: "(\<And>t. t \<in> set ts \<Longrightarrow> keeps move start t) \<Longrightarrow> keeps move start (steps ts)"
  by (induction ts) auto

lemma keeps_temp_dir [intro]: "keeps move start temp_dir"
  by (simp add: keeps_def wp_def temp_dir_def)

lemma keeps_branches [intro]:
  "keeps move start t \<Longrightarrow> keeps move start u \<Longrightarrow> keeps move start (if b then t else u)"
  "keeps move start t \<Longrightarrow> (\<And>x. keeps move start (f x)) \<Longrightarrow> keeps move start (case opt of None \<Rightarrow> t | Some x \<Rightarrow> f x)"
  "(\<And>x. keeps move start (g x)) \<Longrightarrow> (\<And>y. keeps move start (k y)) \<Longrightarrow>
   keeps move start (case res of Inl x \<Rightarrow> g x | Inr y \<Rightarrow> k y)"
  by (simp_all split: option.split sum.split)

lemma keeps_attempt [intro]: "keeps move start t \<Longrightarrow> keeps move start (attempt t)"
  unfolding keeps_def wp_attempt by (fastforce intro: wp_mono split: option.split)

text \<open>
  \<open>P\<close> before the task; \<open>Q\<close> after a value, \<open>B\<close> after an error or a panic, \<open>X\<close> after an exit.
\<close>

lemma triple_use:
  "triple move start P t Q B X \<Longrightarrow> P (watch move start h) \<Longrightarrow>
   wp t (\<lambda>a h1. Q a (watch move start h1)) (\<lambda>_ h1. B (watch move start h1)) (\<lambda>h1. X (watch move start h1)) env h"
  by (simp add: triple_def)

lemma triple_weaken:
  "triple move start P t Q B X \<Longrightarrow> (\<And>v. P' v \<Longrightarrow> P v) \<Longrightarrow> (\<And>a v. Q a v \<Longrightarrow> Q' a v) \<Longrightarrow>
   (\<And>v. B v \<Longrightarrow> B' v) \<Longrightarrow> (\<And>v. X v \<Longrightarrow> X' v) \<Longrightarrow> triple move start P' t Q' B' X'"
  unfolding triple_def by (blast intro: wp_mono)

lemma triple_bind:
  "triple move start P t R B X \<Longrightarrow> (\<And>a. triple move start (R a) (f a) Q B X) \<Longrightarrow>
   triple move start P (bind_task t f) Q B X"
  unfolding triple_def wp_bind by (blast intro: wp_mono)

lemma triple_keeps:
  "keeps move start t \<Longrightarrow> (\<And>v. P v \<Longrightarrow> B v) \<Longrightarrow> triple move start P t (\<lambda>_. P) B X"
  unfolding triple_def by (auto intro: keeps_use)

lemma triple_basic:
  "(\<And>v. P v \<Longrightarrow> Q a v) \<Longrightarrow> triple move start P (give a) Q B X"
  "(\<And>v. P v \<Longrightarrow> B v) \<Longrightarrow> triple move start P (error m) Q B X"
  "(\<And>v. P v \<Longrightarrow> B v) \<Longrightarrow> triple move start P unwind Q B X"
  "(\<And>v. P v \<Longrightarrow> X v) \<Longrightarrow> triple move start P (quit n) Q B X"
  by (simp_all add: triple_def)

lemma triple_branches:
  "triple move start P t Q B X \<Longrightarrow> triple move start P u Q B X \<Longrightarrow> triple move start P (if b then t else u) Q B X"
  "(\<And>x. triple move start P (g x) Q B X) \<Longrightarrow> (\<And>y. triple move start P (k y) Q B X) \<Longrightarrow>
   triple move start P (case res of Inl x \<Rightarrow> g x | Inr y \<Rightarrow> k y) Q B X"
  by (simp_all split: sum.split)

lemma triple_steps:
  "triple move start P t (\<lambda>_. R) B X \<Longrightarrow> triple move start R (steps ts) Q B X \<Longrightarrow>
   triple move start P (steps (t # ts)) Q B X"
  by (simp add: triple_bind)

lemma triple_steps_keep:
  "keeps move start t \<Longrightarrow> (\<And>v. P v \<Longrightarrow> B v) \<Longrightarrow> triple move start P (steps ts) Q B X \<Longrightarrow>
   triple move start P (steps (t # ts)) Q B X"
  by (rule triple_steps [OF triple_keeps])

lemma triple_last:
  "triple move start P t Q B X \<Longrightarrow> triple move start P (steps [t]) Q B X"
  by (auto intro!: triple_bind triple_basic)

lemma triple_run:
  "(\<And>v r. P v \<Longrightarrow> Q r (move v (Ran c r))) \<Longrightarrow> triple move start P (run c) Q B X"
  by (simp add: triple_def)

lemma triple_execute:
  "(\<And>v r. P v \<Longrightarrow> run_succeeded r \<Longrightarrow> Q () (move v (Ran c r))) \<Longrightarrow>
   (\<And>v r. P v \<Longrightarrow> \<not> run_succeeded r \<Longrightarrow> B (move v (Ran c r))) \<Longrightarrow> triple move start P (execute_cmd c m) Q B X"
  by (auto simp: triple_def intro!: wp_execute)

lemma triple_try_guest:
  "(\<And>v r res. P v \<Longrightarrow> (\<exists>u. res = Inr u) = run_succeeded r \<Longrightarrow> Q res (move v (Ran (guest_command l) r))) \<Longrightarrow>
   triple move start P (attempt (incus_exec l)) Q B X"
  by (auto simp: triple_def intro!: wp_guest)

end

section \<open>The life of the virtual machine\<close>

text \<open>
  \<open>left\<close>: a launch was asked for and no deletion since; \<open>airgapped\<close>, \<open>verified\<close>, \<open>snapped\<close>:
  the profile without a network was assigned, then the link check passed, then the snapshot
  was taken; \<open>fresh\<close>: that snapshot was restored and no test has run since; \<open>booted\<close>: it was
  started again. \<open>isolated\<close>: every test so far ran in a fresh, booted machine; \<open>verdicts\<close>: how
  they ended.
\<close>

record vm =
  left :: bool
  airgapped :: bool
  verified :: bool
  snapped :: bool
  fresh :: bool
  booted :: bool
  isolated :: bool
  verdicts :: "bool list"

definition no_vm :: vm where
  "no_vm = \<lparr>left = False, airgapped = False, verified = False, snapped = False, fresh = False, booted = False,
     isolated = True, verdicts = []\<rparr>"

text \<open>The command lines that run tests in the guest.\<close>

definition test_line :: "rstr \<Rightarrow> bool" where
  "test_line l \<longleftrightarrow>
     starts_with (guest_prefix @ str ''cargo test '') l \<or> starts_with (guest_prefix @ str ''bash tests/'') l"

definition runs_test :: "rstr list \<Rightarrow> bool" where
  "runs_test args \<longleftrightarrow>
     length args = 6 \<and> take 5 args = [str ''exec'', vm_name, str ''--'', str ''bash'', str ''-c''] \<and> test_line (args ! 5)"

definition no_eth0 :: "rstr + cmd_output \<Rightarrow> bool" where
  "no_eth0 r =
     (case r of Inr out \<Rightarrow> \<not> contains_str (str ''eth0'') (utf8_lossy (o_stdout out)) | Inl _ \<Rightarrow> False)"

definition watch_vm :: "vm \<Rightarrow> event \<Rightarrow> vm" where
  "watch_vm v e =
     (case e of
        Ran c r \<Rightarrow>
          (let args = c_args c; ok = run_succeeded r
           in if c_prog c \<noteq> str ''incus'' then v
              else if take 1 args = [str ''launch'']
              then v\<lparr>left := True, airgapped := False, verified := False, snapped := False, fresh := False,
                     booted := False\<rparr>
              else if take 1 args = [str ''delete''] then v\<lparr>left := False, booted := False\<rparr>
              else if args = c_args assign_airgap then v\<lparr>airgapped := ok\<rparr>
              else if args = c_args show_links then v\<lparr>verified := airgapped v \<and> no_eth0 r\<rparr>
              else if args = c_args create_snapshot_args then v\<lparr>snapped := ok \<and> verified v\<rparr>
              else if args = c_args restore_args then v\<lparr>fresh := ok \<and> snapped v, booted := False\<rparr>
              else if args = c_args start_args then v\<lparr>booted := ok\<rparr>
              else if runs_test args
              then v\<lparr>isolated := isolated v \<and> fresh v \<and> booted v, fresh := False, verdicts := verdicts v @ [ok]\<rparr>
              else v)
      | _ \<Rightarrow> v)"

abbreviation vm_after :: "event list \<Rightarrow> vm" where
  "vm_after h \<equiv> watch watch_vm no_vm h"

interpretation life: watcher watch_vm no_vm
proof
  fix e v
  assume "\<forall>c r. e \<noteq> Ran c r"
  then show "watch_vm v e = v" by (cases e) (simp_all add: watch_vm_def)
qed

lemma starts_with_guest: "starts_with (guest_prefix @ p) (guest_prefix @ l) = starts_with p l"
  by (simp add: starts_with_def)

lemma runs_test_guest:
  "runs_test [str ''exec'', vm_name, str ''--'', str ''bash'', str ''-c'', guest_prefix @ l] \<longleftrightarrow>
     starts_with (str ''cargo test '') l \<or> starts_with (str ''bash tests/'') l"
  by (simp add: runs_test_def test_line_def starts_with_guest)

lemma runs_test_shell:
  "take 1 l \<noteq> str ''s'' \<Longrightarrow> \<not> runs_test [str ''exec'', vm_name, str ''--'', str ''bash'', str ''-c'', l]"
  by (cases l) (auto simp: runs_test_def test_line_def starts_with_def guest_prefix_def str_def)

lemma runs_test_other: "take 5 args \<noteq> [str ''exec'', vm_name, str ''--'', str ''bash'', str ''-c''] \<Longrightarrow> \<not> runs_test args"
  by (simp add: runs_test_def)

lemmas life_defs = watch_vm_def Let_def incus_def assign_airgap_def show_links_def create_snapshot_args_def
  restore_args_def start_args_def guest_command_def

lemma ignored_prog [intro]: "c_prog c \<noteq> str ''incus'' \<Longrightarrow> ignored watch_vm c"
  by (simp add: ignored_def life_defs)

lemma ignored_incus [intro]:
  assumes "take 1 args \<notin> {[str ''launch''], [str ''delete''], [str ''exec''], [str ''start''], [str ''snapshot'']}"
    and "take 2 args \<noteq> [str ''profile'', str ''assign'']"
  shows "ignored watch_vm (incus args)"
proof -
  have "\<not> runs_test args"
  proof
    assume "runs_test args"
    then have "take 1 (take 5 args) = [str ''exec'']" by (simp add: runs_test_def)
    with assms(1) show False by simp
  qed
  moreover have "args \<noteq> c_args assign_airgap" using assms(2) by (auto simp: assign_airgap_def incus_def)
  moreover have "args \<noteq> c_args show_links" "args \<noteq> c_args create_snapshot_args" "args \<noteq> c_args restore_args"
    "args \<noteq> c_args start_args"
    using assms(1) by (auto simp: show_links_def create_snapshot_args_def restore_args_def start_args_def incus_def)
  ultimately show ?thesis using assms(1) by (simp add: ignored_def watch_vm_def incus_def)
qed

lemma ignored_exec:
  "\<not> runs_test (str ''exec'' # args) \<Longrightarrow> str ''exec'' # args \<noteq> c_args show_links \<Longrightarrow> ignored watch_vm (incus (str ''exec'' # args))"
  by (auto simp: ignored_def life_defs)

lemma ignored_guest:
  "\<not> starts_with (str ''cargo test '') l \<Longrightarrow> \<not> starts_with (str ''bash tests/'') l \<Longrightarrow> ignored watch_vm (guest_command l)"
  unfolding guest_command_def by (rule ignored_exec) (simp_all add: runs_test_guest show_links_def incus_def)

section \<open>What leaves the machine alone\<close>

lemma keeps_await [intro]: "keeps watch_vm no_vm (await_rounds n)" "keeps watch_vm no_vm await_guest_agent"
proof -
  have "ignored watch_vm (incus [str ''exec'', vm_name, str ''--'', str ''echo'', str ''ready''])"
    by (rule ignored_exec) (simp_all add: runs_test_other show_links_def incus_def)
  then show all: "keeps watch_vm no_vm (await_rounds n)" for n by (induction n) auto
  show "keeps watch_vm no_vm await_guest_agent" unfolding await_guest_agent_def by (rule all)
qed

lemma keeps_import: "keeps watch_vm no_vm (import_image image_alias img)"
  unfolding import_image_def Let_def
  by (intro life.keeps_bind life.keeps_branches life.keeps_run life.keeps_execute life.keeps_basic
      life.keeps_requests ignored_incus ignored_prog) simp_all

lemma keeps_ensure_base_image [intro]: "keeps watch_vm no_vm (ensure_base_image image_alias)"
  unfolding ensure_base_image_def Let_def
  by (intro life.keeps_bind life.keeps_branches life.keeps_run life.keeps_basic
      life.keeps_requests life.keeps_project_root keeps_import ignored_incus) simp_all

lemma keeps_no_network_profile [intro]: "keeps watch_vm no_vm ensure_no_network_profile"
  unfolding ensure_no_network_profile_def Let_def steps.simps
  by (intro life.keeps_bind life.keeps_branches life.keeps_run life.keeps_execute life.keeps_basic
      life.keeps_requests ignored_incus) simp_all

lemma keeps_transfer [intro]: "keeps watch_vm no_vm transfer_workspace"
proof -
  have "ignored watch_vm (incus [str ''exec'', vm_name, str ''--'', str ''bash'', str ''-c'',
      str ''mkdir -p /workspace && tar -xzf /root/src-bundle.tar.gz -C /workspace''])"
    by (rule ignored_exec [OF runs_test_shell]) (simp add: str_def, simp add: show_links_def incus_def)
  note exec = this
  show ?thesis
    unfolding transfer_workspace_def Let_def steps.simps
    by (intro exec life.keeps_bind life.keeps_branches life.keeps_execute life.keeps_basic
        life.keeps_requests life.keeps_project_root life.keeps_temp_dir ignored_incus ignored_prog) simp_all
qed

lemma keeps_config [intro]: "keeps watch_vm no_vm provision_default_config"
  unfolding provision_default_config_def steps.simps
  by (intro life.keeps_bind life.keeps_guest life.keeps_basic life.keeps_requests ignored_guest)
    (simp_all add: starts_with_def str_def)

lemma keeps_compile [intro]: "keeps watch_vm no_vm compile_workspace"
  unfolding compile_workspace_def steps.simps
  by (intro life.keeps_bind life.keeps_guest life.keeps_basic life.keeps_requests ignored_guest)
    (simp_all add: starts_with_def str_def inject_cmd_def newline_def)

lemma keeps_prepare [intro]: "keeps watch_vm no_vm (prepare_test_image image_alias)"
  unfolding prepare_test_image_def steps.simps
  by (intro life.keeps_bind life.keeps_branches life.keeps_execute life.keeps_basic life.keeps_requests
      life.keeps_project_root ignored_prog) simp_all

lemma keeps_report [intro]: "keeps watch_vm no_vm (generate_markdown_report results a b)"
  unfolding generate_markdown_report_def Let_def steps.simps
  by (intro life.keeps_bind life.keeps_branches life.keeps_basic life.keeps_requests life.keeps_write
      life.keeps_project_root)

lemma keeps_extract [intro]: "keeps watch_vm no_vm (extract_metrics dir_name passed)"
proof -
  have "ignored watch_vm (incus [str ''exec'', vm_name, str ''--'', str ''cat'', str ''/workspace/benchmark_results.md''])"
    by (rule ignored_exec) (simp_all add: runs_test_other show_links_def incus_def)
  then show ?thesis
    unfolding extract_metrics_def
    by (intro life.keeps_bind life.keeps_branches life.keeps_run life.keeps_basic life.keeps_requests
      life.keeps_project_root)
qed

section \<open>What moves the machine\<close>

text \<open>
  The states a run goes through: every test so far was isolated and they ended as \<open>vs\<close>
  says; then, with a machine: launched, air-gapped, checked, with a snapshot.
\<close>

definition sound :: "bool list \<Rightarrow> vm \<Rightarrow> bool" where
  "sound vs v \<longleftrightarrow> isolated v \<and> verdicts v = vs"

definition up :: "bool list \<Rightarrow> vm \<Rightarrow> bool" where
  "up vs v \<longleftrightarrow> sound vs v \<and> left v"

lemma launch_triple:
  "triple watch_vm no_vm (sound vs) (launch_instance img) (\<lambda>_. up vs) (sound vs) X"
  unfolding launch_instance_def
  by (rule life.triple_steps_keep, rule life.keeps_requests, simp, rule life.triple_last, rule life.triple_execute)
    (auto simp: up_def sound_def launch_args_def life_defs)

lemma airgap_triple:
  "triple watch_vm no_vm (up vs) enforce_airgap (\<lambda>_ v. up vs v \<and> airgapped v) (sound vs) X"
  unfolding enforce_airgap_def
  by (rule life.triple_steps_keep, rule life.keeps_requests, simp add: up_def,
      rule life.triple_steps_keep, rule keeps_no_network_profile, simp add: up_def,
      rule life.triple_last, rule life.triple_execute)
    (auto simp: up_def sound_def life_defs)

lemma ignored_boot: "ignored watch_vm (incus [str ''exec'', vm_name, str ''--'', str ''bash'', str ''-c'', enable_lsm_script])"
  by (rule ignored_exec [OF runs_test_shell])
    (simp add: enable_lsm_script_def newline_def str_def, simp add: show_links_def incus_def)

lemma kernel_triple:
  "triple watch_vm no_vm (\<lambda>v. up vs v \<and> airgapped v) inject_kernel_parameters (\<lambda>_ v. up vs v \<and> airgapped v)
     (sound vs) (up vs)"
proof -
  let ?P = "\<lambda>v. up vs v \<and> airgapped v"
  have keep: "triple watch_vm no_vm ?P t (\<lambda>_. ?P) (sound vs) (up vs)" if "keeps watch_vm no_vm t" for t :: "'b task"
    by (rule life.triple_keeps [OF that]) (simp add: up_def)
  have fatal: "triple watch_vm no_vm ?P (bind_task (warn m) (\<lambda>_. quit 1)) (\<lambda>_. ?P) (sound vs) (up vs)" for m
    by (rule life.triple_bind [OF keep [OF life.keeps_requests(2)]]) (rule life.triple_basic(4), simp)
  have rest: "keeps watch_vm no_vm (bind_task (say m) (\<lambda>_. bind_task (attempt (incus_exec mask_services))
      (\<lambda>_. steps [say n, execute_cmd (incus [str ''restart'', vm_name]) e, await_guest_agent])))" for m n e
    unfolding steps.simps
    by (intro life.keeps_bind life.keeps_attempt life.keeps_guest life.keeps_execute life.keeps_basic
        life.keeps_requests keeps_await ignored_incus ignored_guest)
      (simp_all add: starts_with_def str_def mask_services_def)
  show ?thesis
    unfolding inject_kernel_parameters_def
    by (intro life.triple_bind [OF keep [OF life.keeps_requests(1)]] fatal
        life.triple_bind [OF keep [OF life.keeps_run [OF ignored_boot]]] life.triple_branches keep [OF rest]
        life.triple_basic(3)) (simp add: up_def)
qed

lemma link_triple:
  "triple watch_vm no_vm (\<lambda>v. up vs v \<and> airgapped v) assert_no_network (\<lambda>_ v. up vs v \<and> verified v) (sound vs) X"
  unfolding assert_no_network_def
proof (rule life.triple_bind [where R = "\<lambda>r v. up vs v \<and> verified v = no_eth0 r"])
  show "triple watch_vm no_vm (\<lambda>v. up vs v \<and> airgapped v) (run show_links)
      (\<lambda>r v. up vs v \<and> verified v = no_eth0 r) (sound vs) X"
    by (rule life.triple_run) (auto simp: up_def sound_def life_defs)
  fix r
  show "triple watch_vm no_vm (\<lambda>v. up vs v \<and> verified v = no_eth0 r)
      (case r of Inl e \<Rightarrow> error (str ''Failed to inspect VM network: '' @ e)
       | Inr out \<Rightarrow> if contains_str (str ''eth0'') (utf8_lossy (o_stdout out))
           then error (str ''Air-gap violation: eth0 interface detected'')
           else say (str ''[SECURITY] Verified: no network interfaces present.''))
      (\<lambda>_ v. up vs v \<and> verified v) (sound vs) X"
    by (auto simp: no_eth0_def up_def split: sum.split intro!: life.triple_basic
        life.triple_weaken [OF life.triple_keeps [OF life.keeps_requests(1), where P = "\<lambda>v. up vs v \<and> verified v"
          and B = "sound vs" and X = X]])
qed

lemma snapshot_triple:
  "triple watch_vm no_vm (\<lambda>v. up vs v \<and> verified v) create_snapshot (\<lambda>_ v. sound vs v \<and> snapped v) (sound vs) X"
  unfolding create_snapshot_def
  by (rule life.triple_steps_keep, rule life.keeps_requests, simp add: up_def,
      rule life.triple_steps_keep, rule life.keeps_execute, rule ignored_incus, simp, simp, simp add: up_def,
      rule life.triple_last, rule life.triple_execute)
    (auto simp: up_def sound_def life_defs)

definition ready :: "bool list \<Rightarrow> vm \<Rightarrow> bool" where
  "ready vs v \<longleftrightarrow> sound vs v \<and> snapped v"

lemma bind_keeps:
  "keeps watch_vm no_vm t \<Longrightarrow> (\<And>v. P v \<Longrightarrow> B v) \<Longrightarrow> (\<And>a. triple watch_vm no_vm P (f a) Q B X) \<Longrightarrow>
   triple watch_vm no_vm P (bind_task t f) Q B X"
  by (rule life.triple_bind [OF life.triple_keeps])

lemma sound_isolated: "sound vs v \<Longrightarrow> isolated v" "ready vs v \<Longrightarrow> isolated v" "up vs v \<Longrightarrow> isolated v"
  "up vs v \<Longrightarrow> sound vs v" "ready vs v \<Longrightarrow> sound vs v"
  by (simp_all add: sound_def ready_def up_def)

lemma provision_triple:
  "triple watch_vm no_vm (sound vs)
     (steps [launch_instance img, await_guest_agent, transfer_workspace, provision_default_config,
        compile_workspace, enforce_airgap, inject_kernel_parameters, assert_no_network, create_snapshot, say m])
     (\<lambda>_. ready vs) (sound vs) (up vs)"
proof -
  have shut: "triple watch_vm no_vm (\<lambda>v. sound vs v \<and> snapped v) (steps [say m]) (\<lambda>_. ready vs) (sound vs) (up vs)"
    by (rule life.triple_last, rule life.triple_weaken, rule life.triple_keeps, rule life.keeps_requests)
      (auto simp: ready_def)
  show ?thesis
    by (rule life.triple_steps [OF launch_triple], rule life.triple_steps_keep [OF keeps_await(2)],
        erule sound_isolated, rule life.triple_steps_keep [OF keeps_transfer], erule sound_isolated,
        rule life.triple_steps_keep [OF keeps_config], erule sound_isolated,
        rule life.triple_steps_keep [OF keeps_compile], erule sound_isolated,
        rule life.triple_steps [OF airgap_triple], rule life.triple_steps [OF kernel_triple],
        rule life.triple_steps [OF link_triple], rule life.triple_steps [OF snapshot_triple], rule shut)
qed

lemma setup_triple:
  "triple watch_vm no_vm (sound vs) (setup_and_snapshot_vm img) (\<lambda>_. ready vs) (sound vs) (up vs)"
proof -
  have delete: "triple watch_vm no_vm (sound vs) (run delete_vm) (\<lambda>_. sound vs) (sound vs) (up vs)"
    by (rule life.triple_run) (simp add: sound_def delete_vm_def life_defs)
  have finish: "triple watch_vm no_vm (ready vs) (bind_task now (\<lambda>t. give (t - start))) (\<lambda>_. ready vs) (sound vs) (up vs)"
    for start
    by (rule bind_keeps [OF life.keeps_requests(4) sound_isolated(5)]) (auto intro: life.triple_basic)
  show ?thesis
    unfolding setup_and_snapshot_vm_def
    by (rule bind_keeps [OF life.keeps_requests(1)], assumption,
        rule bind_keeps [OF life.keeps_requests(4)], assumption,
        rule bind_keeps [OF keeps_ensure_base_image], assumption,
        rule life.triple_bind [OF delete], rule life.triple_bind [OF provision_triple], rule finish)
qed

lemma restore_triple:
  "triple watch_vm no_vm (ready vs) restore_vm_snapshot (\<lambda>_ v. ready vs v \<and> fresh v \<and> booted v) isolated X"
proof -
  let ?P = "ready vs"
  have restore: "triple watch_vm no_vm ?P (execute_cmd restore_args m) (\<lambda>_ v. ready vs v \<and> fresh v) isolated X" for m
    by (rule life.triple_execute) (auto simp: ready_def sound_def life_defs)
  have boot: "triple watch_vm no_vm (\<lambda>v. ready vs v \<and> fresh v) (execute_cmd start_args m)
      (\<lambda>_ v. ready vs v \<and> fresh v \<and> booted v) isolated X" for m
    by (rule life.triple_execute) (auto simp: ready_def sound_def life_defs)
  have await: "triple watch_vm no_vm (\<lambda>v. ready vs v \<and> fresh v \<and> booted v) (steps [await_guest_agent])
      (\<lambda>_ v. ready vs v \<and> fresh v \<and> booted v) isolated X"
    by (rule life.triple_last [OF life.triple_keeps [OF keeps_await(2)]]) (use sound_isolated(2) in blast)
  have stop: "keeps watch_vm no_vm (run (incus [str ''stop'', vm_name, str ''--force'']))"
    by (rule life.keeps_run, rule ignored_incus) simp_all
  have finish: "triple watch_vm no_vm (\<lambda>v. ready vs v \<and> fresh v \<and> booted v) (bind_task now (\<lambda>t. give (t - start)))
      (\<lambda>_ v. ready vs v \<and> fresh v \<and> booted v) isolated X" for start
    by (rule bind_keeps [OF life.keeps_requests(4)]) (auto intro: life.triple_basic dest: sound_isolated(2))
  show ?thesis
    unfolding restore_vm_snapshot_def
    by (rule bind_keeps [OF life.keeps_requests(4)], erule sound_isolated,
        rule bind_keeps [OF stop], erule sound_isolated,
        rule life.triple_bind [OF life.triple_steps [OF restore life.triple_steps [OF boot await]]], rule finish)
qed

section \<open>The suites\<close>

definition test_command :: "rstr \<Rightarrow> bool" where
  "test_command l \<longleftrightarrow> starts_with (str ''cargo test '') l \<or> starts_with (str ''bash tests/'') l"

lemma test_commands:
  "test_command (str ''bash tests/component/'' @ f)" "test_command (str ''cargo test -q --release --test '' @ f)"
  "test_command (str ''cargo test -q --release --workspace --lib '' @ f)"
  by (simp_all add: test_command_def starts_with_def str_def)

lemma guest_test_triple:
  assumes "test_command l"
  shows "triple watch_vm no_vm (\<lambda>v. ready vs v \<and> fresh v \<and> booted v) (attempt (incus_exec l))
    (\<lambda>res. ready (vs @ [\<exists>u. res = Inr u])) isolated X"
proof (rule life.triple_try_guest)
  fix v r and res :: "rstr + unit"
  assume "ready vs v \<and> fresh v \<and> booted v" and res: "(\<exists>u. res = Inr u) = run_succeeded r"
  moreover have "watch_vm v (Ran (guest_command l) r) =
      v\<lparr>isolated := isolated v \<and> fresh v \<and> booted v, fresh := False, verdicts := verdicts v @ [run_succeeded r]\<rparr>"
    using assms by (simp add: life_defs runs_test_guest test_command_def)
  ultimately show "ready (vs @ [\<exists>u. res = Inr u]) (watch_vm v (Ran (guest_command l) r))"
    by (simp add: ready_def sound_def)
qed

lemma outcome_keeps:
  "keeps watch_vm no_vm (case result of Inl err \<Rightarrow> steps [warn a, warn err] | Inr _ \<Rightarrow> say b)"
  unfolding steps.simps
  by (intro life.keeps_branches life.keeps_bind life.keeps_requests life.keeps_basic)

lemma test_file_triple:
  assumes "\<And>s f. test_command (build_cmd s f)"
  shows "triple watch_vm no_vm (ready vs) (run_test_file dir_name ext build_cmd name)
    (\<lambda>(rec, time). ready (vs @ [tr_passed rec])) isolated X"
proof -
  let ?R = "\<lambda>v. ready vs v \<and> fresh v \<and> booted v"
  have down: "?R v \<Longrightarrow> isolated v" for v using sound_isolated(2) by blast
  show ?thesis
    unfolding run_test_file_def Let_def
    by (rule bind_keeps [OF life.keeps_requests(1)], erule sound_isolated,
        rule life.triple_bind [OF restore_triple],
        rule bind_keeps [OF life.keeps_requests(1)], erule down,
        rule bind_keeps [OF life.keeps_requests(4)], erule down,
        rule life.triple_bind [OF guest_test_triple [OF assms]],
        rule bind_keeps [OF life.keeps_requests(4)], erule sound_isolated,
        rule bind_keeps [OF keeps_extract], erule sound_isolated,
        rule bind_keeps [OF outcome_keeps], erule sound_isolated)
      (rule life.triple_basic, auto split: sum.splits)
qed

lemma entry_triple:
  assumes "\<And>s f. test_command (build_cmd s f)"
  shows "triple watch_vm no_vm (ready (base @ map tr_passed (fst acc)))
    (run_entry suite_dir dir_name ext target build_cmd entry acc)
    (\<lambda>acc. ready (base @ map tr_passed (fst acc))) isolated X"
proof -
  have one: "triple watch_vm no_vm (ready (base @ map tr_passed (fst acc)))
    (bind_task (run_test_file dir_name ext build_cmd name) (\<lambda>(rec, time). give (fst acc @ [rec], snd acc + time)))
    (\<lambda>acc. ready (base @ map tr_passed (fst acc))) isolated X" for name
    by (rule life.triple_bind [OF test_file_triple [OF assms]]) (auto intro!: life.triple_basic)
  show ?thesis
  proof (cases entry)
    case (Inl e)
    then show ?thesis by (auto simp: run_entry_def intro: life.triple_basic sound_isolated)
  next
    case (Inr name)
    show ?thesis
      unfolding run_entry_def Inr sum.case
      by (rule bind_keeps [OF life.keeps_requests(6)], erule sound_isolated,
          rule life.triple_branches(1) [OF one]) (rule life.triple_basic)
  qed
qed

lemma entries_triple:
  assumes "\<And>s f. test_command (build_cmd s f)"
  shows "triple watch_vm no_vm (ready (base @ map tr_passed (fst acc)))
    (run_entries (run_entry suite_dir dir_name ext target build_cmd) entries acc)
    (\<lambda>acc. ready (base @ map tr_passed (fst acc))) isolated X"
proof (induction entries arbitrary: acc)
  case Nil
  then show ?case by (simp add: life.triple_basic)
next
  case (Cons e es)
  show ?case
    unfolding run_entries.simps by (rule life.triple_bind [OF entry_triple [OF assms] Cons.IH])
qed

lemma no_tests_triple:
  "triple watch_vm no_vm (ready base) (bind_task (say m) (\<lambda>_. give ([], t)))
    (\<lambda>acc. ready (base @ map tr_passed (fst acc))) isolated X"
  by (rule bind_keeps [OF life.keeps_requests(1)], erule sound_isolated) (simp add: life.triple_basic)

lemma suite_triple:
  assumes "\<And>s f. test_command (build_cmd s f)"
  shows "triple watch_vm no_vm (ready base) (run_test_suite title dir_name ext target build_cmd)
    (\<lambda>acc. ready (base @ map tr_passed (fst acc))) isolated X"
proof -
  have entries: "triple watch_vm no_vm (ready base)
      (run_entries (run_entry suite_dir dir_name ext target build_cmd) entries ([], 0))
      (\<lambda>acc. ready (base @ map tr_passed (fst acc))) isolated X" for suite_dir entries
    using entries_triple [OF assms, where acc = "([], 0)" and base = base] by simp
  show ?thesis
    unfolding run_test_suite_def Let_def
    by (rule bind_keeps [OF life.keeps_project_root], erule sound_isolated,
        rule bind_keeps [OF life.keeps_requests(5)], erule sound_isolated,
        rule life.triple_branches(1) [OF no_tests_triple],
        rule bind_keeps [OF life.keeps_requests(1)], erule sound_isolated,
        rule bind_keeps [OF life.keeps_requests(7)], erule sound_isolated,
        rule life.triple_branches(2) [OF _ entries], rule life.triple_basic, erule sound_isolated)
qed

lemma unit_triple:
  "triple watch_vm no_vm (ready base) (run_unit_tests target)
    (\<lambda>acc. ready (base @ map tr_passed (fst acc))) isolated X"
proof -
  let ?R = "\<lambda>v. ready base v \<and> fresh v \<and> booted v"
  have down: "?R v \<Longrightarrow> isolated v" for v using sound_isolated(2) by blast
  have head: "keeps watch_vm no_vm (steps [say a, say b])" for a b
    unfolding steps.simps by (intro life.keeps_bind life.keeps_requests life.keeps_basic)
  show ?thesis
    unfolding run_unit_tests_def Let_def
    by (rule bind_keeps [OF head], erule sound_isolated,
        rule life.triple_bind [OF restore_triple],
        rule bind_keeps [OF life.keeps_requests(4)], erule down,
        rule life.triple_bind [OF guest_test_triple [OF test_commands(3)]],
        rule bind_keeps [OF life.keeps_requests(4)], erule sound_isolated,
        rule bind_keeps [OF outcome_keeps], erule sound_isolated)
      (rule life.triple_basic, auto split: sum.splits)
qed

lemma execute_suite_triple:
  "triple watch_vm no_vm (ready (map tr_passed (fst acc))) (execute_suite cat target acc)
    (\<lambda>acc. ready (map tr_passed (fst acc))) isolated X"
proof -
  have collect: "triple watch_vm no_vm (ready (map tr_passed (fst acc) @ map tr_passed (fst r)))
      (case r of (res, time) \<Rightarrow> give (fst acc @ res, snd acc + time))
      (\<lambda>acc. ready (map tr_passed (fst acc))) isolated X" for r :: "test_record list \<times> nat"
    by (cases r) (simp add: life.triple_basic)
  show ?thesis
    unfolding execute_suite_def
    by (rule life.triple_bind [OF _ collect], intro life.triple_branches(1) unit_triple suite_triple no_tests_triple
        test_commands life.triple_basic) (erule sound_isolated)
qed

lemma categories_triple:
  "triple watch_vm no_vm (ready []) (run_categories category target)
    (\<lambda>acc. ready (map tr_passed (fst acc))) isolated X"
proof -
  have first: "triple watch_vm no_vm (ready []) (execute_suite cat tgt ([], 0))
      (\<lambda>acc. ready (map tr_passed (fst acc))) isolated X" for cat tgt
    using execute_suite_triple [of "([], 0)"] by simp
  show ?thesis
    unfolding run_categories_def
    by (rule life.triple_branches(1) [OF _ first],
        rule bind_keeps [OF life.keeps_requests(1)], erule sound_isolated,
        rule life.triple_bind [OF first], rule life.triple_bind [OF execute_suite_triple],
        rule execute_suite_triple)
qed

section \<open>A whole run\<close>

lemma conclude_triple:
  "triple watch_vm no_vm (ready (map tr_passed (fst acc))) (conclude setup_time acc)
    (\<lambda>_ v. isolated v \<and> list_all id (verdicts v)) isolated X"
proof -
  have reported: "keeps watch_vm no_vm (case res of Inl e \<Rightarrow> warn (m @ e) | Inr _ \<Rightarrow> give ())"
    for m and res :: "rstr + unit"
    by (intro life.keeps_branches life.keeps_requests life.keeps_basic)
  have good: "triple watch_vm no_vm (ready (map tr_passed (fst acc))) (say m)
      (\<lambda>_ v. isolated v \<and> list_all id (verdicts v)) isolated X" if "list_all tr_passed (fst acc)" for m
    by (rule life.triple_weaken [OF life.triple_keeps [OF life.keeps_requests(1), where B = isolated]])
      (use that in \<open>auto simp: ready_def sound_def list_all_iff\<close>)
  have bad: "triple watch_vm no_vm (ready (map tr_passed (fst acc))) (error m)
      (\<lambda>_ v. isolated v \<and> list_all id (verdicts v)) isolated X" for m
    by (rule life.triple_basic) (rule sound_isolated)
  show ?thesis
    unfolding conclude_def
    by (rule bind_keeps [OF life.keeps_attempt [OF keeps_report]], erule sound_isolated,
        rule bind_keeps [OF reported], erule sound_isolated) (auto simp: good bad)
qed

lemma run_triple:
  "triple watch_vm no_vm (sound [])
     (bind_task (setup_and_snapshot_vm img) (\<lambda>setup_time.
      bind_task (run_categories category target) (\<lambda>acc. conclude setup_time acc)))
     (\<lambda>_ v. isolated v \<and> list_all id (verdicts v)) isolated (up [])"
proof (rule life.triple_bind)
  show "triple watch_vm no_vm (sound []) (setup_and_snapshot_vm img) (\<lambda>_. ready []) isolated (up [])"
    by (rule life.triple_weaken [OF setup_triple]) (auto dest: sound_isolated)
  show "triple watch_vm no_vm (ready []) (bind_task (run_categories category target) (\<lambda>acc. conclude t acc))
      (\<lambda>_ v. isolated v \<and> list_all id (verdicts v)) isolated (up [])" for t
    by (rule life.triple_bind [OF categories_triple conclude_triple])
qed

lemma guard_drop: "vm_after (snd (vm_guard_drop env h)) = (vm_after h)\<lparr>left := False, booted := False\<rparr>"
  by (simp add: vm_guard_drop_def bind_task_def run_def say_def request_task_def give_def Let_def
      delete_vm_def watch_def foldl_append watch_vm_def incus_def)

lemma no_vm_simps [simp]: "isolated no_vm" "\<not> left no_vm" "verdicts no_vm = []" "vm_after [] = no_vm"
  by (simp_all add: no_vm_def watch_def)

lemma run_tests_wp:
  "wp (run_tests category target img)
     (\<lambda>_ h. isolated (vm_after h) \<and> \<not> left (vm_after h) \<and> list_all id (verdicts (vm_after h)))
     (\<lambda>_ h. isolated (vm_after h) \<and> \<not> left (vm_after h))
     (\<lambda>h. isolated (vm_after h) \<and> left (vm_after h)) env []" (is "wp _ ?N ?E ?X env []")
proof -
  let ?t = "bind_task (setup_and_snapshot_vm img) (\<lambda>setup_time.
     bind_task (run_categories category target) (\<lambda>acc. conclude setup_time acc))"
  have guarded: "wp (with_vm_guard ?t) ?N ?E ?X env h" if "vm_after h = no_vm" for h
  proof -
    have "sound [] (vm_after h)" using that by (simp add: sound_def)
    from life.triple_use [OF run_triple this]
    have "wp ?t (\<lambda>_ h. isolated (vm_after h) \<and> list_all id (verdicts (vm_after h)))
        (\<lambda>_ h. isolated (vm_after h)) (\<lambda>h. up [] (vm_after h)) env h" .
    then show ?thesis
      unfolding wp_guard guard_drop by (rule wp_mono) (auto simp: up_def sound_def)
  qed
  show ?thesis
    unfolding run_tests_def
    by (subst wp_bind, rule life.keeps_use [OF keeps_prepare refl]) (use guarded in auto)
qed

lemma wp_snd: "wp t (\<lambda>_. P) (\<lambda>_. P) P env h \<Longrightarrow> P (snd (t env h))"
  by (auto simp: wp_def split: prod.splits flow.splits)

lemma dispatch_wp:
  "wp (dispatch img args) (\<lambda>_ h. isolated (vm_after h)) (\<lambda>_ h. isolated (vm_after h))
     (\<lambda>h. isolated (vm_after h)) env []"
proof -
  have tests: "wp (run_tests c t img) (\<lambda>_ h. isolated (vm_after h)) (\<lambda>_ h. isolated (vm_after h))
     (\<lambda>h. isolated (vm_after h)) env []" for c t
    by (rule wp_mono [OF run_tests_wp]) auto
  have prepare: "wp (prepare_test_image img) (\<lambda>_ h. isolated (vm_after h)) (\<lambda>_ h. isolated (vm_after h))
     (\<lambda>h. isolated (vm_after h)) env []"
    by (rule life.keeps_use [OF keeps_prepare refl]) simp_all
  have "keeps watch_vm no_vm usage"
    unfolding usage_def by (rule life.keeps_steps) (auto intro: life.keeps_requests)
  then have shown: "wp (bind_task usage (\<lambda>_. quit 1)) (\<lambda>_ h. isolated (vm_after h)) (\<lambda>_ h. isolated (vm_after h))
     (\<lambda>h. isolated (vm_after h)) env []"
    unfolding wp_bind by (rule life.keeps_use [OF _ refl]) simp_all
  show ?thesis
    unfolding dispatch_def using tests prepare shown by (simp split: list.split)
qed

section \<open>An example environment\<close>

text \<open>
  Every command succeeds without output, except the scripts named; one component test
  exists.
\<close>

definition demo_xenv :: "(command \<Rightarrow> bool) \<Rightarrow> xenv" where
  "demo_xenv fails =
     \<lparr>xe_manifest_dir = str ''/bb/xtask'', xe_temp_dir = map of_nat (str ''/tmp''),
      xe_run = (\<lambda>_ c. Inr \<lparr>o_code = Some (if fails c then 1 else 0), o_stdout = [], o_stderr = []\<rparr>),
      xe_now = (\<lambda>_. 0), xe_exists = (\<lambda>_ _. True), xe_is_file = (\<lambda>_ _ _. True),
      xe_read_dir = (\<lambda>_ _. Inr [Inr (map of_nat (str ''exec_block.sh''))]),
      xe_read_text = (\<lambda>_ _. None), xe_append = (\<lambda>_ _. True), xe_write = (\<lambda>_ _. None)\<rparr>"

definition boot_script :: "command \<Rightarrow> bool" where
  "boot_script c \<longleftrightarrow> c = incus [str ''exec'', vm_name, str ''--'', str ''bash'', str ''-c'', enable_lsm_script]"

text \<open>What a task returns when no answer depends on the history.\<close>

lemma fst_task:
  "fst (give a env h) = Value a" "fst (error m env h) = Error m" "fst (quit n env h) = Quit n"
  "fst (bind_task t f env h) =
     (case fst (t env h) of Value a \<Rightarrow> fst (f a env (snd (t env h))) | Error m \<Rightarrow> Error m | Quit n \<Rightarrow> Quit n
      | Unwound \<Rightarrow> Unwound)"
  "fst (attempt t2 env h) =
     (case fst (t2 env h) of Value a \<Rightarrow> Value (Inr a) | Error m \<Rightarrow> Value (Inl m) | Quit n \<Rightarrow> Quit n
      | Unwound \<Rightarrow> Unwound)"
  "fst (request_task ask log env h) = Value (ask env h)"
  "fst (with_vm_guard t env h) = fst (t env h)"
  by (simp_all add: give_def error_def quit_def bind_task_def attempt_def request_task_def with_vm_guard_def Let_def
      split: prod.split flow.split)

lemma demo_answers:
  "fst (run c (demo_xenv fails) h) =
     Value (Inr \<lparr>o_code = Some (if fails c then 1 else 0), o_stdout = [], o_stderr = []\<rparr>)"
  "fst (say l (demo_xenv fails) h) = Value ()" "fst (warn l (demo_xenv fails) h) = Value ()"
  "fst (sleep_secs n (demo_xenv fails) h) = Value ()" "fst (now (demo_xenv fails) h) = Value 0"
  "fst (path_exists p (demo_xenv fails) h) = Value True" "fst (is_file d f (demo_xenv fails) h) = Value True"
  "fst (remove_file b (demo_xenv fails) h) = Value ()"
  "fst (read_dir p (demo_xenv fails) h) = Value (Inr [Inr (map of_nat (str ''exec_block.sh''))])"
  "fst (temp_dir (demo_xenv fails) h) = Value (map of_nat (str ''/tmp''))"
  by (simp_all add: run_def request_defs fst_task demo_xenv_def temp_dir_def)

lemma demo_root: "fst (project_root (demo_xenv fails) h) = Value (str ''/bb'')"
  by (simp add: project_root_def demo_xenv_def parent_dir_def str_def)

lemma demo_commands:
  "\<not> fails c \<Longrightarrow> fst (execute_cmd c m (demo_xenv fails) h) = Value ()"
  "\<not> fails (guest_command l) \<Longrightarrow> fst (incus_exec l (demo_xenv fails) h) = Value ()"
  "\<not> fails (incus [str ''exec'', vm_name, str ''--'', str ''echo'', str ''ready'']) \<Longrightarrow>
   fst (await_guest_agent (demo_xenv fails) h) = Value ()"
proof -
  show "\<not> fails c \<Longrightarrow> fst (execute_cmd c m (demo_xenv fails) h) = Value ()"
    and "\<not> fails (guest_command l) \<Longrightarrow> fst (incus_exec l (demo_xenv fails) h) = Value ()"
    by (simp_all add: execute_cmd_def incus_exec_def fst_task demo_answers succeeded_def)
  have "await_guest_agent = await_rounds (Suc 119)" by (simp add: await_guest_agent_def)
  then have first: "await_guest_agent = bind_task (run (incus [str ''exec'', vm_name, str ''--'', str ''echo'', str ''ready'']))
       (\<lambda>r. if run_succeeded r then give () else bind_task (sleep_secs 2) (\<lambda>_. await_rounds 119))"
    by (simp only: await_rounds.simps)
  show "\<not> fails (incus [str ''exec'', vm_name, str ''--'', str ''echo'', str ''ready'']) \<Longrightarrow>
     fst (await_guest_agent (demo_xenv fails) h) = Value ()"
    unfolding first by (simp add: fst_task demo_answers run_succeeded_def succeeded_def)
qed

lemma shell_not_boot: "take 1 l \<noteq> newline \<Longrightarrow> l \<noteq> enable_lsm_script"
  by (auto simp: enable_lsm_script_def newline_def)

lemma boot_script_not:
  "\<not> boot_script (guest_command l)"
  "length args \<noteq> 6 \<Longrightarrow> \<not> boot_script (incus args)"
  "\<not> boot_script (incus [a, vm_name, b, c, d, str ''mkdir -p /workspace && tar -xzf /root/src-bundle.tar.gz -C /workspace''])"
  "p \<noteq> str ''incus'' \<Longrightarrow> \<not> boot_script \<lparr>c_prog = p, c_args = args, c_dir = dir\<rparr>"
  using shell_not_boot [of "guest_prefix @ l"]
    shell_not_boot [of "str ''mkdir -p /workspace && tar -xzf /root/src-bundle.tar.gz -C /workspace''"]
  by (auto simp: boot_script_def guest_command_def incus_def guest_prefix_def str_def newline_def)

lemma boot_script_itself:
  "boot_script (incus [str ''exec'', vm_name, str ''--'', str ''bash'', str ''-c'', enable_lsm_script])"
  by (simp add: boot_script_def incus_def)

lemma demo_tarball: "\<exists>t. to_str (tarball_path (map of_nat (str ''/tmp''))) = Some t"
proof -
  have "to_str (tarball_path (map of_nat (str ''/tmp''))) \<noteq> None" by code_simp
  then show ?thesis by simp
qed

lemmas demo_steps = fst_task demo_answers demo_root demo_commands boot_script_not run_succeeded_def succeeded_def

lemma demo_parts:
  assumes "fails = boot_script \<or> fails = (\<lambda>_. False)"
  shows "fst (prepare_test_image img (demo_xenv fails) h) = Value ()"
    and "fst (ensure_base_image img (demo_xenv fails) h) = Value ()"
    and "fst (launch_instance img (demo_xenv fails) h) = Value ()"
    and "fst (await_guest_agent (demo_xenv fails) h) = Value ()"
    and "fst (transfer_workspace (demo_xenv fails) h) = Value ()"
    and "fst (provision_default_config (demo_xenv fails) h) = Value ()"
    and "fst (compile_workspace (demo_xenv fails) h) = Value ()"
    and "fst (enforce_airgap (demo_xenv fails) h) = Value ()"
proof -
  obtain t where t: "to_str (tarball_path (map of_nat (str ''/tmp''))) = Some t" using demo_tarball by blast
  show "fst (prepare_test_image img (demo_xenv fails) h) = Value ()"
    by (simp add: prepare_test_image_def demo_steps)
  show "fst (ensure_base_image img (demo_xenv fails) h) = Value ()"
    using assms by (auto simp: ensure_base_image_def demo_steps)
  show "fst (launch_instance img (demo_xenv fails) h) = Value ()"
    using assms by (auto simp: launch_instance_def launch_args_def demo_steps)
  show "fst (await_guest_agent (demo_xenv fails) h) = Value ()"
    using assms by (auto simp: demo_steps)
  show "fst (transfer_workspace (demo_xenv fails) h) = Value ()"
    using assms by (auto simp: transfer_workspace_def t demo_steps)
  show "fst (provision_default_config (demo_xenv fails) h) = Value ()"
    using assms by (auto simp: provision_default_config_def demo_steps)
  show "fst (compile_workspace (demo_xenv fails) h) = Value ()"
    using assms by (auto simp: compile_workspace_def demo_steps)
  show "fst (enforce_airgap (demo_xenv fails) h) = Value ()"
    using assms by (auto simp: enforce_airgap_def ensure_no_network_profile_def assign_airgap_def demo_steps)
qed

lemma demo_last_parts:
  "fst (assert_no_network (demo_xenv (\<lambda>_. False)) h) = Value ()"
  "fst (create_snapshot (demo_xenv (\<lambda>_. False)) h) = Value ()"
  "fst (inject_kernel_parameters (demo_xenv boot_script) h) = Quit 1"
  "fst (inject_kernel_parameters (demo_xenv (\<lambda>_. False)) h) = Value ()"
proof -
  have "\<not> contains_str (str ''eth0'') (utf8_lossy [])" by code_simp
  then show "fst (assert_no_network (demo_xenv (\<lambda>_. False)) h) = Value ()"
    by (simp add: assert_no_network_def demo_steps)
qed (simp_all add: create_snapshot_def inject_kernel_parameters_def demo_steps boot_script_itself)

lemma demo_boot_failure: "fst (run_tests None None img (demo_xenv boot_script) h) = Quit 1"
  by (simp add: run_tests_def setup_and_snapshot_vm_def fst_task demo_answers demo_parts demo_last_parts)

lemma demo_typo:
  "fst (run_categories (Some (str ''component'')) (Some (str ''exec_blok'')) (demo_xenv (\<lambda>_. False)) h) = Value ([], 0)"
proof -
  have "\<not> selected (Some (str ''exec_blok'')) (map of_nat (str ''exec_block.sh''))" by code_simp
  then show ?thesis
    by (simp add: run_categories_def execute_suite_def run_test_suite_def run_entry_def Let_def demo_steps)
qed

lemma demo_typo_succeeds:
  "fst (run_tests (Some (str ''component'')) (Some (str ''exec_blok'')) img (demo_xenv (\<lambda>_. False)) h) = Value ()"
  by (simp add: run_tests_def setup_and_snapshot_vm_def fst_task demo_answers demo_parts demo_last_parts demo_typo
      conclude_def generate_markdown_report_def)

section \<open>Properties\<close>

text \<open>
  C20: whatever the commands answer, a test command is only sent to a guest that was given
  the profile without a network, then passed the link check, then was snapshotted, and whose
  snapshot was restored and started since the previous test.
\<close>

theorem tests_isolated: "isolated (vm_after (snd (xtask_main args env [])))"
proof (rule wp_snd)
  have finish: "wp (bind_task (warn m) (\<lambda>_. quit 1)) (\<lambda>_ h. isolated (vm_after h)) (\<lambda>_ h. isolated (vm_after h))
     (\<lambda>h. isolated (vm_after h)) env h" if "isolated (vm_after h)" for m h
    unfolding wp_bind by (rule life.keeps_use [OF life.keeps_requests(2) refl]) (use that in simp_all)
  show "wp (xtask_main args) (\<lambda>_ h. isolated (vm_after h)) (\<lambda>_ h. isolated (vm_after h))
     (\<lambda>h. isolated (vm_after h)) env []"
  proof (cases "extract_image args")
    case None
    then show ?thesis using finish [of "[]"] by (simp add: xtask_main_def)
  next
    case (Some p)
    obtain img rest where p: "p = (img, rest)" by fastforce
    show ?thesis
      unfolding xtask_main_def Some p option.case prod.case wp_bind wp_attempt
      by (rule wp_mono [OF dispatch_wp])
        (auto split: option.split simp: sum.case wp_basic finish [simplified])
  qed
qed

text \<open>
  C38: the guard sends the command that deletes the virtual machine on every way out of a test
  run but one, whatever the commands answer and whatever was asked for: the machine is left
  behind, launched and not deleted since, exactly when the process exits, which is what the
  boot loader step does when it fails, against the guard's promise of termination.
\<close>

theorem vm_deleted_unless_exit:
  "(left (vm_after (snd (run_tests category target img env []))) \<longleftrightarrow>
      (case fst (run_tests category target img env []) of Quit _ \<Rightarrow> True | _ \<Rightarrow> False)) \<and>
   fst (run_tests None None default_image (demo_xenv boot_script) []) = Quit 1"
proof
  show "left (vm_after (snd (run_tests category target img env []))) \<longleftrightarrow>
      (case fst (run_tests category target img env []) of Quit _ \<Rightarrow> True | _ \<Rightarrow> False)"
    using run_tests_wp [of category target img env] by (auto simp: wp_def split: prod.splits flow.splits)
  show "fst (run_tests None None default_image (demo_xenv boot_script) []) = Quit 1"
    by (rule demo_boot_failure)
qed

text \<open>
  A run of the tests that reports success means that every test command it sent
  succeeded; but a name that matches no test file reports success without sending any.
\<close>

theorem success_means_passed:
  "(case fst (run_tests category target img env []) of
      Value _ \<Rightarrow> list_all id (verdicts (vm_after (snd (run_tests category target img env []))))
    | _ \<Rightarrow> True) \<and>
   fst (run_categories (Some (str ''component'')) (Some (str ''exec_blok'')) (demo_xenv (\<lambda>_. False)) h) = Value ([], 0) \<and>
   fst (run_tests (Some (str ''component'')) (Some (str ''exec_blok'')) default_image (demo_xenv (\<lambda>_. False)) []) = Value ()"
proof (intro conjI)
  show "case fst (run_tests category target img env []) of
      Value _ \<Rightarrow> list_all id (verdicts (vm_after (snd (run_tests category target img env []))))
    | _ \<Rightarrow> True"
    using run_tests_wp [of category target img env] by (auto simp: wp_def split: prod.splits flow.splits)
  show "fst (run_categories (Some (str ''component'')) (Some (str ''exec_blok'')) (demo_xenv (\<lambda>_. False)) h) = Value ([], 0)"
    by (rule demo_typo)
  show "fst (run_tests (Some (str ''component'')) (Some (str ''exec_blok'')) default_image (demo_xenv (\<lambda>_. False)) []) = Value ()"
    by (rule demo_typo_succeeds)
qed

text \<open>
  The link check passes exactly when the word eth0 does not occur in what the command
  printed: it also passes when the command failed and printed nothing, and when the guest has
  an interface of another name.
\<close>

theorem link_check_is_for_eth0:
  "(fst (assert_no_network env h) = Value () \<longleftrightarrow> no_eth0 (xe_run env h show_links)) \<and>
   no_eth0 (Inr \<lparr>o_code = Some 127, o_stdout = [], o_stderr = []\<rparr>) \<and>
   no_eth0 (Inr \<lparr>o_code = Some 0, o_stdout = map of_nat (str ''2: enp5s0: <BROADCAST,UP>''), o_stderr = []\<rparr>)"
proof (intro conjI)
  show "fst (assert_no_network env h) = Value () \<longleftrightarrow> no_eth0 (xe_run env h show_links)"
    by (auto simp: assert_no_network_def bind_task_def run_def say_def request_task_def error_def give_def
        no_eth0_def Let_def split: sum.split)
  show "no_eth0 (Inr \<lparr>o_code = Some 127, o_stdout = [], o_stderr = []\<rparr>)"
    by code_simp
  show "no_eth0 (Inr \<lparr>o_code = Some 0, o_stdout = map of_nat (str ''2: enp5s0: <BROADCAST,UP>''), o_stderr = []\<rparr>)"
    by code_simp
qed

end
