(* ===== verification/BB_Unit_Tests.thy ===== *)
theory BB_Unit_Tests
  imports BB_Ipc BB_Kernel_Rename
begin

text \<open>
  The unit tests of the crates \<open>core\<close> and \<open>modules\<close>, one definition per \<open>#[test]\<close>
  function, run against the definitions of this library. A test passes when its value is
  \<open>True\<close>: an assertion that fails and an \<open>expect\<close> or \<open>unwrap\<close> of an error are \<open>False\<close>. Bytes
  of a literal are written with \<open>literal\<close>. The one test left out,
  \<open>test_build_secure_walker_constraints\<close>, only asserts that \<open>walkdir\<close> yields the temporary
  directory itself.
\<close>

definition literal :: "rstr \<Rightarrow> u8 list" where
  "literal s = map of_nat s"

section \<open>The reader (modules/src/common/traits.rs)\<close>

definition is_err :: "'a io \<Rightarrow> bool" where
  "is_err r = (case snd r of Inl (Fail _) \<Rightarrow> True | _ \<Rightarrow> False)"

definition test_bpf_reader_u32_success :: "endian \<Rightarrow> bool" where
  "test_bpf_reader_u32_success en =
     (case snd (read_u32 en (reader_new (u32_to_ne_bytes en 42))) of
        Inr (v, r) \<Rightarrow> v = 42 \<and> offset r = 4
      | Inl _ \<Rightarrow> False)"

definition test_bpf_reader_u32_underrun :: "endian \<Rightarrow> bool" where
  "test_bpf_reader_u32_underrun en = is_err (read_u32 en (reader_new (replicate 3 0)))"

definition test_bpf_reader_string_success :: bool where
  "test_bpf_reader_string_success =
     (let d = literal (str ''secret.txt'' @ [0]) @ replicate 5 0
      in case snd (read_string 15 (reader_new d)) of
           Inr (s, r) \<Rightarrow> s = str ''secret.txt'' \<and> offset r = 15
         | Inl _ \<Rightarrow> False)"

definition test_bpf_reader_string_sanitization :: bool where
  "test_bpf_reader_string_sanitization =
     (let d = literal (str ''malware'' @ [0x1B] @ str ''[31m.sh'' @ [0])
      in case snd (read_string (length d) (reader_new d)) of
           Inr (s, r) \<Rightarrow> s = str ''malware?[31m.sh''
         | Inl _ \<Rightarrow> False)"

definition test_bpf_reader_string_underrun :: bool where
  "test_bpf_reader_string_underrun =
     is_err (read_string 10 (reader_new (literal (str ''short'' @ [0]))))"

section \<open>The macro and the registry (modules/src/lib.rs)\<close>

record dummy_alert =
  severity :: u8

definition dummy_parser :: "endian \<Rightarrow> u8 list \<Rightarrow> dummy_alert io" where
  "dummy_parser en d =
     (case d of [] \<Rightarrow> fail (str ''Empty payload'') | b # _ \<Rightarrow> ret \<lparr>severity = b\<rparr>)"

definition dummy_fields :: "dummy_alert \<Rightarrow> json_fields" where
  "dummy_fields a = [(str ''severity'', JNum (unat (severity a)))]"

definition dummy_heuristic :: "(dummy_alert, 'g globals_scheme, 'm, 'p) module_spec" where
  "dummy_heuristic =
     \<lparr>ms_name = str ''Dummy Heuristic Engine'', ms_slug = str ''dummy_heur'', ms_mitre = [],
      ms_parser = dummy_parser, ms_fields = dummy_fields, ms_handler = (\<lambda>env alert g. ([], g)),
      ms_xattr = None, ms_dynamic = None, ms_capacities = None, ms_init = None\<rparr>"

definition test_macro_generated_module_state :: "(dummy_alert, 'g globals_scheme, 'm, 'p) module_spec \<Rightarrow> bool" where
  "test_macro_generated_module_state spec =
     (let m = new_module spec;
          on = snd (toggle True m);
          off = snd (toggle False on)
      in sm_name m = str ''Dummy Heuristic Engine'' \<and> sm_slug m = str ''dummy_heur'' \<and>
         \<not> status m \<and> status on \<and> \<not> status off)"

definition test_build_registry_instantiation :: "('g tracked_scheme, 'm, 'p) registry \<Rightarrow> bool" where
  "test_build_registry_instantiation registry = (registry \<noteq> [])"

section \<open>Hardware keys (modules/src/common/fs_utils.rs)\<close>

text \<open>The metadata are those of the temporary file, whatever the system reports.\<close>

definition test_generate_hardware_key_alignment :: "endian \<Rightarrow> metadata \<Rightarrow> bool" where
  "test_generate_hardware_key_alignment en meta =
     (let key = generate_hardware_key en meta
      in length key = 16 \<and> slice_range 12 16 key = Inr [0, 0, 0, 0])"

section \<open>Entropy and size check (modules/src/rename_entropy.rs)\<close>

definition test_scaled_entropy_threshold :: bool where
  "test_scaled_entropy_threshold =
     (let benign_score = compute_entropy_mirror (literal (str ''document.txt''));
          malicious_score = compute_entropy_mirror (literal (str ''a8f93j2x.locked''))
      in benign_score < 4300 \<and> malicious_score > benign_score)"

definition test_try_from_bytes_size_constraint :: "endian \<Rightarrow> bool" where
  "test_try_from_bytes_size_constraint en =
     (case snd (rename_try_from_bytes en (replicate 1024 0)) of
        Inl (Fail e) \<Rightarrow> e = str ''Telemetry payload violates minimum size constraints.''
      | _ \<Rightarrow> False)"

section \<open>The command parser (core/src/ipc/handler.rs)\<close>

text \<open>One end of a socket pair: what was written into the other end, which is then dropped.\<close>

definition sent_and_dropped :: "u8 list \<Rightarrow> arrival list" where
  "sent_and_dropped bs = [Data 0 bs, Eof 0]"

definition test_parse_command_status :: bool where
  "test_parse_command_status =
     (fst (parse_command (sent_and_dropped (literal (str ''STATUS'' @ newline)))) = Inr (Some CmdStatus))"

definition test_parse_command_enable_module :: bool where
  "test_parse_command_enable_module =
     (case fst (parse_command (sent_and_dropped (literal (str ''ENABLE rename_entropy'' @ newline)))) of
        Inr (Some (CmdEnable target)) \<Rightarrow> target = str ''rename_entropy''
      | _ \<Rightarrow> False)"

definition test_parse_command_invalid_input :: bool where
  "test_parse_command_invalid_input =
     (fst (parse_command (sent_and_dropped (literal (str ''NUKE_KERNEL'' @ newline))))
      = Inl (str ''Unknown command''))"

definition test_parse_command_empty_stream :: bool where
  "test_parse_command_empty_stream = (fst (parse_command [Eof 0]) = Inr None)"

section \<open>The actor (core/src/actor.rs)\<close>

definition setup_mock_actor :: "'m engine \<Rightarrow> (tracked, 'm) daemon" where
  "setup_mock_actor engine = \<lparr>d_engine = engine, d_registry = []\<rparr>"

definition mock_response :: "endian \<Rightarrow> 'm bpf_api \<Rightarrow> 'm loader \<Rightarrow> daemon_cmd \<Rightarrow> rstr" where
  "mock_response en api ld cmd = fst (snd (handle_command en api ld cmd (setup_mock_actor [])))"

definition test_handle_command_status :: "endian \<Rightarrow> 'm bpf_api \<Rightarrow> 'm loader \<Rightarrow> bool" where
  "test_handle_command_status en api ld =
     (mock_response en api ld CmdStatus
      = str ''Bouclier Bleu EDR Status: Kernel Engine Running'' @ newline)"

definition test_handle_command_list_empty :: "endian \<Rightarrow> 'm bpf_api \<Rightarrow> 'm loader \<Rightarrow> bool" where
  "test_handle_command_list_empty en api ld =
     (mock_response en api ld CmdList = str ''MODULE REGISTRY:'' @ newline)"

definition test_toggle_module_not_loaded :: "endian \<Rightarrow> 'm bpf_api \<Rightarrow> 'm loader \<Rightarrow> bool" where
  "test_toggle_module_not_loaded en api ld =
     contains_str
       (str ''ERROR: Module '' @ quoted (str ''exec_block'') @ str '' is not loaded in kernel memory.'')
       (mock_response en api ld (CmdEnable (str ''exec_block'')))"

definition test_toggle_module_disable_not_active :: "endian \<Rightarrow> 'm bpf_api \<Rightarrow> 'm loader \<Rightarrow> bool" where
  "test_toggle_module_disable_not_active en api ld =
     contains_str
       (str ''ERROR: Module '' @ quoted (str ''shield'') @ str '' is not currently active'' @ newline)
       (mock_response en api ld (CmdDisable (str ''shield'')))"

section \<open>They pass\<close>

lemma contains_prefix: "contains_str p (p @ s)"
proof (cases "p @ s")
  case (Cons c cs)
  then have "take (length p) (c # cs) = p" by (metis append_eq_conv_conj)
  with Cons show ?thesis by simp
qed simp

lemma reader_tests:
  "test_bpf_reader_u32_success en" "test_bpf_reader_u32_underrun en"
  "test_bpf_reader_string_success" "test_bpf_reader_string_sanitization"
  "test_bpf_reader_string_underrun"
proof -
  show "test_bpf_reader_u32_success en"
    by (simp add: test_bpf_reader_u32_success_def read_u32_ok u32_field_def)
  show "test_bpf_reader_u32_underrun en"
    by (simp add: test_bpf_reader_u32_underrun_def is_err_def read_u32_short fail_def)
  show "test_bpf_reader_string_success"
    by code_simp
  show "test_bpf_reader_string_sanitization"
    by code_simp
  show "test_bpf_reader_string_underrun"
    by (simp add: test_bpf_reader_string_underrun_def is_err_def read_string_short literal_def fail_def)
qed

lemma module_tests:
  "test_macro_generated_module_state dummy_heuristic"
  "test_build_registry_instantiation build_registry"
  "test_generate_hardware_key_alignment en meta"
  "test_scaled_entropy_threshold" "test_try_from_bytes_size_constraint en"
proof -
  show "test_macro_generated_module_state dummy_heuristic"
    by (simp add: test_macro_generated_module_state_def dummy_heuristic_def new_module_def
        status_def toggle_def)
  show "test_build_registry_instantiation build_registry"
    by (simp add: test_build_registry_instantiation_def build_registry_def)
  show "test_generate_hardware_key_alignment en meta"
    by (simp add: test_generate_hardware_key_alignment_def generate_hardware_key_def slice_range_def
        eval_nat_numeral)
  show "test_scaled_entropy_threshold"
    by code_simp
  show "test_try_from_bytes_size_constraint en"
    by (simp add: test_try_from_bytes_size_constraint_def rename_try_from_bytes_def fail_def
        min_size_error_def)
qed

lemma read_to_end_eof: "0 < n \<Longrightarrow> read_to_end n buffer [Eof 0] = (Inr buffer, 0)"
  by (cases n) (simp_all add: read_timeout_ms_def)

lemma parse_sent:
  assumes "bs \<noteq> []" "length bs \<le> 1024"
  shows "fst (parse_command (sent_and_dropped bs)) =
    parse_parts (split_whitespace (trim_by is_whitespace (utf8_lossy bs)))"
  using assms by (simp add: parse_command_def sent_and_dropped_def read_to_end_whole)

lemma literal_simps [simp]:
  "literal s = [] \<longleftrightarrow> s = []" "length (literal s) = length s"
  by (simp_all add: literal_def)

lemma parse_line:
  assumes "\<forall>c \<in> set line. c < 128" "line \<noteq> []" "length line \<le> 1000"
    and "\<not> is_whitespace (hd line)" "\<not> is_whitespace (last line)"
  shows "fst (parse_command (sent_and_dropped (literal (line @ newline)))) =
    parse_parts (split_whitespace line)"
proof -
  have ascii: "map unat (literal s) = s \<and> (\<forall>b \<in> set (literal s). unat b < 0x80)"
    if "\<forall>c \<in> set s. c < 128" for s
    using that by (induction s) (simp_all add: literal_def unat_of_nat)
  have "utf8_lossy (literal (line @ newline)) = line @ [10]"
    using ascii [of "line @ newline"] assms(1) utf8_lossy_ascii [of "literal (line @ newline)"]
    by (simp add: newline_def)
  moreover have "trim_by is_whitespace (line @ [10]) = trim_by is_whitespace line"
  proof -
    from assms(2,4) obtain c cs where "line = c # cs" "\<not> is_whitespace c" by (cases line) auto
    then show ?thesis
      by (simp add: trim_by_def trim_start_by_def trim_end_by_append [of _ "_ # _" "[10]", simplified])
        (simp add: trim_end_by_def is_whitespace_def)
  qed
  ultimately show ?thesis
    using assms by (simp add: parse_sent newline_def trim_ends)
qed

lemma control_tests:
  "test_parse_command_status" "test_parse_command_enable_module"
  "test_parse_command_invalid_input" "test_parse_command_empty_stream"
proof -
  have "split_whitespace (str ''STATUS'') = [str ''STATUS'']"
    by (rule split_whitespace_one) (simp_all add: verbs_plain)
  moreover have "fst (parse_command (sent_and_dropped (literal (str ''STATUS'' @ newline)))) =
      parse_parts (split_whitespace (str ''STATUS''))"
    by (rule parse_line) (simp_all add: str_def is_whitespace_def)
  ultimately show "test_parse_command_status"
    by (simp add: test_parse_command_status_def parse_parts_def)
  have "split_whitespace (str ''ENABLE'' @ 32 # str ''rename_entropy'') = [str ''ENABLE'', str ''rename_entropy'']"
    by (rule split_whitespace_two) (simp_all add: str_def is_whitespace_def)
  moreover have "str ''ENABLE rename_entropy'' = str ''ENABLE'' @ 32 # str ''rename_entropy''"
    by (simp add: str_def)
  moreover have "fst (parse_command (sent_and_dropped (literal (str ''ENABLE rename_entropy'' @ newline)))) =
      parse_parts (split_whitespace (str ''ENABLE rename_entropy''))"
    by (rule parse_line) (simp_all add: str_def is_whitespace_def)
  ultimately show "test_parse_command_enable_module"
    by (simp add: test_parse_command_enable_module_def parse_parts_def)
  have "split_whitespace (str ''NUKE_KERNEL'') = [str ''NUKE_KERNEL'']"
    by (rule split_whitespace_one) (simp_all add: str_def is_whitespace_def)
  moreover have "to_uppercase (str ''NUKE_KERNEL'') = str ''NUKE_KERNEL''"
    by (simp add: to_uppercase_def upper_char_def str_def)
  moreover have "fst (parse_command (sent_and_dropped (literal (str ''NUKE_KERNEL'' @ newline)))) =
      parse_parts (split_whitespace (str ''NUKE_KERNEL''))"
    by (rule parse_line) (simp_all add: str_def is_whitespace_def)
  ultimately show "test_parse_command_invalid_input"
    by (simp add: test_parse_command_invalid_input_def parse_parts_def unknown_command_def)
  show "test_parse_command_empty_stream"
    by (simp add: test_parse_command_empty_stream_def parse_command_def read_to_end_eof)
qed

lemma actor_tests:
  "test_handle_command_status en api ld" "test_handle_command_list_empty en api ld"
  "test_toggle_module_not_loaded en api ld" "test_toggle_module_disable_not_active en api ld"
proof -
  note mock = mock_response_def setup_mock_actor_def handle_command_def toggle_module_def
    get_skeleton_def
  show "test_handle_command_status en api ld"
    by (simp add: test_handle_command_status_def mock status_response_def)
  show "test_handle_command_list_empty en api ld"
    by (simp add: test_handle_command_list_empty_def mock list_response_def)
  have "str '' is not loaded in kernel memory. Check daemon boot logs or restart the service to load new modules.''
      = str '' is not loaded in kernel memory.''
        @ str '' Check daemon boot logs or restart the service to load new modules.''"
    by (simp flip: str_append)
  then show "test_toggle_module_not_loaded en api ld"
    using contains_prefix [of "str ''ERROR: Module '' @ quoted (str ''exec_block'')
        @ str '' is not loaded in kernel memory.''"
        "str '' Check daemon boot logs or restart the service to load new modules.'' @ newline"]
    by (simp add: test_toggle_module_not_loaded_def mock)
  show "test_toggle_module_disable_not_active en api ld"
    using contains_prefix [of "str ''ERROR: Module '' @ quoted (str ''shield'')
        @ str '' is not currently active'' @ newline" "[]"]
    by (simp add: test_toggle_module_disable_not_active_def mock)
qed

text \<open>
  The unit tests the repository keeps beside the reader, the macro, the registry, the
  hardware keys, the entropy score, the request parser and the actor pass on this library's
  definitions of them, on machines of either byte order, for every metadata the system
  reports and every behaviour of the BPF library.
\<close>

lemma unit_tests_pass:
  "test_bpf_reader_u32_success en \<and> test_bpf_reader_u32_underrun en \<and>
   test_bpf_reader_string_success \<and> test_bpf_reader_string_sanitization \<and>
   test_bpf_reader_string_underrun \<and>
   test_macro_generated_module_state dummy_heuristic \<and>
   test_build_registry_instantiation build_registry \<and>
   test_generate_hardware_key_alignment en meta \<and>
   test_scaled_entropy_threshold \<and> test_try_from_bytes_size_constraint en \<and>
   test_parse_command_status \<and> test_parse_command_enable_module \<and>
   test_parse_command_invalid_input \<and> test_parse_command_empty_stream \<and>
   test_handle_command_status en api ld \<and> test_handle_command_list_empty en api ld \<and>
   test_toggle_module_not_loaded en api ld \<and> test_toggle_module_disable_not_active en api ld"
  by (intro conjI reader_tests module_tests control_tests actor_tests)

end
