(* ===== verification/Spec2Isabelle.thy ===== *)
theory Spec2Isabelle
  imports BB_Enforcement BB_Correlation BB_Build BB_Xtask_Safety BB_Unit_Tests
begin

text \<open>
  Bouclier Bleu is an endpoint detection and response daemon for Linux. Ten kernel programs
  (BPF, \<open>bpf/*.bpf.c\<close>) enforce a policy each and report what they saw through one ring
  buffer; the daemon (crates \<open>core\<close> and \<open>modules\<close>, in Rust) loads them, sizes and fills the
  maps they consult, switches each on or off, parses and logs their alerts, and answers a
  control socket; \<open>cli\<close> is the client of that socket; \<open>xtask\<close> runs the tests in a virtual
  machine. This library models every Rust routine from the start of the daemon to the
  handlers of its events, the build script, the test automation and the unit tests, and on
  the kernel side every hook of the ten programs with the headers they share.

  HOW THE PARTS INTERACT. \<open>main\<close> checks its privileges, reads the configuration, builds the
  registry of modules, has \<open>BpfEngine::load_modules\<close> load one kernel object per module and
  initialise it, attaches one callback per object to the ring buffer, starts the control
  plane and enters the actor's loop. The loop alternates between commands from the control
  plane (a bounded channel) and polling the ring buffer, whose callbacks look the module up
  by its slug and hand it the raw record.

  THE THEORIES, bottom up, and the files of \<open>src/\<close> they model.

  \<^item> \<open>BB_Prelude\<close>: machine integers, strings as lists of scalar values, the effects of the
    daemon on the world, the error-and-output monad \<open>io\<close> (\<open>ret\<close>, \<open>fail\<close>, \<open>bind_io\<close>), checked
    slicing, the byte codecs, the string splitting of the standard library. \<open>Panic\<close> is an
    error value of its own, so a slice out of bounds is visible.
  \<^item> \<open>BB_Utf8\<close>: \<open>String::from_utf8_lossy\<close> and its inverse on scalar values.
  \<^item> \<open>BB_Bpf_Reader\<close>: \<open>BpfReader\<close> (\<open>modules/src/common/traits.rs\<close>), and the locales
    \<open>alert_parser\<close> (a parser accepts exactly the long-enough records, and what it reads) and
    \<open>alert_layout\<close> (what it makes of a C structure, whatever bytes its arrays hold), which the
    modules interpret. Strings of the kernel are bytes; \<open>shown\<close> is what the daemon prints of
    them and \<open>noise\<close> its warning about what it replaced.
  \<^item> \<open>BB_Fs\<close>: \<open>std::fs\<close> on an explicit file system, with links, owners, modes, faults and an
    adversary that may act before every system call.
  \<^item> \<open>BB_Siem\<close>: \<open>modules/src/common/telemetry.rs\<close>, the log directory, the sinks, the event line.
  \<^item> \<open>BB_Toml\<close>: the value type of the \<open>toml\<close> crate.
  \<^item> \<open>BB_Bpf_Loader\<close>: the interface generated by \<open>core/build.rs\<close>: loading, the \<open>state_map\<close>
    flag, access to the maps; the map operations themselves are the parameter \<open>bpf_api\<close>. What
    is documented of them is stated per type of map: \<open>bpf_api_ok\<close> of all (the key written holds
    the value; of the other keys some may be gone), \<open>bpf_room_ok\<close> while there is room (an update
    succeeds and touches nothing else), \<open>bpf_hash_ok\<close> of hash maps (an update never touches
    another key) and \<open>bpf_lru_ok\<close> of maps that evict (an update never fails). \<open>hash_map n\<close> and
    \<open>lru_map n\<close> are instances. Lemmas on the watchlist of directories, an evicting map, rest on
    \<open>bpf_room_ok\<close> alone.
  \<^item> \<open>BB_Fs_Utils\<close>: \<open>modules/src/common/fs_utils.rs\<close>, the hardware keys, the sizing walk and
    the two population walks.
  \<^item> \<open>BB_Security_Module\<close>: the traits and the macro \<open>define_security_module!\<close>
    (\<open>modules/src/common/traits.rs\<close>, \<open>macros.rs\<close>); locales \<open>map_provider_contract\<close>,
    interpreted by the daemon's provider, and \<open>event_module\<close>, interpreted by every module.
  \<^item> \<open>BB_Exec_Block\<close>, \<open>BB_Rename_Entropy\<close>, \<open>BB_Shield\<close>, \<open>BB_Mount_Secure\<close>, \<open>BB_Strict_Wx\<close>,
    \<open>BB_Ptrace_Block\<close>, \<open>BB_Dump_Restrict\<close>, \<open>BB_Userns_Restrict\<close>, \<open>BB_Madvise_Ratelimit\<close>,
    \<open>BB_Io_Restrict\<close>: the module of the same name in \<open>modules/src/\<close>: its alert record, its
    \<open>try_from_bytes\<close>, the fields it serialises, its handler, capacities and initialisation
    hook; and the C structure the kernel program fills, as a record \<open>X_struct\<close> with its memory
    \<open>X_image\<close> and its meaning to the daemon (\<open>X_meaning\<close>, \<open>X_grumbles\<close>).
  \<^item> \<open>BB_Registry\<close>: \<open>build_registry\<close> and the searches by slug.
  \<^item> \<open>BB_Bpf_Manager\<close>: \<open>core/src/bpf_manager.rs\<close>.
  \<^item> \<open>BB_Actor\<close>: \<open>core/src/telemetry.rs\<close>, \<open>core/src/actor.rs\<close>, \<open>core/src/ipc/types.rs\<close>; the loop
    as the step relation \<open>system_step\<close> over sending, hanging up and iterating.
  \<^item> \<open>BB_Config\<close>: \<open>core/src/config.rs\<close>.
  \<^item> \<open>BB_Ipc\<close>: \<open>core/src/ipc/handler.rs\<close> and the client \<open>cli/src/main.rs\<close>.
  \<^item> \<open>BB_Ipc_Setup\<close>: \<open>core/src/ipc/setup.rs\<close> and \<open>core/src/ipc/mod.rs\<close>.
  \<^item> \<open>BB_Daemon\<close>: \<open>core/src/main.rs\<close>.
  \<^item> \<open>BB_Spec\<close>: the contract of the control plane (\<open>edr_step\<close>: a map from loaded modules to
    whether they are enforced) and the locale \<open>simulation\<close>, interpreted by \<open>handle_command\<close>;
    the boot establishes the contract's invariant and the loop keeps to it.
  \<^item> \<open>BB_Build\<close>: \<open>core/build.rs\<close>, the script that decides which modules the loader has, and the
    dispatchers it emits; they are shown to be the operations of \<open>BB_Bpf_Loader\<close>.
  \<^item> \<open>BB_Kernel\<close>: \<open>bpf/headers/module_core.h\<close>, the keys of \<open>vfs_helpers.h\<close>, the helpers of BPF;
    and the locale \<open>reporting_hook\<close>, the interface between a hook and the module that reads
    its records, which the reporting hooks of the theories below interpret.
  \<^item> \<open>BB_Kernel_Watch\<close>: the inheritance of watchlists in \<open>bpf/headers/vfs_helpers.h\<close>.
  \<^item> \<open>BB_Kernel_Exec\<close>, \<open>BB_Kernel_Shield\<close>, \<open>BB_Kernel_Ptrace\<close>, \<open>BB_Kernel_Wx\<close>,
    \<open>BB_Kernel_Userns\<close>, \<open>BB_Kernel_Mount\<close>, \<open>BB_Kernel_Dump\<close>, \<open>BB_Kernel_Madvise\<close>,
    \<open>BB_Kernel_Io\<close>: the hooks of the program of that name in \<open>bpf/\<close>. A call is a record of what
    the hook reads (the maps it looks up, the kernel's objects, the results of helpers, the
    ring-buffer memory or \<open>None\<close>); the result is the value returned, the records submitted
    and whether \<open>SIGKILL\<close> is sent. The programs that keep state between calls (the queue of
    crash tokens, the counters per user, the map of tainted pipes) take and return it, and
    sequences of calls are lists of steps.
  \<^item> \<open>BB_Kernel_Rename\<close>: the hook of \<open>bpf/rename_entropy.bpf.c\<close> and its mirror in the tests of
    \<open>modules/src/rename_entropy.rs\<close>.
  \<^item> \<open>BB_Enforcement\<close>: all reporting hooks in one type, against the commands of the operator and
    the names under which the daemon prints their violations.
  \<^item> \<open>BB_Correlation\<close>: the correlation of rename alerts across the daemon. The locale
    \<open>quiet_module\<close> says what it relies on about the other modules and is interpreted by nine of
    them; the polled records of all modules are reduced to the rename alerts among them
    (\<open>rename_stream\<close>), and a run of the daemon to the alerts it was given (\<open>polled\<close>).
  \<^item> \<open>BB_Unit_Tests\<close>: the unit tests of the crates \<open>core\<close> and \<open>modules\<close>, as boolean functions.
  \<^item> \<open>BB_Xtask\<close>, \<open>BB_Xtask_Vm\<close>, \<open>BB_Xtask_Runner\<close>: \<open>xtask/src/utils.rs\<close>; \<open>vm.rs\<close>; \<open>runner.rs\<close>,
    \<open>report.rs\<close> and \<open>main.rs\<close>. A routine is a task: it reads the environment (which answers
    each request from the history so far), extends the history with what it did, and ends in
    a value, an error, a panic or \<open>process::exit\<close>.
  \<^item> \<open>BB_Xtask_Safety\<close>: weakest preconditions of tasks, and the locale \<open>watcher\<close>, which reads a
    history through a state machine that only commands move; it is interpreted by the life
    of the virtual machine (\<open>watch_vm\<close>).

  WHAT THE LEMMAS SHOW. Parsing: total on every payload, and of every structure the kernel
  programs can submit, whatever bytes its strings are, the alert meant (one of the ten reads
  another layout, and is shown to), strings sanitised. Correlation of rename
  alerts: which sequences kill, whom, and which cannot. Maps: what the first walk sizes is
  enough for the second, which then indexes exactly the matching files. Activation: the two
  copies of a module's flag, the one in the daemon's memory and the one its kernel hooks
  read, agree after boot and after every later step; commands are atomic and are answered in
  order. Control plane: who may submit what, how long a request may take, the client's
  requests are read back. File system: after a successful setup the log directory, the
  socket's directory and the socket are root's alone, whatever was staged before. Contract:
  every run of the actor is a run of the abstract map, which refuses a switch only where the
  kernel can, and what the client prints is what the contract says; the build lists exactly the registered modules. Kernel, renames: the
  hook's verdict equals the one of a user-space reference, and its alert is read back.
  Kernel, the others: the exact verdict of every hook, and that its record is read by the
  daemon as the alert meant. Together with the initialisation of the modules: what the
  watchlists protect after a start. Over sequences of calls: which directories inherit
  protection, which pipes are tainted, which executions of a crash handler are refused and in whose name, which
  madvise calls are fatal, which protections a page can take. Operator to kernel: an
  answered toggle is what the hooks act on. Kernel to process table: three refused renames of
  children of one parent end, through the ring buffer, the parser and the strike tracker, in
  the eradication of its tree, and in no run of the daemon is a process killed on less. Unit tests: they pass in the model. Tests: they
  only run in a restored, air-gapped machine, and success means that they all passed.
  Some lemmas record where the code does something else than its comments say: a window
  that tumbles, a recovery that repeats, a failed initialisation that still activates, a
  time limit per read, a record read with the wrong offsets, an extension that switches the
  heuristic off, a machine that outlives its guard, a link check for one name only, a full
  watchlist that evicts, a moved tree that still runs, cards that are not recognised, a
  taint that one closed descriptor clears, tokens spent on the wrong crash, a quota that can
  be doubled.

  BOUNDS AND FUEL. An iteration of the loop answers at most eleven commands, the channel
  holds at most 128 (\<open>channel_bound\<close>), and \<open>commands_answered\<close> uses twelve iterations, which is
  enough for all of them. An iteration is one step: a command that arrives while it drains
  the channel counts as sent after it. A request is cut at 1024 bytes and a wait for its bytes at 1000 ms, and
  the wait for the answer at 5000 ms, which gives the bound of \<open>request_bounded\<close>. Links are followed at most 40 times, as Linux does; the
  recursion of \<open>create_dir_all\<close> ends because the parent of a path is shorter. The guest agent
  is awaited for 120 rounds, as in the code. A duration printed with two decimals is scaled
  to a double in at most 128 doublings, more than the 82 a nanosecond needs. Nothing else has fuel: the
  walk along 32 dentries and the queue of 512 tokens have the bounds of the code. The concrete maps \<open>hash_map n\<close> and \<open>lru_map n\<close> (association lists of at most \<open>n\<close>
  keys), the loader \<open>demo_loader\<close> and the hosts named \<open>demo\<close> exist for the witnesses only.

  PARAMETERS. Code outside the repository is an argument: \<open>libbpf-rs\<close> (records \<open>bpf_api\<close>,
  \<open>loader\<close>, \<open>ringbuf_api\<close>; the hypotheses \<open>bpf_api_ok\<close>, \<open>bpf_room_ok\<close>, \<open>bpf_hash_ok\<close>,
  \<open>bpf_lru_ok\<close>, \<open>loader_ok\<close>, \<open>loaded_state_ok\<close> state what libbpf and the kernel document of
  them; of the helpers, \<open>resolves_to\<close> says what a resolved path looks like and \<open>comm_sized\<close>
  that a process's name fills its array), \<open>walkdir\<close>, \<open>rustix\<close>, \<open>xattr\<close> and
  \<open>procfs\<close> (record \<open>host\<close>), \<open>toml\<close> and \<open>serde_json\<close> (a parsing and a printing function),
  \<open>sysinfo\<close> (the process table in \<open>event_env\<close>), the clocks, \<open>libbpf-cargo\<close> and \<open>quote\<close> (the
  skeleton compiler and the validity of identifiers in \<open>build_env\<close>), and whatever the commands
  of the test automation answer (\<open>xenv\<close>). The uppercase of letters beyond ASCII, which only
  matters for generated identifiers, is a parameter of the build as well.

  NOT MODELLED. The integration tests and benchmarks (programs that issue system calls; which
  calls of which hooks those cause is decided by the kernel, which is not in the repository),
  scripts and documents; of the unit tests the one that only exercises \<open>walkdir\<close>; the
  argument parser that \<open>clap\<close> derives for the client; in the kernel programs the debug printing and races between
  processors (a step of a hook is atomic, as is an increment followed by its read), and
  the eviction order of LRU maps, which is a parameter. A handler that panics while printing (standard output closed) is not
  represented; memory orderings of the atomics are not either, as only the actor's thread
  and the callbacks it runs touch a flag. The engine and the capacities are association
  lists in the order of insertion, where the code iterates over a \<open>HashMap\<close> in an
  unspecified order: no lemma depends on that order. The thread pool that kills a process
  tree is a list of effects; as the threads share nothing, the set of effects is what counts.
\<close>

section \<open>An example host\<close>

text \<open>
  A host on which the daemon starts: root, the BPF security module active, one module
  enabled by the configuration, two kernel objects to load.
\<close>

definition demo_main_env :: "(u8 list \<times> u8 list) list main_env" where
  "demo_main_env =
     \<lparr>me_endian = Little, me_euid = 0, me_lsm = Inr (str ''lockdown,yama,bpf''),
      me_config = demo_config_env [(str ''exec_block'', TBoolean True)],
      me_host = bare_host, me_api = hash_map 8, me_loader = demo_loader,
      me_ringbuf = \<lparr>rb_add = (\<lambda>_. True), rb_build = (\<lambda>_. True)\<rparr>, me_os = quiet_os\<rparr>"

lemma demo_main_serves:
  obtains s ring where "snd (main demo_main_env) = Serving s ring" "s_running s" "s_senders s"
proof -
  have "case snd (main demo_main_env) of Serving s r \<Rightarrow> s_running s \<and> s_senders s | _ \<Rightarrow> False"
    by code_simp
  with that show thesis by (cases "snd (main demo_main_env)") auto
qed

lemma demo_main_env_ok:
  "bpf_api_ok (me_api demo_main_env)" "loader_ok (me_loader demo_main_env)"
  "loaded_state_ok (me_endian demo_main_env) (me_api demo_main_env) (me_loader demo_main_env)"
  using bpf_hash_api [OF hash_map_ok [of 8]] demo_loader_ok by (simp_all add: demo_main_env_def)

section \<open>Properties that span the components\<close>

text \<open>
  C4: from the start of the daemon on, whatever commands arrive and however they
  interleave with the iterations of the loop and the events it handles, the flag of every
  loaded module in user space agrees with the one its kernel hooks read.
\<close>

theorem flags_agree:
  assumes "bpf_api_ok (me_api me)" "loader_ok (me_loader me)"
    "loaded_state_ok (me_endian me) (me_api me) (me_loader me)"
    and "snd (main me) = Serving s0 ring"
    and "reachable (me_endian me) (me_api me) (me_loader me) s0 as s"
  shows "list_all (\<lambda>(name, skel).
      case (find_module name (d_registry (s_daemon s)), kernel_active (me_endian me) (me_api me) skel) of
        (Some m, Some b) \<Rightarrow> status m = b
      | _ \<Rightarrow> True) (d_engine (s_daemon s))"
proof -
  have "system_inv (me_endian me) (me_api me) (me_loader me) s"
    using reachable_inv [OF assms(1,5)] main_system_inv [OF assms(1-4)] by blast
  then have "coherent (me_endian me) (me_api me) (d_registry (s_daemon s)) (d_engine (s_daemon s))"
    by (simp add: system_inv_def daemon_ok_def)
  then show ?thesis
    by (fastforce simp: coherent_def entry_coherent_def list_all_iff split: option.split prod.split)
qed

theorem flags_agree_witness:
  "\<exists>s0 ring s. snd (main demo_main_env) = Serving s0 ring \<and>
     reachable Little (hash_map 8) demo_loader s0
       (replicate 3 (Tick \<lparr>rs_bound = ring, rs_events = [], rs_error = None\<rparr>)) s \<and>
     list_all (\<lambda>(name, skel).
       case (find_module name (d_registry (s_daemon s)), kernel_active Little (hash_map 8) skel) of
         (Some m, Some b) \<Rightarrow> status m = b
       | _ \<Rightarrow> True) (d_engine (s_daemon s))"
proof (rule demo_main_serves)
  fix s0 ring
  assume run: "snd (main demo_main_env) = Serving s0 ring" and "s_running s0" "s_senders s0"
  then obtain s where reach: "reachable Little (hash_map 8) demo_loader s0
      (replicate 3 (Tick \<lparr>rs_bound = ring, rs_events = [], rs_error = None\<rparr>)) s"
    using ticking_reachable by blast
  have env: "me_endian demo_main_env = Little" "me_api demo_main_env = hash_map 8"
    "me_loader demo_main_env = demo_loader"
    by (simp_all add: demo_main_env_def)
  from flags_agree [OF demo_main_env_ok run, unfolded env, OF reach] run reach show ?thesis by blast
qed

text \<open>
  C5: the actor refines the contract of the control plane: from the start of the daemon on,
  however sending and serving interleave, the commands answered so far are the first of
  those sent, in order, their answers are the contract's and the map from loaded modules to
  their state is the one the contract reaches; it starts as configured. The contract lets a
  switch of a loaded module be refused only where the kernel can refuse to overwrite the entry
  of a map that holds it, and the answer then is the text for that.
\<close>

theorem actor_refines_contract:
  assumes "bpf_api_ok (me_api me)" "loader_ok (me_loader me)"
    "loaded_state_ok (me_endian me) (me_api me) (me_loader me)"
    and "set (available_modules (me_loader me)) \<subseteq> fst ` set registered"
    and "snd (main me) = Serving s0 ring"
    and "reachable (me_endian me) (me_api me) (me_loader me) s0 as s"
  shows "\<exists>cfg served.
    snd (load_config (me_config me)) = Inr cfg \<and>
    (\<forall>n. edr_of (s_daemon s0) n = None \<or> edr_of (s_daemon s0) n = Some (configured cfg n)) \<and>
    spec_run (edr_step registered (flag_refusable (me_endian me) (me_api me))) (edr_of (s_daemon s0)) served
      (map snd (s_replies s)) (edr_of (s_daemon s)) \<and>
    served @ map msg_cmd (s_queue s) = commands as"
proof -
  obtain cfg where "snd (load_config (me_config me)) = Inr cfg"
    and inv: "daemon_inv (me_endian me) (me_api me) (me_loader me) registered (s_daemon s0)" and "s_queue s0 = []" "s_replies s0 = []"
    and "\<And>n. edr_of (s_daemon s0) n = None \<or> edr_of (s_daemon s0) n = Some (configured cfg n)"
    using main_daemon_inv [OF assms(1-5)] by blast
  with reachable_follows [OF assms(6) inv] show ?thesis
    unfolding follows_def by blast
qed

theorem actor_refines_contract_witness:
  "\<exists>s0 s served msg ring. snd (main demo_main_env) = Serving s0 ring \<and> msg_cmd msg = CmdEnable (str ''exec_block'') \<and>
     reachable Little (hash_map 8) demo_loader s0
       [Send msg, Tick \<lparr>rs_bound = ring, rs_events = [], rs_error = None\<rparr>] s \<and>
     spec_run (edr_step registered (flag_refusable Little (hash_map 8))) (edr_of (s_daemon s0)) served (map snd (s_replies s)) (edr_of (s_daemon s)) \<and>
     served @ map msg_cmd (s_queue s) = [CmdEnable (str ''exec_block'')]"
proof (rule demo_main_serves)
  fix s0 ring
  assume run: "snd (main demo_main_env) = Serving s0 ring" and up: "s_running s0" "s_senders s0"
  define msg where "msg = \<lparr>msg_cmd = CmdEnable (str ''exec_block''), msg_reply = 1\<rparr>"
  define rs where "rs = \<lparr>rs_bound = ring, rs_events = [], rs_error = None\<rparr>"
  have "s_queue s0 = []" by (rule main_serving [OF run])
  with up have send: "system_step Little (hash_map 8) demo_loader s0 (Send msg) [] (s0\<lparr>s_queue := [msg]\<rparr>)"
    using step_send [of s0 Little "hash_map 8" demo_loader msg] by (simp add: channel_bound_def)
  obtain e s where "run_once Little (hash_map 8) demo_loader rs (s0\<lparr>s_queue := [msg]\<rparr>) = (e, s)" by fastforce
  then have "system_step Little (hash_map 8) demo_loader (s0\<lparr>s_queue := [msg]\<rparr>) (Tick rs) e s"
    using up by (intro step_tick) simp_all
  from reach_step [OF reach_step [OF reach_start send] this]
  have reach: "reachable Little (hash_map 8) demo_loader s0 [Send msg, Tick rs] s" by simp
  have env: "me_endian demo_main_env = Little" "me_api demo_main_env = hash_map 8"
    "me_loader demo_main_env = demo_loader"
    by (simp_all add: demo_main_env_def)
  have "set (available_modules (me_loader demo_main_env)) \<subseteq> fst ` set registered"
    by (simp add: env demo_loader_def registered_def)
  from actor_refines_contract [OF demo_main_env_ok this run, unfolded env, OF reach]
  obtain served where
    "spec_run (edr_step registered (flag_refusable Little (hash_map 8))) (edr_of (s_daemon s0)) served (map snd (s_replies s)) (edr_of (s_daemon s))"
    "served @ map msg_cmd (s_queue s) = commands [Send msg, Tick rs]"
    by auto
  moreover have "commands [Send msg, Tick rs] = [CmdEnable (str ''exec_block'')]"
    by (simp add: commands_def List.map_filter_def msg_def)
  ultimately show ?thesis using run reach unfolding rs_def by (auto simp: msg_def intro!: exI)
qed

text \<open>
  What the operator sees is what the kernel enforces: in a state in which the flags
  agree, the line of a loaded module in the answer to a list command says active exactly
  when the flag in the kernel is set.
\<close>

theorem list_shows_kernel:
  assumes "daemon_ok en api ld d" and "(name, skel) \<in> set (d_engine d)"
    and "find_module name (d_registry d) = Some m" and "kernel_active en api skel = Some b"
  shows "\<exists>before after. fst (snd (handle_command en api ld CmdList d)) =
    before @ str '' '' @ (if b then str ''[ACTIVE]  '' else str ''[INACTIVE]'') @ str '' '' @ name
      @ str '' ('' @ sm_name m @ str '')'' @ newline @ after"
proof -
  have "entry_coherent en api (d_registry d) name skel"
    using assms(1,2) by (auto simp: daemon_ok_def coherent_def)
  with assms(3,4) have "status m = b" by (simp add: entry_coherent_def)
  moreover have mem: "m \<in> set (d_registry d)" and slug: "sm_slug m = name"
    using find_module_member [OF assms(3)] by blast+
  ultimately have line: "list_line m =
      str '' '' @ (if b then str ''[ACTIVE]  '' else str ''[INACTIVE]'') @ str '' '' @ name
      @ str '' ('' @ sm_name m @ str '')'' @ newline"
    by (simp add: list_line_def)
  from mem obtain xs ys where "d_registry d = xs @ m # ys" by (meson split_list)
  then have "fst (snd (handle_command en api ld CmdList d)) =
      (str ''MODULE REGISTRY:'' @ newline @ concat (map list_line xs)) @ list_line m @ concat (map list_line ys)"
    by (simp add: handle_command_def list_response_def)
  then show ?thesis unfolding line by (metis append_assoc)
qed

theorem list_shows_kernel_witness:
  "\<exists>before after m. fst (snd (handle_command Little (hash_map 8) demo_loader CmdList demo_daemon)) =
    before @ str '' '' @ str ''[INACTIVE]'' @ str '' '' @ str ''exec_block''
      @ str '' ('' @ sm_name m @ str '')'' @ newline @ after \<and>
    m \<in> set (d_registry demo_daemon)"
proof -
  obtain m where find: "find_module (str ''exec_block'') (d_registry demo_daemon) = Some m"
    and m: "m = new_module exec_block_spec"
    by (simp add: demo_daemon_def find_module_def build_registry_def) (simp add: exec_block_spec_def)
  obtain skel where skel: "(str ''exec_block'', skel) \<in> set (d_engine demo_daemon)"
    "kernel_active Little (hash_map 8) skel = Some False" "sk_module skel = str ''exec_block''"
    by (simp add: demo_daemon_def kernel_active_def hash_map_def)
  have "daemon_ok Little (hash_map 8) demo_loader demo_daemon"
    using find m skel
    by (auto simp: daemon_ok_def engine_ok_def coherent_def entry_coherent_def demo_daemon_def demo_loader_def
        kernel_active_def hash_map_def)
  from list_shows_kernel [OF this skel(1) find skel(2)] find_module_member [OF find] show ?thesis
    by (metis (full_types))
qed

text \<open>
  The daemon only serves when it runs as root, when the kernel's list of security
  modules could not be read or names the BPF one, and when the configuration was loaded
  without meeting a file of another owner.
\<close>

theorem serving_preconditions:
  "case snd (main me) of
     Serving s ring \<Rightarrow>
       me_euid me = 0 \<and>
       (case me_lsm me of Inr lsms \<Rightarrow> contains_str (str ''bpf'') lsms | Inl _ \<Rightarrow> True) \<and>
       (case snd (load_config (me_config me)) of Inr _ \<Rightarrow> True | Inl _ \<Rightarrow> False)
   | Panicked \<Rightarrow> me_euid me = 0
   | _ \<Rightarrow> True"
  by (auto simp: main_def check_lsm_def Let_def split: outcome.split sum.splits prod.splits bool.splits if_splits)

text \<open>
  A configuration file whose modules table holds an integer size for the pipe map, as
  the module reads it, cannot be loaded as a configuration: when both readers see the same
  document and the size has an effect, every module stays disabled.
\<close>

theorem configured_size_disables_modules:
  assumes "read_to_string h (str ''/etc/bouclier-bleu/config.toml'') = Some s" and "parse_toml h s = Some v"
    and "io_extracted_size h = Some n"
    and "ce_file ce (str ''/etc/bouclier-bleu/config.toml'') =
      \<lparr>cf_exists = True, cf_opens = True, cf_uid = Some 0, cf_contents = Inr s\<rparr>"
    and "ce_parse ce s = Inr v"
  shows "snd (load_config ce) = Inr default_config"
proof -
  obtain kvs ms i where v: "v = TTable kvs" "map_of kvs (str ''modules'') = Some (TTable ms)"
    "map_of ms (str ''io_restrict_map_size'') = Some (TInteger i)"
    using assms(1-3) by (auto simp: io_extracted_size_def toml_get_Some as_integer_Some bind_eq_Some_conv)
  have "deserialize_config v = None"
    unfolding v(1) by (rule deserialize_config_non_bool [OF v(2,3)]) (simp add: as_bool_def)
  with assms(4,5) show ?thesis
    by (simp add: load_config_def search_paths_def from_str_def)
qed

theorem configured_size_disables_modules_witness:
  "snd (load_config (demo_config_env [(str ''shield'', TBoolean True),
      (str ''io_restrict_map_size'', TInteger 4096)])) = Inr default_config"
proof -
  let ?ms = "[(str ''shield'', TBoolean True), (str ''io_restrict_map_size'', TInteger 4096)]"
  let ?h = "bare_host\<lparr>read_to_string := (\<lambda>_. Some []),
      parse_toml := (\<lambda>_. Some (TTable [(str ''modules'', TTable ?ms)]))\<rparr>"
  show ?thesis
    by (rule configured_size_disables_modules [where h = ?h and s = "[]" and n = 4096 and
          v = "TTable [(str ''modules'', TTable ?ms)]"])
      (simp_all add: demo_config_env_def io_extracted_size_def toml_get_def as_integer_def)
qed

text \<open>
  When the control plane cannot be set up, the daemon announces that it is running and
  leaves its loop in the first iteration: the sending end of the command channel is gone.
\<close>

theorem no_control_plane_no_daemon:
  assumes "snd (main me) = Serving s ring" and "fst (snd (start_ipc_server (me_os me))) = False"
  shows "s_running (snd (run_once en api ld rs s)) = False"
  using no_listener_stops [OF assms(1)] assms(2) by simp

theorem no_control_plane_no_daemon_witness:
  "\<exists>s ring. snd (main (demo_main_env\<lparr>me_os := staged_file_os\<rparr>)) = Serving s ring \<and>
     s_running (snd (run_once Little (hash_map 8) demo_loader
       \<lparr>rs_bound = ring, rs_events = [], rs_error = None\<rparr> s)) = False"
proof -
  have "case snd (main (demo_main_env\<lparr>me_os := staged_file_os\<rparr>)) of Serving s r \<Rightarrow> True | _ \<Rightarrow> False"
    by code_simp
  then obtain s ring where run: "snd (main (demo_main_env\<lparr>me_os := staged_file_os\<rparr>)) = Serving s ring"
    by (cases "snd (main (demo_main_env\<lparr>me_os := staged_file_os\<rparr>))") auto
  have "fst (snd (start_ipc_server (me_os (demo_main_env\<lparr>me_os := staged_file_os\<rparr>)))) = False"
    by code_simp
  from no_control_plane_no_daemon [OF run this] run show ?thesis by blast
qed

end
